(* ===== verification/Prelude.thy ===== *)
theory Prelude
  imports Main "HOL-Library.Monad_Syntax"
begin

text \<open>
  Shared vocabulary of the development: Go's panics as the value \<open>None\<close>, Go's 64-bit
  integers with their wrap-around, Go's nil-able maps and slices, bounded channels, and the
  generic facts on lists and options that the component theories use.
\<close>

section \<open>Collections of facts\<close>

named_theorems go_defs \<open>definitions of the Go primitives, unfolded by name\<close>

named_theorems go_int \<open>64-bit arithmetic that does not wrap\<close>

named_theorems go_map \<open>lookups and updates of Go maps\<close>

section \<open>Bytes and strings\<close>

text \<open>
  A Go \<open>string\<close> or \<open>[]byte\<close> is a sequence of bytes; an Isabelle \<open>char\<close> is exactly a
  byte, so both are modelled by \<open>string\<close>. The numeric value of a byte is \<open>byte c\<close>.
\<close>

type_synonym bytes = string

abbreviation byte :: "char \<Rightarrow> nat" where
  "byte c \<equiv> of_char c"

section \<open>Panics\<close>

text \<open>
  A run-time panic (an index out of range, a write to a nil map, a failed type assertion)
  ends the program: an operation that may panic returns an \<open>option\<close>, and \<open>None\<close> is the
  panic. The errors a function returns as values are values of its result.
\<close>

type_synonym 'a go = "'a option"

text \<open>\<open>s[n:]\<close> panics when \<open>n\<close> exceeds the length.\<close>

definition slice_from :: "bytes \<Rightarrow> nat \<Rightarrow> bytes go" where
  "slice_from s n = (if n \<le> length s then Some (drop n s) else None)"

text \<open>\<open>xs[i] = v\<close> panics when \<open>i\<close> is out of range.\<close>

definition index_set :: "'a list \<Rightarrow> nat \<Rightarrow> 'a \<Rightarrow> 'a list go" where
  "index_set xs i v = (if i < length xs then Some (xs[i := v]) else None)"

text \<open>\<open>xs[i]\<close>.\<close>

definition index_get :: "'a list \<Rightarrow> nat \<Rightarrow> 'a go" where
  "index_get xs i = (if i < length xs then Some (xs ! i) else None)"

lemmas [go_defs] = slice_from_def index_set_def index_get_def

lemma slice_from_append [simp]: "slice_from (xs @ ys) (length xs) = Some ys"
  by (simp add: slice_from_def)

lemma slice_from_0 [simp]: "slice_from xs 0 = Some xs"
  by (simp add: slice_from_def)

lemma slice_from_None_iff: "slice_from s n = None \<longleftrightarrow> length s < n"
  by (auto simp: slice_from_def)

lemma slice_from_length: "slice_from s n = Some t \<Longrightarrow> length t = length s - n \<and> n \<le> length s"
  by (auto simp: slice_from_def split: if_splits)

lemma index_set_length: "index_set xs i v = Some ys \<Longrightarrow> length ys = length xs"
  by (auto simp: index_set_def split: if_splits)

section \<open>64-bit integers\<close>

text \<open>
  \<open>int\<close> and \<open>int64\<close> are 64-bit two's complement on the platforms of the client. They are
  modelled by \<open>int\<close> with the wrap-around written out: \<open>wrap64\<close> is the value kept by the
  low 64 bits, and every addition and subtraction of the program goes through it.
\<close>

definition wrap64 :: "int \<Rightarrow> int" where
  "wrap64 x = (x + 2 ^ 63) mod 2 ^ 64 - 2 ^ 63"

definition add64 :: "int \<Rightarrow> int \<Rightarrow> int" where
  "add64 a b = wrap64 (a + b)"

definition sub64 :: "int \<Rightarrow> int \<Rightarrow> int" where
  "sub64 a b = wrap64 (a - b)"

definition in64 :: "int \<Rightarrow> bool" where
  "in64 x \<longleftrightarrow> - (2 ^ 63) \<le> x \<and> x < 2 ^ 63"

lemma wrap64_in64 [simp]: "in64 (wrap64 x)"
proof -
  have "0 \<le> (x + 2 ^ 63) mod 2 ^ 64" and "(x + 2 ^ 63) mod 2 ^ 64 < (2 :: int) ^ 64"
    by simp_all
  then show ?thesis by (simp add: in64_def wrap64_def)
qed

lemma add64_in64 [simp]: "in64 (add64 a b)" and sub64_in64 [simp]: "in64 (sub64 a b)"
  by (simp_all add: add64_def sub64_def)

lemma wrap64_id [go_int]: "in64 x \<Longrightarrow> wrap64 x = x"
  by (simp add: wrap64_def in64_def)

lemma add64_id [go_int]: "in64 (a + b) \<Longrightarrow> add64 a b = a + b"
  by (simp add: add64_def wrap64_id)

lemma sub64_id [go_int]: "in64 (a - b) \<Longrightarrow> sub64 a b = a - b"
  by (simp add: sub64_def wrap64_id)

lemma wrap64_cong: "wrap64 x mod 2 ^ 64 = x mod 2 ^ 64"
proof -
  have "wrap64 x mod 2 ^ 64 = ((x + 2 ^ 63) mod 2 ^ 64 - 2 ^ 63) mod 2 ^ 64"
    by (simp add: wrap64_def)
  also have "\<dots> = (x + 2 ^ 63 - 2 ^ 63) mod 2 ^ 64"
    by (rule mod_diff_left_eq)
  finally show ?thesis by simp
qed

section \<open>Maps that may be nil\<close>

text \<open>
  A Go map is nil or a finite table. Reading a nil map finds nothing, deleting from it does
  nothing, writing to it panics.
\<close>

type_synonym ('k, 'v) gomap = "('k \<rightharpoonup> 'v) option"

definition make_map :: "('k, 'v) gomap" where
  "make_map = Some Map.empty"

definition map_get :: "('k, 'v) gomap \<Rightarrow> 'k \<Rightarrow> 'v option" where
  "map_get m k = (case m of None \<Rightarrow> None | Some f \<Rightarrow> f k)"

definition map_put :: "('k, 'v) gomap \<Rightarrow> 'k \<Rightarrow> 'v \<Rightarrow> ('k, 'v) gomap go" where
  "map_put m k v = (case m of None \<Rightarrow> None | Some f \<Rightarrow> Some (Some (f(k \<mapsto> v))))"

definition map_delete :: "('k, 'v) gomap \<Rightarrow> 'k \<Rightarrow> ('k, 'v) gomap" where
  "map_delete m k = (case m of None \<Rightarrow> None | Some f \<Rightarrow> Some (f(k := None)))"

text \<open>
  \<open>for k, v := range m { ...; m[k] = v' }\<close> with a body that reads and writes only its own
  entry: every entry is replaced once, so the unspecified iteration order does not show.
\<close>

definition map_each :: "('k \<Rightarrow> 'v \<Rightarrow> 'v) \<Rightarrow> ('k, 'v) gomap \<Rightarrow> ('k, 'v) gomap" where
  "map_each f m = (case m of None \<Rightarrow> None | Some g \<Rightarrow> Some (\<lambda>k. map_option (f k) (g k)))"

lemmas [go_defs] = make_map_def map_get_def map_put_def map_delete_def map_each_def

lemma map_get_make [simp, go_map]: "map_get make_map k = None"
  by (simp add: go_defs)

lemma map_put_None_iff [simp]: "map_put m k v = None \<longleftrightarrow> m = None"
  by (simp add: map_put_def split: option.splits)

lemma map_put_nonnil: "m \<noteq> None \<Longrightarrow> \<exists>m'. map_put m k v = Some m' \<and> m' \<noteq> None"
  by (auto simp: map_put_def)

lemma map_put_Some_nonnil [simp]: "map_put m k v = Some None \<longleftrightarrow> False"
  by (auto simp: map_put_def split: option.splits)

lemma map_get_put [go_map]: "map_put m k v = Some m' \<Longrightarrow> map_get m' j = (if j = k then Some v else map_get m j)"
  by (auto simp: map_put_def map_get_def split: option.splits)

lemma map_get_delete [simp, go_map]: "map_get (map_delete m k) j = (if j = k then None else map_get m j)"
  by (auto simp: map_delete_def map_get_def split: option.splits)

lemma map_get_each [simp, go_map]: "map_get (map_each f m) k = map_option (f k) (map_get m k)"
  by (auto simp: map_each_def map_get_def split: option.splits)

lemma map_each_None_iff [simp]: "map_each f m = None \<longleftrightarrow> m = None"
  by (simp add: map_each_def split: option.splits)

lemma map_delete_None_iff [simp]: "map_delete m k = None \<longleftrightarrow> m = None"
  by (simp add: map_delete_def split: option.splits)

section \<open>Bounded channels\<close>

text \<open>
  A buffered channel is the queue of the values in it, oldest first. \<open>chan_try_send\<close> is a
  send in a \<open>select\<close> with a \<open>default\<close> branch (the value is dropped when the buffer is
  full); \<open>chan_send\<close> is a plain send, which waits for room: a sender that waits and the
  buffer together deliver the values in the order of the queue, so the queue may hold more
  than the capacity.
\<close>

definition chan_try_send :: "nat \<Rightarrow> 'a list \<Rightarrow> 'a \<Rightarrow> 'a list" where
  "chan_try_send cap q x = (if length q < cap then q @ [x] else q)"

definition chan_send :: "'a list \<Rightarrow> 'a \<Rightarrow> 'a list" where
  "chan_send q x = q @ [x]"

definition chan_recv :: "'a list \<Rightarrow> ('a \<times> 'a list) option" where
  "chan_recv q = (case q of [] \<Rightarrow> None | x # xs \<Rightarrow> Some (x, xs))"

lemmas [go_defs] = chan_try_send_def chan_send_def chan_recv_def

text \<open>
  The interface of a queue of messages: \<open>items\<close> is its content, oldest first, and \<open>room\<close>
  says that a send is taken. What one side sends while there is room, the other receives in
  the same order.
\<close>

locale fifo =
  fixes send :: "'q \<Rightarrow> 'a \<Rightarrow> 'q"
    and recv :: "'q \<Rightarrow> ('a \<times> 'q) option"
    and items :: "'q \<Rightarrow> 'a list"
    and room :: "'q \<Rightarrow> bool"
  assumes send_room: "room q \<Longrightarrow> items (send q x) = items q @ [x]"
    and send_full: "\<not> room q \<Longrightarrow> send q x = q"
    and recv_empty: "recv q = None \<longleftrightarrow> items q = []"
    and recv_items: "recv q = Some (x, q') \<Longrightarrow> items q = x # items q'"
begin

lemma send_items: "items (send q x) = items q \<or> items (send q x) = items q @ [x]"
  using send_room send_full by (cases "room q") auto

lemma send_keeps_prefix: "\<exists>new. items (foldl send q xs) = items q @ new \<and> length new \<le> length xs"
proof (induction xs arbitrary: q)
  case Nil
  then show ?case by simp
next
  case (Cons x xs)
  obtain new where n: "items (foldl send (send q x) xs) = items (send q x) @ new" "length new \<le> length xs"
    using Cons.IH by blast
  show ?case
    using send_items [of q x] n by auto
qed

lemma recv_after_send: "room q \<Longrightarrow> recv q = Some (y, q') \<Longrightarrow> hd (items (send q x)) = y"
  using send_room recv_items by fastforce

end

interpretation try_chan: fifo "chan_try_send cap" chan_recv "\<lambda>q. q" "\<lambda>q. length q < cap" for cap
  by unfold_locales (auto simp: go_defs split: list.splits)

interpretation sync_chan: fifo chan_send chan_recv "\<lambda>q. q" "\<lambda>_. True"
  by unfold_locales (auto simp: go_defs split: list.splits)

section \<open>Transition systems\<close>

text \<open>
  A component that moves by steps, and what its invariant has to satisfy; the invariant then
  holds in every state a run of steps can reach.
\<close>

locale invariant_system =
  fixes step :: "'s \<Rightarrow> 's \<Rightarrow> bool" and inv_ok :: "'s \<Rightarrow> bool"
  assumes step_inv: "step s t \<Longrightarrow> inv_ok s \<Longrightarrow> inv_ok t"
begin

lemma run_inv: "step\<^sup>*\<^sup>* s t \<Longrightarrow> inv_ok s \<Longrightarrow> inv_ok t"
  by (induction rule: rtranclp_induct) (auto intro: step_inv)

end

section \<open>Generic facts\<close>

lemma list_snoc_lt_induct_take: "n < length xs \<Longrightarrow> take (Suc n) xs = take n xs @ [xs ! n]"
  by (rule take_Suc_conv_app_nth)

lemma replicate_append_Cons: "replicate n x @ x # xs = x # replicate n x @ xs"
  by (simp add: replicate_app_Cons_same)

lemma bind_Some_iff: "(Option.bind m f = Some y) \<longleftrightarrow> (\<exists>x. m = Some x \<and> f x = Some y)"
  by (cases m) auto

lemma bind_None_iff: "(Option.bind m f = None) \<longleftrightarrow> (m = None \<or> (\<exists>x. m = Some x \<and> f x = None))"
  by (cases m) auto

end
