(* ===== verification/GoLib.thy ===== *)
theory GoLib
  imports Prelude
begin

text \<open>
  The part of Go's standard library the client's logic rests on: decimal formatting
  (\<open>fmt.Sprintf\<close> with \<open>%d\<close>, \<open>%02d\<close>, \<open>%04d\<close>, \<open>%t\<close>), decimal parsing
  (\<open>strconv.ParseInt\<close> and \<open>strconv.Atoi\<close>) and \<open>strings.TrimSpace\<close>,
  \<open>strings.CutPrefix\<close>. The one function that is not defined here is \<open>math.Log10\<close>:
  its result differs between ports of Go (the package does not promise bit-identical
  results), so \<open>int(math.Floor(math.Log10(float64(n))))\<close> is the parameter \<open>flog\<close> of the
  functions that use it, and \<open>log10_ok flog n\<close> is the hypothesis that it is right at \<open>n\<close>.
\<close>

section \<open>Decimal digits\<close>

definition digit_char :: "nat \<Rightarrow> char" where
  "digit_char d = char_of (48 + d)"

definition is_digit :: "char \<Rightarrow> bool" where
  "is_digit c \<longleftrightarrow> 48 \<le> byte c \<and> byte c \<le> 57"

definition digit_val :: "char \<Rightarrow> nat" where
  "digit_val c = byte c - 48"

text \<open>The ten digit characters, for evaluation.\<close>

lemma digit_char_eval:
  "digit_char 0 = CHR ''0''"
  "digit_char (Suc 0) = CHR ''1''"
  "digit_char 2 = CHR ''2''"
  "digit_char 3 = CHR ''3''"
  "digit_char 4 = CHR ''4''"
  "digit_char 5 = CHR ''5''"
  "digit_char 6 = CHR ''6''"
  "digit_char 7 = CHR ''7''"
  "digit_char 8 = CHR ''8''"
  "digit_char 9 = CHR ''9''"
  by code_simp+

lemma byte_digit_char [simp]: "d < 10 \<Longrightarrow> byte (digit_char d) = 48 + d"
  by (simp add: digit_char_def)

lemma is_digit_digit_char [simp]: "d < 10 \<Longrightarrow> is_digit (digit_char d)"
  by (simp add: is_digit_def)

lemma digit_val_digit_char [simp]: "d < 10 \<Longrightarrow> digit_val (digit_char d) = d"
  by (simp add: digit_val_def)

lemma digit_val_less [simp]: "is_digit c \<Longrightarrow> digit_val c < 10"
  unfolding is_digit_def digit_val_def by linarith

lemma digit_char_digit_val [simp]: "is_digit c \<Longrightarrow> digit_char (digit_val c) = c"
  by (simp add: is_digit_def digit_val_def digit_char_def)

lemma digit_char_inj: "d < 10 \<Longrightarrow> e < 10 \<Longrightarrow> digit_char d = digit_char e \<Longrightarrow> d = e"
  using digit_val_digit_char by metis

text \<open>\<open>dec n\<close> is \<open>n\<close> in decimal, with no leading zeros.\<close>

fun dec :: "nat \<Rightarrow> string" where
  "dec n = (if n < 10 then [digit_char n] else dec (n div 10) @ [digit_char (n mod 10)])"

declare dec.simps [simp del]

text \<open>The value of a string of digits, most significant first, on top of an accumulator.\<close>

fun dec_val :: "nat \<Rightarrow> string \<Rightarrow> nat" where
  "dec_val acc [] = acc"
| "dec_val acc (c # cs) = dec_val (acc * 10 + digit_val c) cs"

lemma dec_val_append: "dec_val acc (xs @ ys) = dec_val (dec_val acc xs) ys"
  by (induction acc xs rule: dec_val.induct) auto

lemma dec_val_acc: "dec_val acc xs = acc * 10 ^ length xs + dec_val 0 xs"
proof (induction xs arbitrary: acc)
  case Nil
  then show ?case by simp
next
  case (Cons c cs)
  show ?case
    using Cons.IH [of "acc * 10 + digit_val c"] Cons.IH [of "digit_val c"]
    by (simp add: algebra_simps)
qed

lemma dec_nonempty [simp]: "dec n \<noteq> []"
  by (subst dec.simps) simp

lemma dec_digits: "list_all is_digit (dec n)"
proof (induction n rule: dec.induct)
  case (1 n)
  then show ?case by (subst dec.simps) auto
qed

lemma dec_val_dec: "dec_val 0 (dec n) = n"
proof (induction n rule: dec.induct)
  case (1 n)
  show ?case
  proof (cases "n < 10")
    case True
    then show ?thesis by (subst dec.simps) simp
  next
    case False
    with 1 show ?thesis by (subst dec.simps) (simp add: dec_val_append)
  qed
qed

lemma dec_inj: "dec m = dec n \<Longrightarrow> m = n"
  using dec_val_dec by metis

lemma dec_bounds: "n < 10 ^ length (dec n) \<and> (0 < n \<longrightarrow> 10 ^ (length (dec n) - 1) \<le> n)"
proof (induction n rule: dec.induct)
  case (1 n)
  show ?case
  proof (cases "n < 10")
    case True
    then have "dec n = [digit_char n]" by (subst dec.simps) simp
    with True show ?thesis by simp
  next
    case False
    let ?l = "length (dec (n div 10))"
    have l: "length (dec n) = Suc ?l"
      using False by (subst dec.simps) simp
    have ih: "n div 10 < 10 ^ ?l" "10 ^ (?l - 1) \<le> n div 10"
      using 1 False by auto
    have pos: "0 < ?l" by simp
    have "n < 10 * 10 ^ ?l" using ih(1) by linarith
    moreover have "10 * 10 ^ (?l - 1) \<le> n" using ih(2) by linarith
    moreover have "(10::nat) * 10 ^ (?l - 1) = 10 ^ ?l"
      by (metis pos power_eq_if not_gr_zero)
    ultimately show ?thesis by (simp add: l)
  qed
qed

lemma dec_length_pos [simp]: "0 < length (dec n)"
  by simp

lemma dec_length_le: "0 < k \<Longrightarrow> n < 10 ^ k \<Longrightarrow> length (dec n) \<le> k"
proof (rule ccontr)
  assume k: "0 < k" "n < 10 ^ k" and "\<not> length (dec n) \<le> k"
  then have le: "k \<le> length (dec n) - 1" by linarith
  have n: "0 < n"
  proof (rule ccontr)
    assume "\<not> 0 < n"
    then have "length (dec n) = 1" by (subst dec.simps) simp
    with k \<open>\<not> length (dec n) \<le> k\<close> show False by simp
  qed
  have "(10::nat) ^ k \<le> 10 ^ (length (dec n) - 1)"
    using le by (rule power_increasing) simp
  also have "\<dots> \<le> n" using dec_bounds n by blast
  finally show False using k by simp
qed

lemma dec_length_unique: "10 ^ k \<le> n \<Longrightarrow> n < 10 ^ Suc k \<Longrightarrow> length (dec n) = Suc k"
proof -
  assume lo: "10 ^ k \<le> n" and hi: "n < 10 ^ Suc k"
  have "length (dec n) \<le> Suc k"
    using hi by (rule dec_length_le [rotated]) simp
  moreover have "(10::nat) ^ k < 10 ^ length (dec n)"
    using lo dec_bounds [of n] by linarith
  then have "k < length (dec n)"
    by (simp add: power_strict_increasing_iff)
  ultimately show ?thesis by simp
qed

section \<open>Formatting\<close>

text \<open>\<open>%d\<close>, and \<open>%0wd\<close>: zero padding to width \<open>w\<close>, the sign in front of the zeros.\<close>

definition fmt_d :: "int \<Rightarrow> string" where
  "fmt_d n = (if n < 0 then CHR ''-'' # dec (nat (- n)) else dec (nat n))"

definition pad0 :: "nat \<Rightarrow> string \<Rightarrow> string" where
  "pad0 w s = replicate (w - length s) (CHR ''0'') @ s"

definition fmt_0d :: "nat \<Rightarrow> int \<Rightarrow> string" where
  "fmt_0d w n = (if n < 0 then CHR ''-'' # pad0 (w - 1) (dec (nat (- n))) else pad0 w (dec (nat n)))"

definition fmt_t :: "bool \<Rightarrow> string" where
  "fmt_t b = (if b then ''true'' else ''false'')"

lemma zero_char: "CHR ''0'' = digit_char 0"
  by code_simp

lemma is_digit_zero [simp]: "is_digit (CHR ''0'')" and digit_val_zero [simp]: "digit_val (CHR ''0'') = 0"
  by (simp_all add: is_digit_def digit_val_def)

lemma dec_val_zeros [simp]: "dec_val 0 (replicate k (CHR ''0'') @ s) = dec_val 0 s"
  by (induction k) auto

lemma pad0_val [simp]: "dec_val 0 (pad0 w (dec n)) = n"
  by (simp add: pad0_def dec_val_dec)

lemma pad0_digits [simp]: "list_all is_digit (pad0 w (dec n))"
  by (simp add: pad0_def dec_digits list_all_iff [of _ "replicate _ _"])

lemma pad0_length: "0 < w \<Longrightarrow> n < 10 ^ w \<Longrightarrow> length (pad0 w (dec n)) = w"
  using dec_length_le [of w n] by (simp add: pad0_def)

lemma pad0_inj: "pad0 w (dec m) = pad0 w (dec n) \<Longrightarrow> m = n"
  using pad0_val by metis

text \<open>A string of \<open>w\<close> digits is the padded form of its value.\<close>

lemma dec_val_bound: "list_all is_digit s \<Longrightarrow> dec_val 0 s < 10 ^ length s"
proof (induction s rule: rev_induct)
  case Nil
  then show ?case by simp
next
  case (snoc c s)
  then have "dec_val 0 s < 10 ^ length s" "digit_val c < 10" by auto
  then show ?case by (simp add: dec_val_append)
qed

section \<open>Parsing\<close>

datatype num_error = ErrSyntax | ErrRange

definition max_uint64 :: nat where
  "max_uint64 = 18446744073709551615"

text \<open>
  The digit loop of \<open>strconv.ParseUint\<close> in base 10: it stops at the first byte that is no
  digit with a syntax error, and at the first digit that takes the value past 64 bits with
  a range error.
\<close>

fun parse_uint_loop :: "nat \<Rightarrow> bytes \<Rightarrow> nat \<times> num_error option" where
  "parse_uint_loop n [] = (n, None)"
| "parse_uint_loop n (c # cs) =
     (if \<not> is_digit c then (0, Some ErrSyntax)
      else if max_uint64 < n * 10 + digit_val c then (max_uint64, Some ErrRange)
      else parse_uint_loop (n * 10 + digit_val c) cs)"

definition ParseUint :: "bytes \<Rightarrow> nat \<times> num_error option" where
  "ParseUint s = (if s = [] then (0, Some ErrSyntax) else parse_uint_loop 0 s)"

text \<open>
  \<open>strconv.ParseInt(s, 10, 64)\<close>, and \<open>strconv.Atoi\<close>, which returns the same pair: the
  value is 0 on a syntax error and the nearest bound on a range error.
\<close>

definition ParseInt :: "bytes \<Rightarrow> int \<times> num_error option" where
  "ParseInt s =
     (case s of
        [] \<Rightarrow> (0, Some ErrSyntax)
      | c # cs \<Rightarrow>
        (let neg = (c = CHR ''-'');
             body = (if c = CHR ''+'' \<or> c = CHR ''-'' then cs else s);
             (un, err) = ParseUint body
         in if err = Some ErrSyntax then (0, Some ErrSyntax)
            else if \<not> neg \<and> 2 ^ 63 \<le> un then (2 ^ 63 - 1, Some ErrRange)
            else if neg \<and> 2 ^ 63 < un then (- (2 ^ 63), Some ErrRange)
            else (if neg then - int un else int un, None)))"

abbreviation Atoi :: "bytes \<Rightarrow> int \<times> num_error option" where
  "Atoi \<equiv> ParseInt"

lemma parse_uint_loop_digits:
  "list_all is_digit s \<Longrightarrow> dec_val n s \<le> max_uint64 \<Longrightarrow> parse_uint_loop n s = (dec_val n s, None)"
proof (induction n s rule: parse_uint_loop.induct)
  case (1 n)
  then show ?case by simp
next
  case (2 n c cs)
  have "n * 10 + digit_val c \<le> dec_val n (c # cs)"
    by (simp add: dec_val_acc [of "n * 10 + digit_val c"] trans_le_add1)
  with 2 show ?case by auto
qed

lemma digit_not_sign: "is_digit c \<Longrightarrow> c \<noteq> CHR ''+'' \<and> c \<noteq> CHR ''-''"
  by (auto simp: is_digit_def)

lemma ParseInt_digits:
  assumes d: "list_all is_digit s" and ne: "s \<noteq> []" and b: "dec_val 0 s < 2 ^ 63"
  shows "ParseInt s = (int (dec_val 0 s), None)"
proof -
  obtain c cs where s: "s = c # cs" using ne by (cases s) auto
  then have sgn: "c \<noteq> CHR ''+''" "c \<noteq> CHR ''-''" using d digit_not_sign by auto
  have "parse_uint_loop 0 s = (dec_val 0 s, None)"
    using d b by (intro parse_uint_loop_digits) (auto simp: max_uint64_def)
  then show ?thesis using s sgn b by (simp add: ParseInt_def ParseUint_def)
qed

lemma ParseInt_fmt_d: "in64 n \<Longrightarrow> ParseInt (fmt_d n) = (n, None)"
proof (cases "n < 0")
  case True
  assume "in64 n"
  with True have b: "nat (- n) \<le> 2 ^ 63" by (simp add: in64_def)
  have "parse_uint_loop 0 (dec (nat (- n))) = (nat (- n), None)"
    using b parse_uint_loop_digits [of "dec (nat (- n))" 0]
    by (simp add: dec_digits dec_val_dec max_uint64_def)
  with True b show ?thesis by (simp add: fmt_d_def ParseInt_def ParseUint_def)
next
  case False
  assume "in64 n"
  with False show ?thesis
    using ParseInt_digits [of "dec (nat n)"] by (simp add: fmt_d_def dec_digits dec_val_dec in64_def nat_less_iff)
qed

lemma ParseInt_in64: "ParseInt s = (n, e) \<Longrightarrow> in64 n"
  by (auto simp: ParseInt_def in64_def Let_def split: list.splits prod.splits if_splits)

lemma parse_uint_loop_None:
  "parse_uint_loop a s = (n, None) \<Longrightarrow> list_all is_digit s \<and> n = dec_val a s"
  by (induction a s rule: parse_uint_loop.induct) (auto split: if_splits)

lemma parse_uint_loop_range: "parse_uint_loop a s = (n, Some ErrRange) \<Longrightarrow> n = max_uint64"
  by (induction a s rule: parse_uint_loop.induct) (auto split: if_splits)

lemma ParseUint_range: "ParseUint s = (n, err) \<Longrightarrow> err = None \<or> err = Some ErrSyntax \<or> n = max_uint64"
  using parse_uint_loop_range [of 0 s] by (cases err) (auto simp: ParseUint_def split: if_splits intro: num_error.exhaust)

lemma ParseInt_length: "ParseInt s = (n, None) \<Longrightarrow> length (fmt_d n) \<le> length s"
proof -
  assume p: "ParseInt s = (n, None)"
  obtain c cs where s: "s = c # cs" using p by (cases s) (auto simp: ParseInt_def)
  define body where "body = (if c = CHR ''+'' \<or> c = CHR ''-'' then cs else s)"
  obtain un err where u: "ParseUint body = (un, err)" by (cases "ParseUint body")
  have err: "err = None" and n: "n = (if c = CHR ''-'' then - int un else int un)"
    using p u s ParseUint_range [OF u] by (auto simp: ParseInt_def Let_def body_def max_uint64_def split: if_splits)
  then have b: "body \<noteq> []" "list_all is_digit body" "un = dec_val 0 body"
    using u parse_uint_loop_None [of 0 body un] by (auto simp: ParseUint_def split: if_splits)
  then have "length (dec un) \<le> length body"
    using dec_val_bound [of body] by (intro dec_length_le) auto
  then show ?thesis using s n by (auto simp: body_def fmt_d_def split: if_splits)
qed

section \<open>Decimal logarithm\<close>

text \<open>
  The parameter \<open>flog\<close> is right at a positive \<open>n\<close> when it returns the exponent of the
  power of ten below \<open>n\<close>, as the documentation of \<open>math.Log10\<close> says.
\<close>

definition log10_ok :: "(nat \<Rightarrow> nat) \<Rightarrow> nat \<Rightarrow> bool" where
  "log10_ok flog n \<longleftrightarrow> 10 ^ flog n \<le> n \<and> n < 10 ^ Suc (flog n)"

text \<open>Right at every magnitude a 64-bit integer has.\<close>

definition log10_exact :: "(nat \<Rightarrow> nat) \<Rightarrow> bool" where
  "log10_exact flog \<longleftrightarrow> (\<forall>n. 0 < n \<longrightarrow> n \<le> 2 ^ 63 \<longrightarrow> log10_ok flog n)"

lemma log10_ok_length: "log10_ok flog n \<Longrightarrow> Suc (flog n) = length (dec n)"
  using dec_length_unique by (metis log10_ok_def)

text \<open>An exact logarithm, to instantiate the parameter.\<close>

definition exact_log10 :: "nat \<Rightarrow> nat" where
  "exact_log10 n = length (dec n) - 1"

lemma exact_log10_ok: "0 < n \<Longrightarrow> log10_ok exact_log10 n"
  using dec_bounds [of n] by (simp add: log10_ok_def exact_log10_def)

lemma exact_log10_exact [simp]: "log10_exact exact_log10"
  by (simp add: log10_exact_def exact_log10_ok)

section \<open>Strings\<close>

text \<open>
  The UTF-8 encodings of the code points \<open>unicode.IsSpace\<close> accepts. A prefix or suffix of
  a string decodes to such a code point exactly when it is one of these byte sequences.
\<close>

definition utf8_spaces :: "bytes list" where
  "utf8_spaces =
     [[CHR 0x09], [CHR 0x0A], [CHR 0x0B], [CHR 0x0C], [CHR 0x0D], '' '',
      [CHR 0xC2, CHR 0x85], [CHR 0xC2, CHR 0xA0], [CHR 0xE1, CHR 0x9A, CHR 0x80],
      [CHR 0xE2, CHR 0x80, CHR 0xA8], [CHR 0xE2, CHR 0x80, CHR 0xA9], [CHR 0xE2, CHR 0x80, CHR 0xAF],
      [CHR 0xE2, CHR 0x81, CHR 0x9F], [CHR 0xE3, CHR 0x80, CHR 0x80]]
     @ map (\<lambda>c. [CHR 0xE2, CHR 0x80, c])
        [CHR 0x80, CHR 0x81, CHR 0x82, CHR 0x83, CHR 0x84, CHR 0x85, CHR 0x86, CHR 0x87,
         CHR 0x88, CHR 0x89, CHR 0x8A]"

fun strip_one :: "bytes list \<Rightarrow> bytes \<Rightarrow> bytes option" where
  "strip_one [] s = None"
| "strip_one (w # ws) s = (if w \<noteq> [] \<and> take (length w) s = w then Some (drop (length w) s) else strip_one ws s)"

lemma strip_one_shorter: "strip_one ws s = Some t \<Longrightarrow> length t < length s"
proof (induction ws s rule: strip_one.induct)
  case (2 w ws s)
  show ?case
  proof (cases "w \<noteq> [] \<and> take (length w) s = w")
    case True
    then have "0 < length w" "length w \<le> length s"
      by (auto, metis length_take min.cobounded1)
    then have "length (drop (length w) s) < length s"
      unfolding length_drop by linarith
    moreover have "t = drop (length w) s" using True 2 by simp
    ultimately show ?thesis by simp
  next
    case False
    with 2 show ?thesis by (metis strip_one.simps(2))
  qed
qed simp

function strip_all :: "bytes list \<Rightarrow> bytes \<Rightarrow> bytes" where
  "strip_all ws s = (case strip_one ws s of None \<Rightarrow> s | Some t \<Rightarrow> strip_all ws t)"
  by pat_completeness auto
termination
  by (relation "measure (\<lambda>(ws, s). length s)") (auto dest: strip_one_shorter)

declare strip_all.simps [simp del]

definition TrimSpace :: "bytes \<Rightarrow> bytes" where
  "TrimSpace s = rev (strip_all (map rev utf8_spaces) (rev (strip_all utf8_spaces s)))"

lemma strip_all_stops: "\<forall>w \<in> set ws. take (length w) s = w \<longrightarrow> w = [] \<Longrightarrow> strip_all ws s = s"
proof -
  assume "\<forall>w \<in> set ws. take (length w) s = w \<longrightarrow> w = []"
  then have "strip_one ws s = None" by (induction ws s rule: strip_one.induct) auto
  then show ?thesis by (simp add: strip_all.simps)
qed

text \<open>No digit is white space.\<close>

lemma TrimSpace_digits:
  assumes "list_all is_digit s"
  shows "TrimSpace s = s"
proof -
  have ends: "w \<noteq> [] \<and> \<not> is_digit (hd w) \<and> \<not> is_digit (hd (rev w))" if "w \<in> set utf8_spaces" for w
    using that unfolding utf8_spaces_def by (auto simp: is_digit_def)
  have stop: "strip_all ws t = t" if "\<forall>w \<in> set ws. w \<noteq> [] \<and> \<not> is_digit (hd w)" "list_all is_digit t" for ws t
  proof (rule strip_all_stops, intro ballI impI)
    fix w assume "w \<in> set ws" "take (length w) t = w"
    with that show "w = []" by (cases w; cases t) auto
  qed
  have "strip_all utf8_spaces s = s" using ends assms by (intro stop) auto
  moreover have "strip_all (map rev utf8_spaces) (rev s) = rev s"
    using ends assms by (intro stop) (auto simp: hd_rev)
  ultimately show ?thesis by (simp add: TrimSpace_def)
qed

lemma fmt_d_digits: "0 \<le> n \<Longrightarrow> list_all is_digit (fmt_d n)"
  by (simp add: fmt_d_def dec_digits)

text \<open>\<open>strings.CutPrefix\<close>: the rest and whether the prefix was there.\<close>

definition CutPrefix :: "bytes \<Rightarrow> bytes \<Rightarrow> bytes \<times> bool" where
  "CutPrefix s p = (if take (length p) s = p then (drop (length p) s, True) else (s, False))"

end
