(* ===== verification/Float32.thy ===== *)
theory Float32
  imports Complex_Main Prelude
begin

text \<open>
  Go's \<open>float32\<close> as far as the layout code uses it: addition, subtraction, multiplication and
  division of finite numbers, comparisons and conversions of integers and constants. A value is
  a rational; every operation is the exact one followed by \<open>round32\<close>, the rounding of IEEE 754
  to 24 bits with ties to even and gradual underflow. Overflow to an infinity is not modelled
  (the numbers are pixels of a screen), and the sign of a zero is not observable here: nothing
  divides by a zero. The compiler is taken not to fuse operations.

  The layout lemmas use two laws of rounding only, the locale \<open>rounding\<close>.
\<close>

section \<open>The interface\<close>

locale rounding =
  fixes rnd :: "rat \<Rightarrow> rat"
  assumes rnd_mono: "x \<le> y \<Longrightarrow> rnd x \<le> rnd y"
    and rnd_idem: "rnd (rnd x) = rnd x"
    and rnd_0: "rnd 0 = 0"
begin

lemma rnd_nonneg: "0 \<le> x \<Longrightarrow> 0 \<le> rnd x"
  using rnd_mono [of 0 x] by (simp add: rnd_0)

text \<open>A float below an exact result is below the rounded result, and the other way round.\<close>

lemma below_rnd: "rnd a = a \<Longrightarrow> a \<le> x \<Longrightarrow> a \<le> rnd x"
  using rnd_mono [of a x] by simp

lemma rnd_below: "rnd a = a \<Longrightarrow> x \<le> a \<Longrightarrow> rnd x \<le> a"
  using rnd_mono [of x a] by simp

lemma scaled_below: "rnd a = a \<Longrightarrow> 0 \<le> a \<Longrightarrow> r \<le> 1 \<Longrightarrow> rnd (a * r) \<le> a"
  by (rule rnd_below) (simp_all add: mult_left_le)

lemma step_past: "rnd h = h \<Longrightarrow> 0 \<le> p \<Longrightarrow> rnd (y + h) \<le> rnd (y + rnd (h + p))"
  by (rule rnd_mono) (simp add: below_rnd)

end

section \<open>Rounding to 24 bits\<close>

definition round_even :: "rat \<Rightarrow> int" where
  "round_even y =
     (let f = \<lfloor>y\<rfloor>; r = y - of_int f
      in if r < 1 / 2 then f else if 1 / 2 < r then f + 1 else if even f then f else f + 1)"

text \<open>
  The distance of two neighbours around \<open>x\<close> is \<open>2 ^ k\<close> times the smallest positive number, for the
  least \<open>k\<close> with \<open>|x| < 2 ^ (k + 24)\<close> in these units.
\<close>

definition units :: "rat \<Rightarrow> rat" where
  "units x = x * 2 ^ 149"

definition ulp_exponent :: "rat \<Rightarrow> nat" where
  "ulp_exponent x = (case find (\<lambda>k. \<bar>units x\<bar> < 2 ^ (k + 24)) [0..<254] of Some k \<Rightarrow> k | None \<Rightarrow> 253)"

definition round32 :: "rat \<Rightarrow> rat" where
  "round32 x = (let q = 2 ^ ulp_exponent x in of_int (round_even (units x / q)) * q / 2 ^ 149)"

lemma units_simps [simp]:
  "units 0 = 0" "units (- x) = - units x" "\<bar>units x\<bar> = units \<bar>x\<bar>"
  "units x \<le> units y \<longleftrightarrow> x \<le> y" "0 \<le> units x \<longleftrightarrow> 0 \<le> x" "units x = units y \<longleftrightarrow> x = y"
  by (auto simp: units_def abs_mult)

lemma power_quotient: "k \<le> n \<Longrightarrow> (2 :: rat) ^ n / 2 ^ k = of_int (2 ^ (n - k))"
  using power_diff [of "2 :: rat" k n] by simp

lemma power_refold: "k \<le> n \<Longrightarrow> of_int (2 ^ (n - k)) * (2 :: rat) ^ k = 2 ^ n"
  by (simp flip: power_add)

lemma round_even_int [simp]: "round_even (of_int n) = n"
  by (simp add: round_even_def)

lemma round_even_mono: assumes "x \<le> y" shows "round_even x \<le> round_even y"
proof (cases "\<lfloor>x\<rfloor> = \<lfloor>y\<rfloor>")
  case True
  then show ?thesis using assms by (auto simp: round_even_def Let_def)
next
  case False
  then have "\<lfloor>x\<rfloor> + 1 \<le> \<lfloor>y\<rfloor>" using floor_mono [OF assms] by linarith
  moreover have "round_even x \<le> \<lfloor>x\<rfloor> + 1" "\<lfloor>y\<rfloor> \<le> round_even y" by (auto simp: round_even_def Let_def)
  ultimately show ?thesis by linarith
qed

lemma round_even_uminus: "round_even (- y) = - round_even y"
proof (cases "y = of_int \<lfloor>y\<rfloor>")
  case True
  then obtain n where "y = of_int n" by blast
  then show ?thesis by (metis of_int_minus round_even_int)
next
  case False
  then have "\<lfloor>- y\<rfloor> = - \<lfloor>y\<rfloor> - 1" by linarith
  then show ?thesis by (auto simp: round_even_def Let_def)
qed

lemma ulp_exponent_le: "ulp_exponent x \<le> 253"
  by (auto simp: ulp_exponent_def find_Some_iff split: option.split)

lemma ulp_exponent_uminus [simp]: "ulp_exponent (- x) = ulp_exponent x"
  by (simp add: ulp_exponent_def)

lemma below_ulp: "k < ulp_exponent x \<Longrightarrow> 2 ^ (k + 24) \<le> units \<bar>x\<bar>"
proof -
  assume k: "k < ulp_exponent x"
  show ?thesis
  proof (cases "find (\<lambda>k. units \<bar>x\<bar> < 2 ^ (k + 24)) [0..<254]")
    case None
    then show ?thesis using k ulp_exponent_le [of x] by (auto simp: find_None_iff not_less dest: spec [of _ k])
  next
    case (Some n)
    then obtain i where i: "i < 254" "[0..<254] ! i = n" "\<forall>j<i. \<not> units \<bar>x\<bar> < 2 ^ ([0..<254] ! j + 24)"
      by (auto simp: find_Some_iff)
    then have "n = i" by simp
    moreover have "ulp_exponent x = n" using Some by (simp add: ulp_exponent_def)
    ultimately have "k < i" using k by simp
    with i(1,3) show ?thesis by (auto simp: not_less)
  qed
qed

lemma above_ulp: assumes "ulp_exponent x < 253" shows "units \<bar>x\<bar> < 2 ^ (ulp_exponent x + 24)"
proof (cases "find (\<lambda>k. \<bar>units x\<bar> < 2 ^ (k + 24)) [0..<254]")
  case None
  then show ?thesis using assms by (simp add: ulp_exponent_def del: upt.simps)
next
  case (Some k)
  then have "\<bar>units x\<bar> < 2 ^ (k + 24)" by (metis (lifting) find_Some_iff)
  with Some show ?thesis by (simp add: ulp_exponent_def del: upt.simps)
qed

lemma round32_units: "units (round32 x) = of_int (round_even (units x / 2 ^ ulp_exponent x)) * 2 ^ ulp_exponent x"
  unfolding round32_def Let_def by (subst (1) units_def) (simp del: power_numeral)

lemma round_at_multiple:
  assumes "units x = of_int m * 2 ^ k" and "ulp_exponent x \<le> k"
  shows "round32 x = x"
proof -
  have "units x / 2 ^ ulp_exponent x = of_int m * of_int (2 ^ (k - ulp_exponent x))"
    unfolding assms(1) times_divide_eq_right [symmetric] power_quotient [OF assms(2)] ..
  then have "round_even (units x / 2 ^ ulp_exponent x) = m * 2 ^ (k - ulp_exponent x)"
    by (simp only: of_int_mult [symmetric] round_even_int)
  then have "units (round32 x) = of_int m * (of_int (2 ^ (k - ulp_exponent x)) * 2 ^ ulp_exponent x)"
    by (simp only: round32_units of_int_mult mult.assoc)
  also have "\<dots> = units x" by (simp only: power_refold [OF assms(2)] assms(1))
  finally show ?thesis by simp
qed

lemma round32_0: "round32 0 = 0"
  by (rule round_at_multiple [of _ 0 253]) (simp_all add: ulp_exponent_le)

lemma round32_uminus: "round32 (- x) = - round32 x"
  proof -
  have "units (round32 (- x)) = units (- round32 x)"
    by (simp add: round32_units round_even_uminus)
  then show ?thesis by (metis units_simps(6))
qed

lemma ulp_exponent_mono: assumes "\<bar>x\<bar> \<le> \<bar>y\<bar>" shows "ulp_exponent x \<le> ulp_exponent y"
proof (rule ccontr)
  assume c: "\<not> ?thesis"
  then have "2 ^ (ulp_exponent y + 24) \<le> units \<bar>x\<bar>" by (intro below_ulp) simp
  moreover have "units \<bar>y\<bar> < 2 ^ (ulp_exponent y + 24)"
    using c ulp_exponent_le [of x] by (intro above_ulp) simp
  moreover have "units \<bar>x\<bar> \<le> units \<bar>y\<bar>" using assms by simp
  ultimately show False by linarith
qed

text \<open>A power of two of the size of \<open>x\<close> or above is not crossed.\<close>

lemma round_below_power:
  assumes "units x \<le> 2 ^ n" and "ulp_exponent x \<le> n"
  shows "units (round32 x) \<le> 2 ^ n"
proof -
  let ?k = "ulp_exponent x"
  have "units x / 2 ^ ?k \<le> 2 ^ n / 2 ^ ?k" using assms(1) by (simp add: divide_right_mono)
  also have "\<dots> = of_int (2 ^ (n - ?k))" using power_quotient [OF assms(2)] .
  finally have "round_even (units x / 2 ^ ?k) \<le> 2 ^ (n - ?k)" using round_even_mono round_even_int by metis
  then have "units (round32 x) \<le> of_int (2 ^ (n - ?k)) * 2 ^ ?k"
    unfolding round32_units by (intro mult_right_mono) (simp_all only: of_int_le_iff, simp)
  also have "\<dots> = 2 ^ n" using power_refold [OF assms(2)] .
  finally show ?thesis .
qed

lemma round_above_power:
  assumes "2 ^ n \<le> units x" and "ulp_exponent x \<le> n"
  shows "2 ^ n \<le> units (round32 x)"
proof -
  let ?k = "ulp_exponent x"
  have "of_int (2 ^ (n - ?k)) = 2 ^ n / (2 :: rat) ^ ?k" using power_quotient [OF assms(2)] by simp
  also have "\<dots> \<le> units x / 2 ^ ?k" using assms(1) by (simp add: divide_right_mono)
  finally have "2 ^ (n - ?k) \<le> round_even (units x / 2 ^ ?k)" using round_even_mono round_even_int by metis
  then have "of_int (2 ^ (n - ?k)) * 2 ^ ?k \<le> units (round32 x)"
    unfolding round32_units by (intro mult_right_mono) (simp_all only: of_int_le_iff, simp)
  moreover have "of_int (2 ^ (n - ?k)) * 2 ^ ?k = (2 :: rat) ^ n" using power_refold [OF assms(2)] .
  ultimately show ?thesis by simp
qed

lemma round32_nonneg: assumes "0 \<le> x" shows "0 \<le> round32 x"
proof -
  have "round_even 0 \<le> round_even (units x / 2 ^ ulp_exponent x)" using assms by (intro round_even_mono) simp
  then have "0 \<le> units (round32 x)" by (simp add: round32_units round_even_def del: units_simps)
  then show ?thesis by simp
qed

lemma round32_mono_nonneg: assumes "0 \<le> x" and "x \<le> y" shows "round32 x \<le> round32 y"
proof (cases "ulp_exponent x = ulp_exponent y")
  case True
  have "round_even (units x / 2 ^ ulp_exponent x) \<le> round_even (units y / 2 ^ ulp_exponent x)"
    using assms by (intro round_even_mono divide_right_mono) simp_all
  then have "units (round32 x) \<le> units (round32 y)" unfolding round32_units True by simp
  then show ?thesis by simp
next
  case False
  let ?k = "ulp_exponent x"
  have "?k < ulp_exponent y" using ulp_exponent_mono [of x y] assms False by simp
  moreover from this have "units x \<le> 2 ^ (?k + 24)" using above_ulp [of x] ulp_exponent_le [of y] assms by simp
  then have "units (round32 x) \<le> 2 ^ (?k + 24)" by (intro round_below_power) simp_all
  moreover have "2 ^ (?k + 24) \<le> units (round32 y)"
  proof -
    obtain j where j: "ulp_exponent y = Suc j" "?k \<le> j" using calculation(1) by (cases "ulp_exponent y") simp_all
    then have "2 ^ (j + 24) \<le> units y" using below_ulp [of j y] assms by simp
    then have "2 ^ (j + 24) \<le> units (round32 y)" using j by (intro round_above_power) simp_all
    moreover have "(2 :: rat) ^ (?k + 24) \<le> 2 ^ (j + 24)" using j by (intro power_increasing) simp_all
    ultimately show ?thesis by linarith
  qed
  ultimately have "units (round32 x) \<le> units (round32 y)" by linarith
  then show ?thesis by simp
qed

lemma round32_mono: assumes "x \<le> y" shows "round32 x \<le> round32 y"
proof (cases "0 \<le> x \<or> y \<le> 0")
  case True
  then show ?thesis using assms round32_mono_nonneg [of x y] round32_mono_nonneg [of "- y" "- x"]
    by (auto simp: round32_uminus)
next
  case False
  then show ?thesis using round32_nonneg [of y] round32_nonneg [of "- x"] by (simp add: round32_uminus)
qed

text \<open>Rounding twice is rounding once: what has been rounded is a multiple of its own distance.\<close>

lemma round32_idem: "round32 (round32 x) = round32 x"
proof (cases "ulp_exponent (round32 x) \<le> ulp_exponent x")
  case True
  with round32_units show ?thesis by (rule round_at_multiple)
next
  case False
  let ?k = "ulp_exponent x" and ?r = "round32 x"
  have "?k < 253" using False ulp_exponent_le [of ?r] by simp
  then have "units \<bar>x\<bar> \<le> 2 ^ (?k + 24)" using above_ulp [of x] by simp
  then have "units (round32 \<bar>x\<bar>) \<le> 2 ^ (?k + 24)" by (intro round_below_power) (simp_all add: abs_if)
  then have le: "units \<bar>?r\<bar> \<le> 2 ^ (?k + 24)"
    using round32_nonneg [of x] round32_nonneg [of "- x"] by (auto simp: abs_if round32_uminus split: if_splits)
  have ge: "2 ^ (?k + 24) \<le> units \<bar>?r\<bar>" using False by (intro below_ulp) simp
  have "ulp_exponent ?r \<le> ?k + 24"
  proof (rule ccontr)
    assume "\<not> ?thesis"
    then have "(2 :: rat) ^ (?k + 24 + 24) \<le> units \<bar>?r\<bar>" by (intro below_ulp) simp
    also note le
    finally show False by simp
  qed
  moreover have "units ?r = of_int (if 0 \<le> ?r then 1 else - 1) * 2 ^ (?k + 24)"
    using le ge by (auto simp: abs_if split: if_splits)
  ultimately show ?thesis by (intro round_at_multiple)
qed

text \<open>Integers of at most 24 bits are represented exactly.\<close>

lemma round32_of_int: assumes "\<bar>n\<bar> < 2 ^ 24" shows "round32 (of_int n) = of_int n"
proof (rule round_at_multiple [of _ n 149])
  show "units (of_int n) = of_int n * 2 ^ 149" by (simp add: units_def)
  show "ulp_exponent (of_int n) \<le> 149"
  proof (rule ccontr)
    assume "\<not> ?thesis"
    then have "2 ^ (149 + 24) \<le> units \<bar>of_int n\<bar>" by (intro below_ulp) simp
    then have "2 ^ 24 * 2 ^ 149 \<le> \<bar>of_int n\<bar> * (2 :: rat) ^ 149"
      unfolding units_def power_add [symmetric] by (simp add: add.commute)
    then have "of_int (2 ^ 24) \<le> (of_int \<bar>n\<bar> :: rat)" by simp
    with assms show False unfolding of_int_le_iff by simp
  qed
qed

lemma round32_numeral [simp]: "numeral k < (2 ^ 24 :: int) \<Longrightarrow> round32 (numeral k) = numeral k"
  using round32_of_int [of "numeral k"] by simp

lemma round32_1 [simp]: "round32 1 = 1"
  using round32_of_int [of 1] by simp

interpretation float32: rounding round32
  by unfold_locales (simp_all add: round32_mono round32_idem round32_0)

end
