(* ===== verification/Serde.thy ===== *)
theory Serde
  imports GoLib
begin

text \<open>
  The field layer of the wire protocol (\<open>sp/client/ups_net/serde.go\<close>, lines 220 to 404):
  the readers and writers of the four field kinds and \<open>ParseMessage\<close>, which reads a list of
  fields from a payload. A reader's pair \<open>(value, ok)\<close> is an \<open>option\<close>: every failing
  return of the source pairs the zero value with \<open>false\<close>.

  The contract of a field kind is the locale \<open>codec\<close> (decoding what was encoded, whatever
  follows) and its extension \<open>sized_codec\<close> (the reader's caller advances by exactly the
  encoding); the four field kinds are its interpretations, and the correctness of
  \<open>ParseMessage\<close> is proved once from them.
\<close>

section \<open>Readers\<close>

text \<open>The loop over a fixed number of digit characters, shared by both readers.\<close>

fun read_digits :: "int \<Rightarrow> bytes \<Rightarrow> int option" where
  "read_digits number [] = Some number"
| "read_digits number (c # cs) =
     (if byte c < byte (CHR ''0'') \<or> byte c > byte (CHR ''9'') then None
      else read_digits (number * 10 + int (byte c - byte (CHR ''0''))) cs)"

definition ReadSmallInt :: "bytes \<Rightarrow> int option" where
  "ReadSmallInt slice = (if length slice < 2 then None else read_digits 0 (take 2 slice))"

definition ReadBigInt :: "bytes \<Rightarrow> int option" where
  "ReadBigInt slice = (if length slice < 4 then None else read_digits 0 (take 4 slice))"

definition ReadString :: "bytes \<Rightarrow> bytes option" where
  "ReadString slice =
     (case ReadBigInt slice of
        None \<Rightarrow> None
      | Some stringLength \<Rightarrow>
          if int (length slice) < 4 + stringLength then None
          else Some (take (nat stringLength) (drop 4 slice)))"

definition ReadVarInt :: "bytes \<Rightarrow> int option" where
  "ReadVarInt slice =
     (case ReadSmallInt slice of
        None \<Rightarrow> None
      | Some len \<Rightarrow>
          if int (length slice) < 2 + len then None
          else (case ParseInt (take (nat len) (drop 2 slice)) of
                  (number, None) \<Rightarrow> Some number
                | (_, Some err) \<Rightarrow> None))"

section \<open>Writers\<close>

definition WriteSmallInt :: "int \<Rightarrow> bytes option" where
  "WriteSmallInt num = (if num > 99 \<or> num < 0 then None else Some (fmt_0d 2 num))"

definition WriteBigInt :: "int \<Rightarrow> bytes option" where
  "WriteBigInt num = (if num > 9999 \<or> num < 0 then None else Some (fmt_0d 4 num))"

text \<open>
  \<open>flog n\<close> stands for \<open>math.Floor(math.Log10(float64(n)))\<close> at \<open>n = |num|\<close>.
\<close>

definition countDigits :: "(nat \<Rightarrow> nat) \<Rightarrow> int \<Rightarrow> int" where
  "countDigits flog num =
     (if num = 0 then 1
      else (let digitCount = int (flog (nat \<bar>num\<bar>)) + 1
            in if num < 1 then digitCount + 1 else digitCount))"

definition WriteVarInt :: "(nat \<Rightarrow> nat) \<Rightarrow> int \<Rightarrow> bytes option" where
  "WriteVarInt flog num =
     (case WriteSmallInt (countDigits flog num) of
        None \<Rightarrow> None
      | Some digitCountStr \<Rightarrow> Some (digitCountStr @ fmt_d num))"

definition WriteString :: "bytes \<Rightarrow> bytes option" where
  "WriteString s =
     (case WriteBigInt (int (length s)) of
        None \<Rightarrow> None
      | Some lenStr \<Rightarrow> Some (lenStr @ s))"

section \<open>Messages as lists of fields\<close>

datatype ParseTypes = SmallInt | BigInt | VarInt | String

text \<open>The values of Go's \<open>any\<close> that \<open>ParseMessage\<close> stores; \<open>VNil\<close> is an unset entry.\<close>

datatype val = VNil | VInt int | VStr bytes

text \<open>Type assertions \<open>v.(int)\<close> and \<open>v.(string)\<close>, which panic on another type.\<close>

fun as_int :: "val \<Rightarrow> int go" where
  "as_int (VInt n) = Some n"
| "as_int _ = None"

fun as_string :: "val \<Rightarrow> bytes go" where
  "as_string (VStr s) = Some s"
| "as_string _ = None"

text \<open>
  The loop of \<open>ParseMessage\<close>: \<open>acc\<close> holds the results stored so far, the rest of the
  result slice is still unset. \<open>bytePayload[offset:]\<close> panics when the offset has run past
  the payload.
\<close>

fun parse_fields ::
  "(nat \<Rightarrow> nat) \<Rightarrow> bytes \<Rightarrow> nat \<Rightarrow> val list \<Rightarrow> ParseTypes list
   \<Rightarrow> (val list \<times> nat \<times> string option) go" where
  "parse_fields flog payload offset acc [] = Some (acc, offset, None)"
| "parse_fields flog payload offset acc (pType # types) = do {
     slice \<leftarrow> slice_from payload offset;
     let unset = replicate (Suc (length types)) VNil;
     case pType of
       SmallInt \<Rightarrow>
         (case ReadSmallInt slice of
            None \<Rightarrow> Some (acc @ unset, offset, Some ''Failed when reading small int'')
          | Some n \<Rightarrow> parse_fields flog payload (offset + 2) (acc @ [VInt n]) types)
     | BigInt \<Rightarrow>
         (case ReadBigInt slice of
            None \<Rightarrow> Some (acc @ unset, offset, Some ''Failed when reading big int'')
          | Some n \<Rightarrow> parse_fields flog payload (offset + 4) (acc @ [VInt n]) types)
     | VarInt \<Rightarrow>
         (case ReadVarInt slice of
            None \<Rightarrow> Some (acc @ unset, offset, Some ''Failed when reading small int'')
          | Some n \<Rightarrow>
              parse_fields flog payload (offset + nat (2 + countDigits flog n)) (acc @ [VInt n]) types)
     | String \<Rightarrow>
         (case ReadString slice of
            None \<Rightarrow> Some (acc @ unset, offset, Some ''Failed when reading small int'')
          | Some s \<Rightarrow> parse_fields flog payload (offset + (4 + length s)) (acc @ [VStr s]) types)
   }"

definition ParseMessage ::
  "(nat \<Rightarrow> nat) \<Rightarrow> bytes \<Rightarrow> ParseTypes list \<Rightarrow> (val list \<times> nat \<times> string option) go" where
  "ParseMessage flog payload types = parse_fields flog payload 0 [] types"

section \<open>Fixed-width numbers\<close>

lemma read_digits_val:
  "list_all is_digit s \<Longrightarrow> 0 \<le> a \<Longrightarrow> read_digits a s = Some (int (dec_val (nat a) s))"
proof (induction a s rule: read_digits.induct)
  case (2 a c cs)
  then have c: "\<not> (byte c < byte (CHR ''0'') \<or> byte c > byte (CHR ''9''))"
    by (simp add: is_digit_def)
  have v: "int (byte c - byte (CHR ''0'')) = int (digit_val c)"
    by (simp add: digit_val_def)
  from 2 c v show ?case
    by (simp add: nat_add_distrib nat_mult_distrib)
qed simp

lemma read_digits_Some:
  "read_digits a s = Some n \<Longrightarrow> 0 \<le> a \<Longrightarrow> list_all is_digit s \<and> n = int (dec_val (nat a) s)"
proof (induction a s arbitrary: n rule: read_digits.induct)
  case (2 a c cs)
  then have c: "is_digit c" by (auto simp: is_digit_def split: if_splits)
  with 2 have "list_all is_digit cs \<and> n = int (dec_val (nat (a * 10 + int (digit_val c))) cs)"
    by (auto simp: digit_val_def split: if_splits)
  with c 2 show ?case by (simp add: nat_add_distrib nat_mult_distrib)
qed simp

lemma ReadSmallInt_bounds: "ReadSmallInt s = Some n \<Longrightarrow> 0 \<le> n \<and> n \<le> 99 \<and> 2 \<le> length s"
  using dec_val_bound [of "take 2 s"]
  by (auto simp: ReadSmallInt_def split: if_splits dest!: read_digits_Some)

lemma ReadBigInt_bounds: "ReadBigInt s = Some n \<Longrightarrow> 0 \<le> n \<and> n \<le> 9999 \<and> 4 \<le> length s"
  using dec_val_bound [of "take 4 s"]
  by (auto simp: ReadBigInt_def split: if_splits dest!: read_digits_Some)

lemma WriteSmallInt_Some:
  "WriteSmallInt n = Some s \<longleftrightarrow> 0 \<le> n \<and> n \<le> 99 \<and> s = pad0 2 (dec (nat n))"
  by (auto simp: WriteSmallInt_def fmt_0d_def)

lemma WriteBigInt_Some:
  "WriteBigInt n = Some s \<longleftrightarrow> 0 \<le> n \<and> n \<le> 9999 \<and> s = pad0 4 (dec (nat n))"
  by (auto simp: WriteBigInt_def fmt_0d_def)

lemma pad0_2_length [simp]: "n \<le> 99 \<Longrightarrow> length (pad0 2 (dec n)) = 2"
  by (rule pad0_length) simp_all

lemma pad0_4_length [simp]: "n \<le> 9999 \<Longrightarrow> length (pad0 4 (dec n)) = 4"
  by (rule pad0_length) simp_all

lemma ReadSmallInt_pad0 [simp]: "n \<le> 99 \<Longrightarrow> ReadSmallInt (pad0 2 (dec n) @ rest) = Some (int n)"
  by (simp add: ReadSmallInt_def read_digits_val)

lemma ReadBigInt_pad0 [simp]: "n \<le> 9999 \<Longrightarrow> ReadBigInt (pad0 4 (dec n) @ rest) = Some (int n)"
  by (simp add: ReadBigInt_def read_digits_val)

section \<open>The contract of a field kind\<close>

text \<open>
  \<open>enc\<close> and \<open>dec_ field\<close> are a writer and its reader; \<open>ok\<close> says which values the
  protocol can carry. The law is the decoding of an encoding, whatever bytes follow it.
\<close>

locale codec =
  fixes encode :: "'a \<Rightarrow> bytes"
    and decode :: "bytes \<Rightarrow> 'a option"
    and ok :: "'a \<Rightarrow> bool"
  assumes decode_encode: "ok x \<Longrightarrow> decode (encode x @ rest) = Some x"
begin

lemma decode_encode_alone: "ok x \<Longrightarrow> decode (encode x) = Some x"
  using decode_encode [of x "[]"] by simp

lemma encode_prefix_free: "ok x \<Longrightarrow> ok y \<Longrightarrow> encode x @ r = encode y @ s \<Longrightarrow> x = y \<and> r = s"
proof -
  assume x: "ok x" and y: "ok y" and e: "encode x @ r = encode y @ s"
  have "decode (encode x @ r) = Some x" using x by (rule decode_encode)
  moreover have "decode (encode x @ r) = Some y" using y by (simp only: e decode_encode)
  ultimately have "x = y" by simp
  with e show ?thesis by simp
qed

lemma encode_inject: "ok x \<Longrightarrow> ok y \<Longrightarrow> encode x = encode y \<longleftrightarrow> x = y"
  using encode_prefix_free [of x y "[]" "[]"] by auto

end

text \<open>
  The caller of the reader advances its offset by \<open>width x\<close>; it must be the length of the
  encoding, and the next slice then starts at the next field.
\<close>

locale sized_codec = codec encode decode ok
  for encode :: "'a \<Rightarrow> bytes" and decode :: "bytes \<Rightarrow> 'a option" and ok :: "'a \<Rightarrow> bool" +
  fixes width :: "'a \<Rightarrow> nat"
  assumes width_encode: "ok x \<Longrightarrow> width x = length (encode x)"
begin

lemma next_slice:
  "ok x \<Longrightarrow> slice_from (pre @ encode x @ rest) (length pre + width x) = Some rest"
  by (simp add: width_encode slice_from_def)

lemma read_at:
  "ok x \<Longrightarrow> do { s \<leftarrow> slice_from (pre @ encode x @ rest) (length pre); decode s } = Some x"
  by (simp add: decode_encode)

end

section \<open>The field kinds meet the contract\<close>

definition small_bytes :: "int \<Rightarrow> bytes" where
  "small_bytes n = fmt_0d 2 n"

definition small_ok :: "int \<Rightarrow> bool" where
  "small_ok n \<longleftrightarrow> 0 \<le> n \<and> n \<le> 99"

definition big_bytes :: "int \<Rightarrow> bytes" where
  "big_bytes n = fmt_0d 4 n"

definition big_ok :: "int \<Rightarrow> bool" where
  "big_ok n \<longleftrightarrow> 0 \<le> n \<and> n \<le> 9999"

text \<open>The canonical form of a \<open>VarInt\<close>: the length of the decimal form, and the form.\<close>

definition var_bytes :: "int \<Rightarrow> bytes" where
  "var_bytes n = fmt_0d 2 (int (length (fmt_d n))) @ fmt_d n"

definition var_ok :: "(nat \<Rightarrow> nat) \<Rightarrow> int \<Rightarrow> bool" where
  "var_ok flog n \<longleftrightarrow> in64 n \<and> (n \<noteq> 0 \<longrightarrow> log10_ok flog (nat \<bar>n\<bar>))"

definition str_bytes :: "bytes \<Rightarrow> bytes" where
  "str_bytes s = fmt_0d 4 (int (length s)) @ s"

definition str_ok :: "bytes \<Rightarrow> bool" where
  "str_ok s \<longleftrightarrow> length s \<le> 9999"

lemma fmt_d_length_le: "in64 n \<Longrightarrow> length (fmt_d n) \<le> 20"
proof -
  assume "in64 n"
  then have "nat n < 10 ^ 19" "nat (- n) < 10 ^ 19" by (auto simp: in64_def)
  then have "length (dec (nat n)) \<le> 19" "length (dec (nat (- n))) \<le> 19"
    by (auto intro: dec_length_le)
  then show ?thesis by (simp add: fmt_d_def)
qed

lemma fmt_d_nonempty [simp]: "fmt_d n \<noteq> []"
  by (simp add: fmt_d_def)

lemma countDigits_exact: "var_ok flog n \<Longrightarrow> countDigits flog n = int (length (fmt_d n))"
proof -
  assume ok: "var_ok flog n"
  consider "n = 0" | "0 < n" | "n < 0" by linarith
  then show ?thesis
  proof cases
    case 1
    then show ?thesis by (simp add: countDigits_def fmt_d_def dec.simps)
  next
    case 2
    with ok have "Suc (flog (nat n)) = length (dec (nat n))"
      by (intro log10_ok_length) (simp add: var_ok_def)
    with 2 show ?thesis by (simp add: countDigits_def fmt_d_def)
  next
    case 3
    with ok have "Suc (flog (nat (- n))) = length (dec (nat (- n)))"
      by (intro log10_ok_length) (simp add: var_ok_def)
    with 3 show ?thesis by (simp add: countDigits_def fmt_d_def)
  qed
qed

lemma WriteSmallInt_small: "small_ok n \<Longrightarrow> WriteSmallInt n = Some (small_bytes n)"
  by (simp add: WriteSmallInt_def small_bytes_def small_ok_def)

lemma WriteBigInt_big: "big_ok n \<Longrightarrow> WriteBigInt n = Some (big_bytes n)"
  by (simp add: WriteBigInt_def big_bytes_def big_ok_def)

lemma WriteVarInt_var: "var_ok flog n \<Longrightarrow> WriteVarInt flog n = Some (var_bytes n)"
  using fmt_d_length_le [of n] countDigits_exact [of flog n]
  by (simp add: WriteVarInt_def WriteSmallInt_def var_bytes_def var_ok_def)

lemma WriteString_str: "str_ok s \<Longrightarrow> WriteString s = Some (str_bytes s)"
  by (simp add: WriteString_def WriteBigInt_def str_bytes_def str_ok_def)

interpretation small: sized_codec small_bytes ReadSmallInt small_ok "\<lambda>_. 2"
  by unfold_locales (auto simp: small_bytes_def small_ok_def fmt_0d_def)

interpretation big: sized_codec big_bytes ReadBigInt big_ok "\<lambda>_. 4"
  by unfold_locales (auto simp: big_bytes_def big_ok_def fmt_0d_def)

interpretation str: sized_codec str_bytes ReadString str_ok "\<lambda>s. 4 + length s"
  by unfold_locales (auto simp: str_bytes_def str_ok_def fmt_0d_def ReadString_def)

lemma ReadVarInt_var: "in64 n \<Longrightarrow> ReadVarInt (var_bytes n @ rest) = Some n"
  using fmt_d_length_le [of n]
  by (simp add: ReadVarInt_def var_bytes_def fmt_0d_def ParseInt_fmt_d)

interpretation var: sized_codec var_bytes ReadVarInt "var_ok flog" "\<lambda>n. nat (2 + countDigits flog n)" for flog
proof unfold_locales
  fix n :: int and rest :: bytes
  assume "var_ok flog n"
  then show "ReadVarInt (var_bytes n @ rest) = Some n" by (simp add: var_ok_def ReadVarInt_var)
next
  fix n :: int
  assume ok: "var_ok flog n"
  then show "nat (2 + countDigits flog n) = length (var_bytes n)"
    using fmt_d_length_le [of n]
    by (simp add: countDigits_exact var_bytes_def fmt_0d_def var_ok_def)
qed

section \<open>ParseMessage reads what the writers wrote\<close>

text \<open>
  A field of a message with its value, as the sender sees it: what the writer sends for it,
  what the reader is asked for, and what it stores.
\<close>

datatype field = FSmall int | FBig int | FVar int | FStr bytes

fun field_bytes :: "field \<Rightarrow> bytes" where
  "field_bytes (FSmall n) = small_bytes n"
| "field_bytes (FBig n) = big_bytes n"
| "field_bytes (FVar n) = var_bytes n"
| "field_bytes (FStr s) = str_bytes s"

fun field_type :: "field \<Rightarrow> ParseTypes" where
  "field_type (FSmall _) = SmallInt"
| "field_type (FBig _) = BigInt"
| "field_type (FVar _) = VarInt"
| "field_type (FStr _) = String"

fun field_val :: "field \<Rightarrow> val" where
  "field_val (FSmall n) = VInt n"
| "field_val (FBig n) = VInt n"
| "field_val (FVar n) = VInt n"
| "field_val (FStr s) = VStr s"

fun field_ok :: "(nat \<Rightarrow> nat) \<Rightarrow> field \<Rightarrow> bool" where
  "field_ok flog (FSmall n) = small_ok n"
| "field_ok flog (FBig n) = big_ok n"
| "field_ok flog (FVar n) = var_ok flog n"
| "field_ok flog (FStr s) = str_ok s"

definition fields_bytes :: "field list \<Rightarrow> bytes" where
  "fields_bytes fs = concat (map field_bytes fs)"

lemma fields_bytes_simps [simp]:
  "fields_bytes [] = []" "fields_bytes (f # fs) = field_bytes f @ fields_bytes fs"
  "fields_bytes (fs @ gs) = fields_bytes fs @ fields_bytes gs"
  by (simp_all add: fields_bytes_def)

lemmas field_decode = small.decode_encode big.decode_encode var.decode_encode str.decode_encode

lemmas field_width = small.width_encode big.width_encode var.width_encode str.width_encode

lemma parse_fields_step:
  assumes "field_ok flog f"
  shows "parse_fields flog (pre @ field_bytes f @ rest) (length pre) acc (field_type f # types)
       = parse_fields flog (pre @ field_bytes f @ rest) (length (pre @ field_bytes f)) (acc @ [field_val f]) types"
  using assms
  by (cases f) (simp_all add: field_decode field_width [symmetric])

lemma parse_fields_roundtrip:
  "list_all (field_ok flog) fs \<Longrightarrow>
   parse_fields flog (pre @ fields_bytes fs @ rest) (length pre) acc (map field_type fs)
   = Some (acc @ map field_val fs, length pre + length (fields_bytes fs), None)"
proof (induction fs arbitrary: pre acc)
  case Nil
  then show ?case by simp
next
  case (Cons f fs)
  have "parse_fields flog (pre @ fields_bytes (f # fs) @ rest) (length pre) acc (map field_type (f # fs))
      = parse_fields flog (pre @ field_bytes f @ (fields_bytes fs @ rest))
          (length (pre @ field_bytes f)) (acc @ [field_val f]) (map field_type fs)"
    using Cons.prems parse_fields_step [of flog f pre "fields_bytes fs @ rest" acc "map field_type fs"] by simp
  also have "\<dots> = Some ((acc @ [field_val f]) @ map field_val fs,
                       length (pre @ field_bytes f) + length (fields_bytes fs), None)"
    using Cons.IH [of "pre @ field_bytes f" "acc @ [field_val f]"] Cons.prems by simp
  finally show ?case by simp
qed

lemma ParseMessage_roundtrip:
  "list_all (field_ok flog) fs \<Longrightarrow>
   ParseMessage flog (fields_bytes fs @ rest) (map field_type fs)
   = Some (map field_val fs, length (fields_bytes fs), None)"
  using parse_fields_roundtrip [of flog fs "[]" rest "[]"] by (simp add: ParseMessage_def)

section \<open>ParseMessage never panics\<close>

text \<open>
  With a logarithm that is right, the offset never runs past the payload: every call returns,
  and a call without an error returns one value of the asked type per field.
\<close>

lemma log10_exact_var_ok: "log10_exact flog \<Longrightarrow> in64 n \<Longrightarrow> var_ok flog n"
  by (auto simp: log10_exact_def var_ok_def in64_def)

lemma ReadVarInt_width: "log10_exact flog \<Longrightarrow> ReadVarInt s = Some n \<Longrightarrow>
  in64 n \<and> nat (2 + countDigits flog n) \<le> length s"
proof -
  assume fl: "log10_exact flog" and r: "ReadVarInt s = Some n"
  obtain l where l: "ReadSmallInt s = Some l" "2 + l \<le> int (length s)"
    "ParseInt (take (nat l) (drop 2 s)) = (n, None)"
    using r by (auto simp: ReadVarInt_def split: option.splits if_splits prod.splits)
  have n: "in64 n" using ParseInt_in64 [OF l(3)] .
  have "length (fmt_d n) \<le> nat l" using ParseInt_length [OF l(3)] by simp
  then show ?thesis
    using countDigits_exact [OF log10_exact_var_ok [OF fl n]] l(2) n ReadSmallInt_bounds [OF l(1)] by (simp add: nat_le_iff le_nat_iff)
qed

fun val_of_type :: "ParseTypes \<Rightarrow> val \<Rightarrow> bool" where
  "val_of_type String v = (\<exists>s. v = VStr s \<and> length s \<le> 9999)"
| "val_of_type SmallInt v = (\<exists>n. v = VInt n \<and> small_ok n)"
| "val_of_type BigInt v = (\<exists>n. v = VInt n \<and> big_ok n)"
| "val_of_type VarInt v = (\<exists>n. v = VInt n \<and> in64 n)"

lemma ReadString_length: "ReadString s = Some t \<Longrightarrow> 4 + length t \<le> length s \<and> length t \<le> 9999"
  by (auto simp: ReadString_def split: option.splits if_splits dest!: ReadBigInt_bounds)

lemma parse_fields_total:
  "log10_exact flog \<Longrightarrow> ofs \<le> length pl \<Longrightarrow> list_all2 val_of_type ts0 acc \<Longrightarrow>
   \<exists>res ofs' err. parse_fields flog pl ofs acc ts = Some (res, ofs', err) \<and> ofs' \<le> length pl
     \<and> length res = length acc + length ts
     \<and> (err = None \<longrightarrow> list_all2 val_of_type (ts0 @ ts) res)"
proof (induction ts arbitrary: ofs acc ts0)
  case Nil
  then show ?case by simp
next
  case (Cons t ts)
  have s: "slice_from pl ofs = Some (drop ofs pl)" using Cons.prems by (simp add: slice_from_def)
  note IH = Cons.IH [OF Cons.prems(1)]
  have next_field: ?case
    if step: "parse_fields flog pl ofs acc (t # ts) = parse_fields flog pl (ofs + k) (acc @ [v]) ts"
      and k: "k \<le> length (drop ofs pl)" and v: "val_of_type t v" for k v
  proof -
    have "ofs + k \<le> length pl" using k Cons.prems(2) by simp
    moreover have "list_all2 val_of_type (ts0 @ [t]) (acc @ [v])"
      using Cons.prems(3) v by (intro list_all2_appendI) simp_all
    ultimately show ?thesis using IH [of "ofs + k" "ts0 @ [t]" "acc @ [v]"] step by auto
  qed
  show ?case
  proof (cases t)
    case SmallInt
    show ?thesis
    proof (cases "ReadSmallInt (drop ofs pl)")
      case None
      with s SmallInt Cons.prems show ?thesis by simp
    next
      case (Some n)
      with s SmallInt show ?thesis
        using ReadSmallInt_bounds [OF Some] by (intro next_field [of 2 "VInt n"]) (simp_all add: small_ok_def)
    qed
  next
    case BigInt
    show ?thesis
    proof (cases "ReadBigInt (drop ofs pl)")
      case None
      with s BigInt Cons.prems show ?thesis by simp
    next
      case (Some n)
      with s BigInt show ?thesis
        using ReadBigInt_bounds [OF Some] by (intro next_field [of 4 "VInt n"]) (simp_all add: big_ok_def)
    qed
  next
    case VarInt
    show ?thesis
    proof (cases "ReadVarInt (drop ofs pl)")
      case None
      with s VarInt Cons.prems show ?thesis by simp
    next
      case (Some n)
      with s VarInt show ?thesis
        using ReadVarInt_width [OF Cons.prems(1) Some]
        by (intro next_field [of "nat (2 + countDigits flog n)" "VInt n"]) simp_all
    qed
  next
    case String
    show ?thesis
    proof (cases "ReadString (drop ofs pl)")
      case None
      with s String Cons.prems show ?thesis by simp
    next
      case (Some n)
      with s String show ?thesis
        using ReadString_length [OF Some] by (intro next_field [of "4 + length n" "VStr n"]) auto
    qed
  qed
qed

lemma ParseMessage_total:
  "log10_exact flog \<Longrightarrow>
   \<exists>res consumed err. ParseMessage flog pl ts = Some (res, consumed, err) \<and> consumed \<le> length pl
     \<and> length res = length ts \<and> (err = None \<longrightarrow> list_all2 val_of_type ts res)"
  using parse_fields_total [of flog 0 pl "[]" "[]" ts] by (simp add: ParseMessage_def)

section \<open>Properties\<close>

text \<open>What the writers send for a field, and the fields a program can ask them to write.\<close>

fun write_field :: "(nat \<Rightarrow> nat) \<Rightarrow> field \<Rightarrow> bytes option" where
  "write_field flog (FSmall n) = WriteSmallInt n"
| "write_field flog (FBig n) = WriteBigInt n"
| "write_field flog (FVar n) = WriteVarInt flog n"
| "write_field flog (FStr s) = WriteString s"

fun field_in64 :: "field \<Rightarrow> bool" where
  "field_in64 (FVar n) = in64 n"
| "field_in64 _ = True"

lemma write_field_Some:
  "log10_exact flog \<Longrightarrow> field_in64 f \<Longrightarrow> write_field flog f = Some bs \<longleftrightarrow> field_ok flog f \<and> bs = field_bytes f"
  by (cases f)
    (auto simp: WriteVarInt_var log10_exact_var_ok WriteSmallInt_def WriteBigInt_def WriteString_def
      small_bytes_def small_ok_def big_bytes_def big_ok_def str_bytes_def str_ok_def split: if_splits)

lemma write_fields_Some:
  "log10_exact flog \<Longrightarrow> list_all field_in64 fs \<Longrightarrow>
   those (map (write_field flog) fs) = Some parts \<Longrightarrow>
   list_all (field_ok flog) fs \<and> concat parts = fields_bytes fs"
proof (induction fs arbitrary: parts)
  case (Cons f fs)
  then show ?case by (auto split: option.splits dest: write_field_Some)
qed simp







text \<open>
  \<open>WriteString\<close> accepts exactly the strings of at most 9999 bytes, and \<open>ReadString\<close>
  returns them whatever bytes they contain and whatever bytes follow.
\<close>

theorem String_roundtrip:
  "(case WriteString s of
      None \<Rightarrow> 9999 < length s
    | Some w \<Rightarrow> length s \<le> 9999 \<and> length w = 4 + length s \<and> ReadString (w @ rest) = Some s)"
proof (cases "str_ok s")
  case True
  with str.decode_encode [OF True, of rest] str.width_encode [OF True] show ?thesis
    by (simp add: WriteString_str) (simp add: str_ok_def)
next
  case False
  then show ?thesis by (simp add: str_ok_def WriteString_def WriteBigInt_def)
qed

text \<open>
  \<open>countDigits\<close> depends on the exactness of the floating-point logarithm. Where the floor
  of \<open>math.Log10\<close> comes out one too high, as it does at 999999999999999 when the logarithm is
  rounded to 15, \<open>WriteVarInt\<close> announces 16 digits for 15: the reader fails on the bare field,
  and swallows the next byte when one follows.
\<close>

theorem WriteVarInt_inexact_logarithm:
  assumes "flog 999999999999999 = 15"
  shows "WriteVarInt flog 999999999999999 = Some ''16999999999999999''
    \<and> ReadVarInt ''16999999999999999'' = None
    \<and> ReadVarInt (''16999999999999999'' @ ''4'') = Some 9999999999999994"
proof -
  have "countDigits flog 999999999999999 = 16"
    using assms by (simp add: countDigits_def)
  moreover have "fmt_0d 2 16 = ''16''" "fmt_d 999999999999999 = ''999999999999999''"
    by (simp_all add: fmt_0d_def pad0_def fmt_d_def dec.simps digit_char_eval)
  ultimately have "WriteVarInt flog 999999999999999 = Some ''16999999999999999''"
    by (simp add: WriteVarInt_def WriteSmallInt_def)
  moreover have "ReadVarInt ''16999999999999999'' = None"
    by (simp add: ReadVarInt_def ReadSmallInt_def)
  moreover have "ReadVarInt (''16999999999999999'' @ ''4'') = Some 9999999999999994"
    by (simp add: ReadVarInt_def ReadSmallInt_def ParseInt_def ParseUint_def is_digit_def digit_val_def max_uint64_def)
  ultimately show ?thesis by blast
qed

lemma WriteVarInt_inexact_logarithm_witness:
  "WriteVarInt (\<lambda>_. 15) 999999999999999 = Some ''16999999999999999''
    \<and> ReadVarInt ''16999999999999999'' = None
    \<and> ReadVarInt (''16999999999999999'' @ ''4'') = Some 9999999999999994"
  using WriteVarInt_inexact_logarithm [of "\<lambda>_. 15"] by simp

end
