(* ===== verification/Framing.thy ===== *)
theory Framing
  imports Serde
begin

text \<open>
  The framing layer (\<open>sp/client/ups_net/serde.go\<close>, lines 10 to 218 and 406 to 433): the
  byte-at-a-time parser \<open>Parser\<close> with \<open>ParseByte\<close> and \<open>ParseBytes\<close>, and the writer
  \<open>NetMsg.ToString\<close>. The parser's phases are ordered as the source numbers them.

  Lemmas: the parser invariant and its preservation by every byte; the independence of
  \<open>ParseBytes\<close> from how the stream is cut into buffers (proved once for any byte machine in
  the locale \<open>byte_machine\<close>); the exact language \<open>ParseBytes\<close> accepts; the round trip with
  \<open>ToString\<close>; the announced length 0, which is never finished.
\<close>

section \<open>Data\<close>

datatype MainPart = Magic_1 | Magic_2 | Magic_3 | Type | Code | Size | Payload | Endline

datatype ParserState = OK | Done | Invalid

text \<open>The source's \<open>iota\<close> numbering of the phases, and the order it gives.\<close>

fun phase_index :: "MainPart \<Rightarrow> nat" where
  "phase_index Magic_1 = 0" | "phase_index Magic_2 = 1" | "phase_index Magic_3 = 2"
| "phase_index Type = 3" | "phase_index Code = 4" | "phase_index Size = 5"
| "phase_index Payload = 6" | "phase_index Endline = 7"

lemma phase_index_inj: "phase_index a = phase_index b \<longleftrightarrow> a = b"
  by (cases a; cases b) simp_all

instantiation MainPart :: linorder
begin

definition less_eq_MainPart :: "MainPart \<Rightarrow> MainPart \<Rightarrow> bool" where
  "less_eq_MainPart a b \<longleftrightarrow> phase_index a \<le> phase_index b"

definition less_MainPart :: "MainPart \<Rightarrow> MainPart \<Rightarrow> bool" where
  "less_MainPart a b \<longleftrightarrow> phase_index a < phase_index b"

instance
  by standard (auto simp: less_eq_MainPart_def less_MainPart_def phase_index_inj)

end

text \<open>\<open>MsgType\<close> is a byte; \<open>'P'\<close> announces a payload, \<open>'N'\<close> none.\<close>

type_synonym MsgType = char

abbreviation PayloadMsg :: MsgType where
  "PayloadMsg \<equiv> CHR ''P''"

abbreviation NoPayloadMsg :: MsgType where
  "NoPayloadMsg \<equiv> CHR ''N''"

definition MSG_CODE_SIZE :: nat where
  "MSG_CODE_SIZE = 4"

definition magicStr :: bytes where
  "magicStr = ''PKR''"

record Parser =
  payload :: bytes
  code :: bytes
  phase :: MainPart
  msg_type :: MsgType
  size_index :: nat
  code_index :: nat
  payload_len :: nat

record ParseResults =
  res_Error :: bool
  res_parser_done :: bool
  res_code :: bytes
  res_BytesParsed :: nat
  res_msg_type :: MsgType
  res_payload :: bytes

record NetMsg =
  msg_Code :: bytes
  msg_Payload :: bytes

abbreviation net_msg :: "bytes \<Rightarrow> bytes \<Rightarrow> NetMsg" where
  "net_msg c p \<equiv> \<lparr>msg_Code = c, msg_Payload = p\<rparr>"

section \<open>Operations\<close>

definition Parser_Init :: Parser where
  "Parser_Init =
     \<lparr>payload = [], code = [], phase = Magic_1, msg_type = NoPayloadMsg,
      size_index = 0, code_index = 0, payload_len = 0\<rparr>"

definition ResetParser :: "Parser \<Rightarrow> Parser" where
  "ResetParser p = p\<lparr>payload := [], code := [], phase := Magic_1, msg_type := NoPayloadMsg,
                     size_index := 0, code_index := 0, payload_len := 0\<rparr>"

definition ParseByte :: "Parser \<Rightarrow> char \<Rightarrow> Parser \<times> ParserState" where
  "ParseByte p c =
     (case phase p of
        Magic_1 \<Rightarrow> if c \<noteq> CHR ''P'' then (p, Invalid) else (p\<lparr>phase := Magic_2\<rparr>, OK)
      | Magic_2 \<Rightarrow> if c \<noteq> CHR ''K'' then (p, Invalid) else (p\<lparr>phase := Magic_3\<rparr>, OK)
      | Magic_3 \<Rightarrow> if c \<noteq> CHR ''R'' then (p, Invalid) else (p\<lparr>phase := Type\<rparr>, OK)
      | Type \<Rightarrow>
          if c = CHR ''N'' \<or> c = CHR ''P''
          then ((if c = CHR ''N'' then p\<lparr>msg_type := NoPayloadMsg\<rparr> else p\<lparr>msg_type := PayloadMsg\<rparr>)
                  \<lparr>phase := Code\<rparr>, OK)
          else (p, Invalid)
      | Code \<Rightarrow>
          let p = p\<lparr>code := code p @ [c], code_index := code_index p + 1\<rparr>
          in (if MSG_CODE_SIZE \<le> code_index p
              then (if msg_type p = NoPayloadMsg then p\<lparr>phase := Endline\<rparr> else p\<lparr>phase := Size\<rparr>)
              else p, OK)
      | Size \<Rightarrow>
          if byte c < byte (CHR ''0'') \<or> byte c > byte (CHR ''9'') then (p, Invalid)
          else let p = (if 3 \<le> size_index p then p\<lparr>phase := Payload\<rparr> else p)
               in (p\<lparr>payload_len := payload_len p * 10 + (byte c - byte (CHR ''0'')),
                     size_index := size_index p + 1\<rparr>, OK)
      | Payload \<Rightarrow>
          let p = p\<lparr>payload := payload p @ [c]\<rparr>
          in (if length (payload p) = payload_len p then p\<lparr>phase := Endline\<rparr> else p, OK)
      | Endline \<Rightarrow> if c = CHR 0x0A then (p, Done) else (p, Invalid))"

definition GetPayload :: "Parser \<Rightarrow> bytes" where
  "GetPayload p = payload p"

text \<open>
  The loop of \<open>ParseBytes\<close> from index \<open>i\<close> on: the parser, the flags \<open>parser_done\<close> and
  \<open>Error\<close>, and the index it leaves with. It leaves after the byte that set a flag.
\<close>

fun ParseBytes_loop :: "Parser \<Rightarrow> bytes \<Rightarrow> nat \<Rightarrow> Parser \<times> bool \<times> bool \<times> nat" where
  "ParseBytes_loop p [] i = (p, False, False, i)"
| "ParseBytes_loop p (c # cs) i =
     (case ParseByte p c of
        (p', OK) \<Rightarrow> ParseBytes_loop p' cs (i + 1)
      | (p', Done) \<Rightarrow> (p', True, False, i + 1)
      | (p', Invalid) \<Rightarrow> (p', False, True, i + 1))"

definition ParseBytes :: "Parser \<Rightarrow> bytes \<Rightarrow> Parser \<times> ParseResults" where
  "ParseBytes p bs =
     (case ParseBytes_loop p bs 0 of
        (p', fin, err, i) \<Rightarrow>
          (p', \<lparr>res_Error = err, res_parser_done = fin,
                res_code = (if fin then code p' else []),
                res_BytesParsed = i,
                res_msg_type = (if fin then msg_type p' else CHR 0x00),
                res_payload = (if fin \<and> msg_type p' = PayloadMsg then GetPayload p' else [])\<rparr>))"

text \<open>The bytes of a message on the wire (\<open>NetMsg.ToString\<close>).\<close>

definition ToString :: "NetMsg \<Rightarrow> bytes" where
  "ToString msg =
     (let n = length (msg_Payload msg)
      in magicStr
         @ (if 0 < n then [CHR ''P''] else [CHR ''N''])
         @ msg_Code msg
         @ (if 0 < n then fmt_0d 4 (int n) @ msg_Payload msg else [])
         @ [CHR 0x0A])"

section \<open>Machines that read one byte at a time\<close>

text \<open>
  What \<open>ParseBytes\<close> asks of \<open>ParseByte\<close>: a step from a state and a byte to a state and a
  verdict. Feeding a buffer stops at the first verdict that is not \<open>OK\<close>. That the cut of
  the stream into buffers does not matter holds for every such machine.
\<close>

locale byte_machine =
  fixes step :: "'s \<Rightarrow> char \<Rightarrow> 's \<times> ParserState"
    and feed :: "'s \<Rightarrow> bytes \<Rightarrow> nat \<Rightarrow> 's \<times> bool \<times> bool \<times> nat"
  assumes feed_Nil: "feed s [] i = (s, False, False, i)"
    and feed_Cons: "feed s (c # cs) i =
      (case step s c of (s', OK) \<Rightarrow> feed s' cs (i + 1)
                      | (s', Done) \<Rightarrow> (s', True, False, i + 1)
                      | (s', Invalid) \<Rightarrow> (s', False, True, i + 1))"
begin

lemma feed_index: "feed s bs i = (s', d, e, j) \<Longrightarrow> i \<le> j \<and> j \<le> i + length bs"
proof (induction bs arbitrary: s i)
  case Nil
  then show ?case by (simp add: feed_Nil)
next
  case (Cons c cs)
  obtain t v where st: "step s c = (t, v)" by (cases "step s c") auto
  show ?case
    using Cons.IH [of t "i + 1"] Cons.prems st by (cases v) (auto simp: feed_Cons)
qed

lemma feed_progress: "bs \<noteq> [] \<Longrightarrow> feed s bs i = (s', d, e, j) \<Longrightarrow> i < j"
proof (cases bs)
  case (Cons c cs)
  assume f: "feed s bs i = (s', d, e, j)"
  obtain t v where st: "step s c = (t, v)" by (cases "step s c") auto
  show ?thesis
    using f Cons st feed_index [of t cs "i + 1"] by (cases v) (auto simp: feed_Cons)
qed simp

lemma feed_all: "feed s bs i = (s', False, False, j) \<Longrightarrow> j = i + length bs"
  by (induction bs arbitrary: s i) (fastforce simp: feed_Nil feed_Cons split: prod.splits ParserState.splits)+

lemma feed_verdict: "feed s bs i = (s', d, e, j) \<Longrightarrow> \<not> (d \<and> e)"
  by (induction bs arbitrary: s i) (auto simp: feed_Nil feed_Cons split: prod.splits ParserState.splits)

lemma feed_append:
  "feed s (xs @ ys) i =
     (case feed s xs i of
        (s', d, e, j) \<Rightarrow> if d \<or> e then (s', d, e, j) else feed s' ys j)"
  by (induction xs arbitrary: s i) (auto simp: feed_Nil feed_Cons split: prod.splits ParserState.splits)

lemma feed_shift:
  "feed s bs (i + k) = (case feed s bs i of (s', d, e, j) \<Rightarrow> (s', d, e, j + k))"
proof (induction bs arbitrary: s i)
  case Nil
  then show ?case by (simp add: feed_Nil)
next
  case (Cons c cs)
  show ?case
    using Cons.IH [of _ "i + 1"] by (auto simp: feed_Cons split: prod.splits ParserState.splits)
qed

lemma feed_consumed:
  assumes "feed s bs 0 = (s', d, e, j)" and "d \<or> e"
  shows "feed s (take j bs) 0 = (s', d, e, j) \<and> j \<le> length bs"
proof -
  have j: "j \<le> length bs" using feed_index [OF assms(1)] by simp
  obtain t dt et k where t: "feed s (take j bs) 0 = (t, dt, et, k)"
    by (cases "feed s (take j bs) 0") auto
  have split: "feed s bs 0 = (if dt \<or> et then (t, dt, et, k) else feed t (drop j bs) k)"
    using feed_append [of s "take j bs" "drop j bs" 0] t by simp
  show ?thesis
  proof (cases "dt \<or> et")
    case True
    with split assms t j show ?thesis by simp
  next
    case False
    then have k: "k = j" using feed_all [of s "take j bs" 0 t k] t j by simp
    with False split assms have f: "feed t (drop j bs) j = (s', d, e, j)" by simp
    then have "drop j bs = []" using feed_progress by blast
    with f assms(2) show ?thesis by (simp add: feed_Nil)
  qed
qed

lemma feed_invariant:
  assumes step_inv: "\<And>s c s' v. I s \<Longrightarrow> step s c = (s', v) \<Longrightarrow> I s'"
  shows "I s \<Longrightarrow> feed s bs i = (s', d, e, j) \<Longrightarrow> I s'"
proof (induction bs arbitrary: s i)
  case Nil
  then show ?case by (simp add: feed_Nil)
next
  case (Cons c cs)
  obtain t v where st: "step s c = (t, v)" by (cases "step s c") auto
  with Cons.prems(1) have t: "I t" by (rule step_inv)
  show ?case
    using Cons.IH [OF t] Cons.prems(2) st t by (cases v) (auto simp: feed_Cons)
qed

end

interpretation frame: byte_machine ParseByte ParseBytes_loop
  by unfold_locales (rule ParseBytes_loop.simps)+

section \<open>The parser invariant\<close>

text \<open>
  What holds between the fields in each phase: the counters are bounded (so the source's
  \<open>uint64\<close> counters do not wrap), and the two byte buffers never outgrow a frame.
\<close>

definition parser_inv :: "Parser \<Rightarrow> bool" where
  "parser_inv p \<longleftrightarrow>
     (case phase p of
        Code \<Rightarrow> msg_type p \<in> {NoPayloadMsg, PayloadMsg} \<and> code_index p < MSG_CODE_SIZE
          \<and> length (code p) = code_index p \<and> payload p = [] \<and> size_index p = 0 \<and> payload_len p = 0
      | Size \<Rightarrow> msg_type p = PayloadMsg \<and> length (code p) = MSG_CODE_SIZE \<and> code_index p = MSG_CODE_SIZE
          \<and> size_index p \<le> 3 \<and> payload_len p < 10 ^ size_index p \<and> payload p = []
      | Payload \<Rightarrow> msg_type p = PayloadMsg \<and> length (code p) = MSG_CODE_SIZE \<and> code_index p = MSG_CODE_SIZE
          \<and> size_index p = 4 \<and> payload_len p \<le> 9999 \<and> (payload_len p \<noteq> 0 \<longrightarrow> length (payload p) < payload_len p)
      | Endline \<Rightarrow> length (code p) = MSG_CODE_SIZE \<and> code_index p = MSG_CODE_SIZE
          \<and> (if msg_type p = NoPayloadMsg
             then payload p = [] \<and> size_index p = 0 \<and> payload_len p = 0
             else msg_type p = PayloadMsg \<and> size_index p = 4 \<and> 0 < payload_len p \<and> payload_len p \<le> 9999
                  \<and> length (payload p) = payload_len p)
      | _ \<Rightarrow> payload p = [] \<and> code p = [] \<and> size_index p = 0 \<and> code_index p = 0 \<and> payload_len p = 0)"

text \<open>
  The bytes a parser in a given state has read since it was reset, reconstructed from its
  fields: in every phase the state remembers exactly the bytes it has seen.
\<close>

fun fixed_digits :: "nat \<Rightarrow> nat \<Rightarrow> string" where
  "fixed_digits 0 n = []"
| "fixed_digits (Suc k) n = fixed_digits k (n div 10) @ [digit_char (n mod 10)]"

definition bytes_read :: "Parser \<Rightarrow> bytes" where
  "bytes_read p =
     (case phase p of
        Magic_1 \<Rightarrow> []
      | Magic_2 \<Rightarrow> ''P''
      | Magic_3 \<Rightarrow> ''PK''
      | Type \<Rightarrow> ''PKR''
      | Code \<Rightarrow> ''PKR'' @ [msg_type p] @ code p
      | _ \<Rightarrow> ''PKR'' @ [msg_type p] @ code p @ fixed_digits (size_index p) (payload_len p) @ payload p)"

lemma parser_inv_Init [simp]: "parser_inv Parser_Init"
  by (simp add: parser_inv_def Parser_Init_def)

lemma parser_inv_Reset [simp]: "parser_inv (ResetParser p)"
  by (simp add: parser_inv_def ResetParser_def)

lemma bytes_read_Init [simp]: "bytes_read Parser_Init = []"
  by (simp add: bytes_read_def Parser_Init_def)

lemma bytes_read_Reset [simp]: "bytes_read (ResetParser p) = []"
  by (simp add: bytes_read_def ResetParser_def)

lemma ResetParser_eq_Init: "ResetParser p = Parser_Init"
  by (simp add: ResetParser_def Parser_Init_def)

lemma ParseByte_inv: "parser_inv p \<Longrightarrow> ParseByte p c = (p', v) \<Longrightarrow> parser_inv p'"
proof (cases "phase p")
  case Size
  assume inv: "parser_inv p" and step: "ParseByte p c = (p', v)"
  have le: "payload_len p < 10 ^ size_index p" "size_index p \<le> 3"
    using inv Size by (simp_all add: parser_inv_def)
  show ?thesis
  proof (cases "byte c < byte (CHR ''0'') \<or> byte c > byte (CHR ''9'')")
    case True
    with Size step inv show ?thesis by (auto simp: ParseByte_def)
  next
    case False
    then have d: "byte c - 48 \<le> 9" by simp linarith
    have b: "payload_len p * 10 + (byte c - 48) < 10 * 10 ^ size_index p"
      using le(1) d by linarith
    have "size_index p = 3 \<or> size_index p < 3" using le(2) by linarith
    with False Size step inv b d show ?thesis
      by (auto simp: ParseByte_def parser_inv_def Let_def)
  qed
qed (auto simp: ParseByte_def parser_inv_def MSG_CODE_SIZE_def Let_def split: if_splits)

lemma ParseByte_bytes_read:
  assumes inv: "parser_inv p" and step: "ParseByte p c = (p', OK)"
  shows "bytes_read p' = bytes_read p @ [c]"
proof (cases "phase p")
  case Size
  have d: "\<not> (byte c < byte (CHR ''0'') \<or> byte c > byte (CHR ''9''))"
    using Size step by (auto simp: ParseByte_def split: if_splits)
  then have c: "is_digit c" by (simp add: is_digit_def)
  have v: "byte c - byte (CHR ''0'') = digit_val c" by (simp add: digit_val_def)
  have "(payload_len p * 10 + digit_val c) div 10 = payload_len p"
    "(payload_len p * 10 + digit_val c) mod 10 = digit_val c"
    using digit_val_less [OF c] by simp_all
  then have f4: "fixed_digits 4 (payload_len p * 10 + digit_val c) = fixed_digits 3 (payload_len p) @ [c]"
    using fixed_digits.simps(2) [of 3 "payload_len p * 10 + digit_val c"] c by simp
  with Size step inv d v c show ?thesis
    by (auto simp: ParseByte_def bytes_read_def parser_inv_def Let_def split: if_splits)
qed (use inv step in \<open>auto simp: ParseByte_def bytes_read_def parser_inv_def Let_def MSG_CODE_SIZE_def split: if_splits\<close>)

lemma ParseByte_Done:
  "ParseByte p c = (p', Done) \<longleftrightarrow> phase p = Endline \<and> c = CHR 0x0A \<and> p' = p"
  by (auto simp: ParseByte_def Let_def split: MainPart.splits if_splits)

lemma ParseByte_Invalid_same: "ParseByte p c = (p', Invalid) \<Longrightarrow> p' = p"
  by (auto simp: ParseByte_def Let_def split: MainPart.splits if_splits)

text \<open>No byte takes the parser back to an earlier phase: only a reset does.\<close>

lemma ParseByte_phase_mono: "ParseByte p c = (p', v) \<Longrightarrow> phase p \<le> phase p'"
  by (auto simp: ParseByte_def Let_def less_eq_MainPart_def split: MainPart.splits if_splits)

lemma ParseBytes_loop_bytes_read:
  "parser_inv p \<Longrightarrow> ParseBytes_loop p bs i = (p', False, False, j) \<Longrightarrow> bytes_read p' = bytes_read p @ bs"
proof (induction bs arbitrary: p i)
  case (Cons c cs)
  obtain t v where st: "ParseByte p c = (t, v)" by (cases "ParseByte p c") auto
  with Cons.prems have v: "v = OK" by (cases v) auto
  with st Cons.prems(1) have "parser_inv t" "bytes_read t = bytes_read p @ [c]"
    using ParseByte_inv ParseByte_bytes_read by blast+
  with Cons st v show ?case by auto
qed simp

lemma ParseBytes_loop_inv:
  "parser_inv p \<Longrightarrow> ParseBytes_loop p bs i = (p', d, e, j) \<Longrightarrow> parser_inv p'"
  by (rule frame.feed_invariant [of parser_inv]) (blast intro: ParseByte_inv)+

lemma ParseBytes_loop_done:
  "parser_inv p \<Longrightarrow> ParseBytes_loop p bs 0 = (p', True, e, j) \<Longrightarrow>
   phase p' = Endline \<and> bytes_read p @ take j bs = bytes_read p' @ [CHR 0x0A]"
proof (induction bs arbitrary: p j)
  case (Cons c cs)
  obtain t v where st: "ParseByte p c = (t, v)" by (cases "ParseByte p c") auto
  show ?case
  proof (cases v)
    case OK
    obtain j' where j: "ParseBytes_loop t cs 0 = (p', True, e, j')" "j = Suc j'"
      using Cons.prems(2) st OK frame.feed_shift [of t cs 0 1]
      by (auto split: prod.splits)
    have "parser_inv t" "bytes_read t = bytes_read p @ [c]"
      using st OK Cons.prems(1) ParseByte_inv ParseByte_bytes_read by blast+
    with Cons.IH [OF _ j(1)] j(2) show ?thesis by simp
  next
    case Done
    have "p' = t" "j = 1" using Cons.prems(2) st Done by auto
    moreover have "phase p = Endline \<and> c = CHR 0x0A \<and> t = p"
      using st Done ParseByte_Done by blast
    ultimately show ?thesis by simp
  next
    case Invalid
    with st Cons.prems show ?thesis by simp
  qed
qed simp

section \<open>Feeding the parts of a frame\<close>

lemmas feed_step = ParseBytes_loop.simps(2) ParseByte_def

declare ParseBytes_loop.simps(2) [simp del]

text \<open>A message the protocol can carry: a code of four bytes, at most 9999 bytes of payload.\<close>

definition frame_ok :: "NetMsg \<Rightarrow> bool" where
  "frame_ok m \<longleftrightarrow> length (msg_Code m) = MSG_CODE_SIZE \<and> length (msg_Payload m) \<le> 9999"

lemma digits_eqI:
  "list_all is_digit s \<Longrightarrow> list_all is_digit t \<Longrightarrow> length s = length t \<Longrightarrow>
   dec_val 0 s = dec_val 0 t \<Longrightarrow> s = t"
proof (induction s arbitrary: t rule: rev_induct)
  case (snoc c s)
  then obtain d u where t: "t = u @ [d]" by (cases t rule: rev_cases) auto
  have v: "dec_val 0 s * 10 + digit_val c = dec_val 0 u * 10 + digit_val d"
    using snoc.prems t by (simp add: dec_val_append)
  moreover have "digit_val c < 10" "digit_val d < 10" using snoc.prems t by simp_all
  ultimately have eq: "dec_val 0 s = dec_val 0 u" by linarith
  with v have "digit_val c = digit_val d" by simp
  moreover have "is_digit c" "is_digit d" using snoc.prems t by simp_all
  ultimately have "c = d" using digit_char_digit_val by metis
  with eq show ?case using snoc t by simp
qed simp

lemma fixed_digits_length [simp]: "length (fixed_digits k n) = k"
  by (induction k n rule: fixed_digits.induct) simp_all

lemma fixed_digits_digits [simp]: "list_all is_digit (fixed_digits k n)"
  by (induction k n rule: fixed_digits.induct) simp_all

lemma fixed_digits_val: "n < 10 ^ k \<Longrightarrow> dec_val 0 (fixed_digits k n) = n"
proof (induction k n rule: fixed_digits.induct)
  case (2 k n)
  then have "n div 10 < 10 ^ k" by (simp add: div_less_iff_less_mult mult.commute)
  with 2 show ?case by (simp add: dec_val_append)
qed simp

lemma fixed_digits_4: "n \<le> 9999 \<Longrightarrow> fixed_digits 4 n = fmt_0d 4 (int n)"
  by (rule digits_eqI) (simp_all add: fixed_digits_val fmt_0d_def)

lemma length_4_cases: "length xs = 4 \<Longrightarrow> \<exists>a b c d. xs = [a, b, c, d]"
  by (auto simp: numeral_eq_Suc length_Suc_conv)

lemma feed_header:
  assumes "t = NoPayloadMsg \<or> t = PayloadMsg" and "length c = 4"
  shows "ParseBytes_loop Parser_Init (''PKR'' @ [t] @ c @ bs) 0
       = ParseBytes_loop (Parser_Init\<lparr>msg_type := t, code := c, code_index := 4,
           phase := if t = NoPayloadMsg then Endline else Size\<rparr>) bs 8"
proof -
  obtain c1 c2 c3 c4 where c: "c = [c1, c2, c3, c4]" using length_4_cases [OF assms(2)] by blast
  show ?thesis
    using assms(1) c by (auto simp: feed_step Parser_Init_def MSG_CODE_SIZE_def eval_nat_numeral)
qed

lemma feed_size:
  assumes "phase p = Size" "size_index p = 0" "payload_len p = 0"
    and "length ds = 4" "list_all is_digit ds"
  shows "ParseBytes_loop p (ds @ bs) i
       = ParseBytes_loop (p\<lparr>phase := Payload, payload_len := dec_val 0 ds, size_index := 4\<rparr>) bs (i + 4)"
proof -
  obtain a b c d where ds: "ds = [a, b, c, d]" using length_4_cases [OF assms(4)] by blast
  have dig: "\<And>x. x \<in> {a, b, c, d} \<Longrightarrow> \<not> (byte x < 48 \<or> 57 < byte x)"
    using assms(5) ds by (auto simp: is_digit_def)
  have "ParseBytes_loop p (ds @ bs) i
       = ParseBytes_loop (p\<lparr>phase := Payload, payload_len := dec_val 0 ds, size_index := Suc (Suc (Suc (Suc 0)))\<rparr>)
           bs (Suc (Suc (Suc (Suc i))))"
    using assms(1-3) ds dig by (simp add: feed_step digit_val_def)
  then show ?thesis by (simp add: eval_nat_numeral)
qed

lemma feed_payload:
  "phase p = Payload \<Longrightarrow> bs \<noteq> [] \<Longrightarrow> length (payload p) + length bs = payload_len p \<Longrightarrow>
   ParseBytes_loop p (bs @ cs) i
   = ParseBytes_loop (p\<lparr>payload := payload p @ bs, phase := Endline\<rparr>) cs (i + length bs)"
proof (induction bs arbitrary: p i)
  case (Cons b bs)
  show ?case
  proof (cases "bs = []")
    case True
    with Cons.prems show ?thesis by (simp add: feed_step)
  next
    case False
    then have "Suc (length (payload p)) \<noteq> payload_len p" using Cons.prems by (cases bs) auto
    with False Cons.prems Cons.IH [of "p\<lparr>payload := payload p @ [b]\<rparr>" "i + 1"]
    show ?thesis by (simp add: feed_step)
  qed
qed simp

lemma feed_endline:
  "phase p = Endline \<Longrightarrow> ParseBytes_loop p (CHR 0x0A # cs) i = (p, True, False, i + 1)"
  by (simp add: feed_step)

text \<open>A payload announced with length 0 is never complete: every byte is taken as payload.\<close>

lemma feed_payload_zero:
  "phase p = Payload \<Longrightarrow> payload_len p = 0 \<Longrightarrow>
   ParseBytes_loop p bs i = (p\<lparr>payload := payload p @ bs\<rparr>, False, False, i + length bs)"
  by (induction bs arbitrary: p i) (simp_all add: feed_step)

section \<open>The frames the parser accepts\<close>

definition frame_parser :: "NetMsg \<Rightarrow> Parser" where
  "frame_parser m =
     (let n = length (msg_Payload m)
      in Parser_Init\<lparr>payload := msg_Payload m, code := msg_Code m, phase := Endline,
           msg_type := (if 0 < n then PayloadMsg else NoPayloadMsg),
           size_index := (if 0 < n then 4 else 0), code_index := 4, payload_len := n\<rparr>)"

lemma ToString_length:
  "frame_ok m \<Longrightarrow> length (ToString m) =
     (if msg_Payload m = [] then 9 else 13 + length (msg_Payload m))"
  by (auto simp: ToString_def frame_ok_def MSG_CODE_SIZE_def magicStr_def Let_def fmt_0d_def)

lemma ToString_nonempty [simp]: "ToString m \<noteq> []"
  by (simp add: ToString_def Let_def)

lemma feed_ToString:
  assumes "frame_ok m"
  shows "ParseBytes_loop Parser_Init (ToString m @ rest) 0
       = (frame_parser m, True, False, length (ToString m))"
proof (cases "msg_Payload m = []")
  case True
  have "ParseBytes_loop Parser_Init (ToString m @ rest) 0
      = ParseBytes_loop Parser_Init (''PKR'' @ [NoPayloadMsg] @ msg_Code m @ CHR 0x0A # rest) 0"
    using True by (simp add: ToString_def magicStr_def)
  also have "\<dots> = (frame_parser m, True, False, 9)"
    using assms True
    by (subst feed_header) (simp_all add: frame_ok_def MSG_CODE_SIZE_def feed_endline frame_parser_def Parser_Init_def)
  finally show ?thesis using True assms by (simp add: ToString_length)
next
  case False
  have c: "length (msg_Code m) = 4" and n: "length (msg_Payload m) \<le> 9999"
    using assms by (simp_all add: frame_ok_def MSG_CODE_SIZE_def)
  let ?ds = "fmt_0d 4 (int (length (msg_Payload m)))"
  have ds: "length ?ds = 4" "list_all is_digit ?ds" "dec_val 0 ?ds = length (msg_Payload m)"
    using n by (simp_all add: fmt_0d_def)
  have "ParseBytes_loop Parser_Init (ToString m @ rest) 0
      = ParseBytes_loop Parser_Init (''PKR'' @ [PayloadMsg] @ msg_Code m @ ?ds @ msg_Payload m @ CHR 0x0A # rest) 0"
    using False by (simp add: ToString_def magicStr_def)
  also have "\<dots> = (frame_parser m, True, False, 13 + length (msg_Payload m))"
    using False c n ds
    by (subst feed_header, simp_all, subst feed_size, simp_all add: Parser_Init_def,
        subst feed_payload, simp_all add: feed_endline frame_parser_def Parser_Init_def)
  finally show ?thesis using False assms by (simp add: ToString_length)
qed

lemma bytes_read_Endline:
  assumes "parser_inv p" "phase p = Endline"
  shows "bytes_read p @ [CHR 0x0A] = ToString (net_msg (code p) (payload p))
    \<and> frame_ok (net_msg (code p) (payload p))
    \<and> (if msg_type p = PayloadMsg then payload p else []) = payload p"
proof (cases "msg_type p = NoPayloadMsg")
  case True
  with assms show ?thesis
    by (simp add: bytes_read_def parser_inv_def ToString_def magicStr_def frame_ok_def)
next
  case False
  then have P: "msg_type p = PayloadMsg" "size_index p = 4" "payload_len p = length (payload p)"
    "payload p \<noteq> []" "length (payload p) \<le> 9999" "length (code p) = MSG_CODE_SIZE"
    using assms by (auto simp: parser_inv_def)
  have "fixed_digits 4 (length (payload p)) = fmt_0d 4 (int (length (payload p)))"
    using P(5) by (rule fixed_digits_4)
  with assms(2) P show ?thesis
    by (simp add: bytes_read_def ToString_def magicStr_def frame_ok_def)
qed

lemma feed_done_frame:
  assumes "ParseBytes_loop Parser_Init bs 0 = (p, True, e, j)"
  shows "take j bs = ToString (net_msg (code p) (payload p)) \<and> frame_ok (net_msg (code p) (payload p))
    \<and> (if msg_type p = PayloadMsg then payload p else []) = payload p \<and> j = length (take j bs)"
proof -
  have inv: "parser_inv p" using ParseBytes_loop_inv [OF parser_inv_Init assms] .
  have "phase p = Endline" "take j bs = bytes_read p @ [CHR 0x0A]"
    using ParseBytes_loop_done [OF parser_inv_Init assms] by simp_all
  moreover have "j \<le> length bs" using frame.feed_index [OF assms] by simp
  then have "length (take j bs) = j" by simp
  ultimately show ?thesis using bytes_read_Endline [OF inv] by simp
qed

section \<open>Properties\<close>

lemma ParseBytes_Init_cases:
  obtains (complete) m rest where "frame_ok m" "bs = ToString m @ rest"
    "snd (ParseBytes Parser_Init bs) = \<lparr>res_Error = False, res_parser_done = True, res_code = msg_Code m,
       res_BytesParsed = length (ToString m),
       res_msg_type = (if msg_Payload m = [] then NoPayloadMsg else PayloadMsg), res_payload = msg_Payload m\<rparr>"
  | (incomplete) p e j where "ParseBytes_loop Parser_Init bs 0 = (p, False, e, j)"
    "\<nexists>m rest. frame_ok m \<and> bs = ToString m @ rest"
proof -
  obtain p d e j where f: "ParseBytes_loop Parser_Init bs 0 = (p, d, e, j)"
    by (cases "ParseBytes_loop Parser_Init bs 0") auto
  show ?thesis
  proof (cases d)
    case True
    let ?m = "net_msg (code p) (payload p)"
    have "take j bs = ToString ?m" "frame_ok ?m" using feed_done_frame [of bs p e j] f True by simp_all
    then have "bs = ToString ?m @ drop j bs" by (metis append_take_drop_id)
    moreover have "snd (ParseBytes Parser_Init (ToString ?m @ rest)) =
      \<lparr>res_Error = False, res_parser_done = True, res_code = msg_Code ?m, res_BytesParsed = length (ToString ?m),
       res_msg_type = (if msg_Payload ?m = [] then NoPayloadMsg else PayloadMsg), res_payload = msg_Payload ?m\<rparr>" for rest
      using feed_ToString [OF \<open>frame_ok ?m\<close>, of rest]
      by (simp add: ParseBytes_def frame_parser_def Parser_Init_def GetPayload_def)
    ultimately show ?thesis using \<open>frame_ok ?m\<close> complete by metis
  next
    case False
    have "\<nexists>m rest. frame_ok m \<and> bs = ToString m @ rest" using f False feed_ToString by force
    with incomplete [of p e j] f False show ?thesis by simp
  qed
qed

text \<open>
  C5. The parser accepts exactly the protocol's frames: from its initial state, \<open>ParseBytes\<close>
  reports a finished message if and only if the buffer starts with the wire form of some
  message with a four-byte code and at most 9999 bytes of payload, and then it returns that
  message's code and payload and has consumed exactly its bytes.
\<close>

theorem ParseBytes_accepts_frames:
  "(let r = snd (ParseBytes Parser_Init bs) in
      (res_parser_done r \<longleftrightarrow> (\<exists>m rest. frame_ok m \<and> bs = ToString m @ rest))
      \<and> (res_parser_done r \<longleftrightarrow> (\<exists>m rest. frame_ok m \<and> bs = ToString m @ rest
           \<and> res_code r = msg_Code m \<and> res_payload r = msg_Payload m
           \<and> res_BytesParsed r = length (ToString m) \<and> \<not> res_Error r)))"
proof (cases rule: ParseBytes_Init_cases [of bs])
  case (complete m rest)
  then show ?thesis unfolding Let_def by auto
next
  case (incomplete p e j)
  then show ?thesis by (simp add: ParseBytes_def Let_def)
qed

text \<open>
  C38. An error is never reported early: when \<open>ParseBytes\<close> reports an error, no frame of the
  protocol starts with the bytes it consumed, whatever would have followed them.
\<close>

theorem ParseBytes_error_sound:
  "(let r = snd (ParseBytes Parser_Init bs) in
      \<not> (res_Error r \<and> (\<exists>m rest more. frame_ok m \<and> take (res_BytesParsed r) bs @ rest = ToString m @ more)))"
proof (cases rule: ParseBytes_Init_cases [of bs])
  case (complete m rest)
  then show ?thesis unfolding Let_def by auto
next
  case (incomplete p e j)
  show ?thesis
  proof (cases e)
    case True
    have "ParseBytes_loop Parser_Init (take j bs) 0 = (p, False, True, j)"
      using frame.feed_consumed [OF incomplete(1)] True by simp
    then have "ParseBytes_loop Parser_Init (take j bs @ rest) 0 = (p, False, True, j)" for rest
      by (simp add: frame.feed_append)
    then have "\<not> (frame_ok m \<and> take j bs @ rest = ToString m @ more)" for m rest more
      using feed_ToString [of m more] by (metis Pair_inject)
    then show ?thesis using incomplete(1) True by (simp add: ParseBytes_def Let_def)
  next
    case False
    with incomplete(1) show ?thesis by (simp add: ParseBytes_def Let_def)
  qed
qed

text \<open>
  C39. Whatever the bytes and however they are cut into buffers, the parser's counters and
  buffers stay bounded: the code never exceeds four bytes, the announced length 9999, and the
  collected payload the announced length, unless that length is 0.
\<close>

theorem ParseBytes_bounds:
  "(let p = foldl (\<lambda>p bs. fst (ParseBytes p bs)) Parser_Init buffers in
      length (code p) \<le> MSG_CODE_SIZE \<and> code_index p \<le> 4 \<and> size_index p \<le> 4 \<and> payload_len p \<le> 9999
      \<and> (payload_len p = 0 \<or> length (payload p) \<le> payload_len p))"
proof -
  define p where "p = foldl (\<lambda>p bs. fst (ParseBytes p bs)) Parser_Init buffers"
  have step: "parser_inv (fst (ParseBytes q bs))" if "parser_inv q" for q bs
    using that ParseBytes_loop_inv by (auto simp: ParseBytes_def split: prod.splits)
  have "parser_inv p" unfolding p_def
    by (induction buffers rule: rev_induct) (simp_all add: step)
  moreover have "(10 :: nat) ^ size_index p \<le> 10 ^ 3" if "size_index p \<le> 3"
    using that by (intro power_increasing) simp_all
  ultimately have "length (code p) \<le> MSG_CODE_SIZE \<and> code_index p \<le> 4 \<and> size_index p \<le> 4
      \<and> payload_len p \<le> 9999 \<and> (payload_len p = 0 \<or> length (payload p) \<le> payload_len p)"
    by (cases "phase p") (auto simp: parser_inv_def MSG_CODE_SIZE_def split: if_splits)
  then show ?thesis by (simp add: p_def Let_def)
qed

text \<open>
  C40. A frame that announces a payload of length 0 is never finished: after it, whatever bytes
  follow are taken as payload, with neither a message nor an error, so the connection is
  stuck and the buffer grows with every byte received.
\<close>

theorem zero_length_frame_never_ends:
  "ParseBytes Parser_Init (''PKRP'' @ [a, b, c, d] @ ''0000'' @ bs)
   = (\<lparr>payload = bs, code = [a, b, c, d], phase = Payload, msg_type = PayloadMsg,
       size_index = 4, code_index = 4, payload_len = 0\<rparr>,
      \<lparr>res_Error = False, res_parser_done = False, res_code = [], res_BytesParsed = 12 + length bs,
       res_msg_type = CHR 0x00, res_payload = []\<rparr>)"
proof -
  have "ParseBytes_loop Parser_Init (''PKR'' @ [PayloadMsg] @ [a, b, c, d] @ ''0000'' @ bs) 0
    = (\<lparr>payload = bs, code = [a, b, c, d], phase = Payload, msg_type = PayloadMsg,
        size_index = 4, code_index = 4, payload_len = 0\<rparr>, False, False, 12 + length bs)"
    by (subst feed_header, simp_all, subst feed_size [of _ "''0000''", simplified])
      (simp_all add: Parser_Init_def feed_payload_zero)
  then show ?thesis by (simp add: ParseBytes_def)
qed

end
