(* ===== verification/NetHandler.thy ===== *)
theory NetHandler
  imports Framing
begin

text \<open>
  The network thread (\<open>sp/client/ups_net/network.go\<close>). The record \<open>NetHandler\<close> holds the
  fields of the source's struct that its code reads, plus what the operating system and the
  scheduler keep for it: the attempts to write to a connection with their outcome
  (\<open>written\<close>), the number of connections opened so far (\<open>dialled\<close>), the reader
  goroutines with their parsers (\<open>readers\<close>) and the reconnect goroutines (\<open>workers\<close>).
  The timer field of \<open>reconnectData\<close> is never assigned in the source, so it is nil and has
  no counterpart here; printing and deadlines have no effect on the state. The two counters
  grow by one per dial or per tick of ten seconds, so they are kept without wrap-around.

  The environment is not fixed: \<open>wr k\<close> says whether the \<open>k\<close>-th write succeeds, a dial's
  outcome and the bytes read are arguments, and the interleaving of the goroutines is the
  step relation \<open>net_step\<close>, whose steps are the sections of code between two blocking
  points.
\<close>

section \<open>Data\<close>

datatype NetEvent =
    NetConnecting
  | NetConnected
  | NetReconnecting (Attempt: int) (Max: int)
  | NetReconnected
  | NetDisconnected
  | NetMessage (Msg: NetMsg)

datatype NetCommand =
    NetConnect (Host: bytes) (Port: bytes)
  | NetDisconnect
  | NetShutdown

datatype ConnectionState = StateDisconnected | StateConnecting | StateConnected | StateReconnecting

definition chanBufSize :: nat where
  "chanBufSize = 100"

definition reconnectMax :: int where
  "reconnectMax = 30"

text \<open>A reconnect goroutine: just started, about to dial, or waiting in its \<open>select\<close>.\<close>

datatype worker = WStart | WDial | WWait

record NetHandler =
  conn :: "nat option"
  userDisconnect :: bool
  conn_state :: ConnectionState
  shutdown :: bool
  eventChan :: "NetEvent list"
  commandChan :: "NetCommand list"
  msgOutChan :: "NetMsg list"
  aliveMissed :: int
  aliveReceived :: bool
  rc_host :: bytes
  rc_port :: bytes
  rc_attempts :: int
  rc_active :: bool
  written :: "(nat \<times> bytes \<times> bool) list"
  dialled :: nat
  readers :: "(nat \<times> Parser) list"
  workers :: "worker list"

section \<open>Operations\<close>

definition Net_Init :: NetHandler where
  "Net_Init =
     \<lparr>conn = None, userDisconnect = False, conn_state = StateDisconnected, shutdown = False,
      eventChan = [], commandChan = [], msgOutChan = [], aliveMissed = 0, aliveReceived = False,
      rc_host = [], rc_port = [], rc_attempts = 0, rc_active = False,
      written = [], dialled = 0, readers = [], workers = []\<rparr>"

definition emit :: "NetEvent \<Rightarrow> NetHandler \<Rightarrow> NetHandler" where
  "emit e nh = nh\<lparr>eventChan := chan_send (eventChan nh) e\<rparr>"

definition disconnectInternal :: "NetHandler \<Rightarrow> NetHandler" where
  "disconnectInternal nh = (if conn nh \<noteq> None then nh\<lparr>conn := None\<rparr> else nh)"

definition setConnection :: "nat \<Rightarrow> NetHandler \<Rightarrow> NetHandler" where
  "setConnection c nh = nh\<lparr>conn := Some c\<rparr>"

definition setState :: "ConnectionState \<Rightarrow> NetHandler \<Rightarrow> NetHandler" where
  "setState s nh = nh\<lparr>conn_state := s\<rparr>"

definition handleConnectionLost :: "NetHandler \<Rightarrow> NetHandler" where
  "handleConnectionLost nh =
     (if conn_state nh \<noteq> StateConnected then nh
      else if userDisconnect nh then nh\<lparr>conn_state := StateDisconnected\<rparr>
      else
        let nh = setState StateReconnecting (disconnectInternal nh)
        in if rc_host nh \<noteq> [] \<and> rc_port nh \<noteq> []
           then nh\<lparr>rc_active := True, rc_attempts := 0, workers := workers nh @ [WStart]\<rparr>
           else emit NetDisconnected (setState StateDisconnected nh))"

text \<open>\<open>sendMessage\<close>: the handler afterwards and the error, if any.\<close>

definition sendMessage :: "(nat \<Rightarrow> bool) \<Rightarrow> NetHandler \<Rightarrow> NetMsg \<Rightarrow> NetHandler \<times> string option" where
  "sendMessage wr nh msg =
     (if conn_state nh \<noteq> StateConnected then (nh, Some ''not connected'')
      else case conn nh of
        None \<Rightarrow> (nh, Some ''no connection'')
      | Some c \<Rightarrow>
          let data = ToString msg;
              ok = wr (length (written nh));
              nh = nh\<lparr>written := written nh @ [(c, data, ok)]\<rparr>
          in if ok then (nh, None) else (handleConnectionLost nh, Some ''write error''))"

definition checkAlive :: "NetHandler \<Rightarrow> NetHandler" where
  "checkAlive nh =
     (let nh = (if \<not> aliveReceived nh then nh\<lparr>aliveMissed := aliveMissed nh + 1\<rparr> else nh)
      in if 2 \<le> aliveMissed nh then handleConnectionLost nh else nh)"

definition clearAlive :: "NetHandler \<Rightarrow> NetHandler" where
  "clearAlive nh = nh\<lparr>aliveReceived := False\<rparr>"

definition sendAlive :: "(nat \<Rightarrow> bool) \<Rightarrow> NetHandler \<Rightarrow> NetHandler" where
  "sendAlive wr nh = fst (sendMessage wr nh (net_msg ''ALV?'' []))"

text \<open>The branch of \<open>Run\<close> for the ticker.\<close>

definition Run_tick :: "(nat \<Rightarrow> bool) \<Rightarrow> NetHandler \<Rightarrow> NetHandler" where
  "Run_tick wr nh =
     (if conn_state nh = StateConnected then sendAlive wr (clearAlive (checkAlive nh)) else nh)"

text \<open>
  \<open>connectWithRetry\<close>, cut at its blocking points. \<open>retry_enter\<close> is the code in front of
  the loop; \<open>None\<close> in the second component means that it goes on into the loop.
\<close>

definition retry_enter :: "bool \<Rightarrow> NetHandler \<Rightarrow> NetHandler \<times> bool" where
  "retry_enter isReconnect nh =
     (let nh = (if isReconnect then setState StateReconnecting nh else nh)
      in if userDisconnect nh then (nh\<lparr>conn_state := StateDisconnected\<rparr>, False) else (nh, True))"

text \<open>A successful dial.\<close>

definition dial_success :: "bool \<Rightarrow> NetHandler \<Rightarrow> NetHandler" where
  "dial_success isReconnect nh =
     (let c = dialled nh;
          nh = setState StateConnected (setConnection c (nh\<lparr>dialled := Suc c\<rparr>));
          nh = (if isReconnect
                then (emit NetReconnected nh)\<lparr>rc_active := False, rc_attempts := 0\<rparr>
                else emit NetConnected nh)
      in nh\<lparr>aliveMissed := 0, aliveReceived := False, readers := readers nh @ [(c, Parser_Init)]\<rparr>)"

text \<open>
  One iteration of the loop up to the \<open>select\<close>, with the outcome of the dial: the handler,
  and whether the loop goes on to the \<open>select\<close> (otherwise the function has returned).
\<close>

definition retry_iter :: "bool \<Rightarrow> bool \<Rightarrow> NetHandler \<Rightarrow> NetHandler \<times> bool" where
  "retry_iter isReconnect dial_ok nh =
     (if shutdown nh then (nh, False)
      else if conn_state nh = StateDisconnected \<and> \<not> isReconnect then (nh, False)
      else if isReconnect \<and> \<not> rc_active nh then (nh, False)
      else
        let attempt = rc_attempts nh + 1;
            nh = (if isReconnect then nh\<lparr>rc_attempts := attempt\<rparr> else nh)
        in if isReconnect \<and> reconnectMax < attempt
           then (emit NetDisconnected (setState StateDisconnected (disconnectInternal nh)), False)
           else
             let nh = (if isReconnect then emit (NetReconnecting attempt reconnectMax) nh else nh)
             in if dial_ok then (dial_success isReconnect nh, False)
                else if \<not> isReconnect
                then (emit NetDisconnected (setState StateDisconnected (disconnectInternal nh)), False)
                else (nh, True))"

text \<open>
  The \<open>select\<close>: either the timer fires, or the goroutine takes the next command. Only
  \<open>NetDisconnect\<close> is acted on; any other command is dropped. The flag says whether the
  loop goes on.
\<close>

definition retry_select :: "bool \<Rightarrow> NetHandler \<Rightarrow> NetHandler \<times> bool" where
  "retry_select take_command nh =
     (case (take_command, chan_recv (commandChan nh)) of
        (True, Some (cmd, q)) \<Rightarrow>
          let nh = nh\<lparr>commandChan := q\<rparr>
          in (case cmd of
                NetDisconnect \<Rightarrow> (emit NetDisconnected (setState StateDisconnected nh), False)
              | _ \<Rightarrow> (nh, True))
      | _ \<Rightarrow> (nh, True))"

text \<open>\<open>connectWithRetry(host, port, false)\<close>: the loop body runs at most once.\<close>

definition connect_first :: "bool \<Rightarrow> NetHandler \<Rightarrow> NetHandler" where
  "connect_first dial_ok nh =
     (case retry_enter False nh of
        (nh, False) \<Rightarrow> nh
      | (nh, True) \<Rightarrow> fst (retry_iter False dial_ok nh))"

definition handleConnect :: "bool \<Rightarrow> bytes \<Rightarrow> bytes \<Rightarrow> NetHandler \<Rightarrow> NetHandler" where
  "handleConnect dial_ok host port nh =
     (if conn_state nh \<noteq> StateDisconnected then nh
      else if userDisconnect nh then nh\<lparr>conn_state := StateDisconnected\<rparr>
      else connect_first dial_ok
             ((emit NetConnecting (setState StateConnecting nh))
                \<lparr>rc_host := host, rc_port := port, rc_attempts := 0, rc_active := False\<rparr>))"

definition handleDisconnect :: "NetHandler \<Rightarrow> NetHandler" where
  "handleDisconnect nh =
     emit NetDisconnected (setState StateDisconnected (disconnectInternal (nh\<lparr>rc_active := False\<rparr>)))"

definition handleCommand :: "bool \<Rightarrow> NetHandler \<Rightarrow> NetCommand \<Rightarrow> NetHandler" where
  "handleCommand dial_ok nh cmd =
     (case cmd of
        NetConnect host port \<Rightarrow> handleConnect dial_ok host port (nh\<lparr>userDisconnect := False\<rparr>)
      | NetDisconnect \<Rightarrow> handleDisconnect (nh\<lparr>userDisconnect := True\<rparr>)
      | NetShutdown \<Rightarrow> nh\<lparr>shutdown := True\<rparr>)"

text \<open>What \<open>processBuffer\<close> does with one parsed message.\<close>

definition deliver :: "(nat \<Rightarrow> bool) \<Rightarrow> NetHandler \<Rightarrow> NetMsg \<Rightarrow> NetHandler" where
  "deliver wr nh m =
     (if msg_Code m = ''ALV!'' then nh\<lparr>aliveReceived := True\<rparr>
      else if msg_Code m = ''PING'' then fst (sendMessage wr nh (net_msg ''PING'' []))
      else emit (NetMessage m) nh)"

lemma ParseBytes_progress:
  "bs \<noteq> [] \<Longrightarrow> ParseBytes p bs = (p', r) \<Longrightarrow> 0 < res_BytesParsed r"
  using frame.feed_progress [of bs p 0]
  by (auto simp: ParseBytes_def split: prod.splits)

function processBuffer ::
  "(nat \<Rightarrow> bool) \<Rightarrow> NetHandler \<Rightarrow> bytes \<Rightarrow> nat \<Rightarrow> Parser \<Rightarrow> NetHandler \<times> Parser" where
  "processBuffer wr nh buffer totalParsed parser =
     (if totalParsed < length buffer then
        (case ParseBytes parser (drop totalParsed buffer) of
           (parser, results) \<Rightarrow>
             if res_Error results then (handleConnectionLost nh, parser)
             else if res_parser_done results then
               processBuffer wr (deliver wr nh (net_msg (res_code results) (res_payload results))) buffer
                 (totalParsed + res_BytesParsed results) (ResetParser parser)
             else processBuffer wr nh buffer (totalParsed + res_BytesParsed results) parser)
      else (nh, parser))"
  by pat_completeness auto
termination
proof (relation "measure (\<lambda>(wr, nh, buffer, totalParsed, parser). length buffer - totalParsed)")
qed (auto dest!: ParseBytes_progress [rotated, OF sym] simp: diff_less_mono2)

declare processBuffer.simps [simp del]

text \<open>The client's side of the channels.\<close>

definition SendCommand :: "NetCommand \<Rightarrow> NetHandler \<Rightarrow> NetHandler" where
  "SendCommand cmd nh = nh\<lparr>commandChan := chan_try_send chanBufSize (commandChan nh) cmd\<rparr>"

definition SendNetMsg :: "NetMsg \<Rightarrow> NetHandler \<Rightarrow> NetHandler" where
  "SendNetMsg m nh = nh\<lparr>msgOutChan := chan_try_send chanBufSize (msgOutChan nh) m\<rparr>"

section \<open>The reader\<close>

text \<open>
  The loop of \<open>readerLoop\<close>: the parser is kept from one buffer to the next. \<open>readerLoop\<close>
  runs it over the buffers that successive reads return.
\<close>

definition readerLoop :: "(nat \<Rightarrow> bool) \<Rightarrow> NetHandler \<Rightarrow> Parser \<Rightarrow> bytes list \<Rightarrow> NetHandler \<times> Parser" where
  "readerLoop wr nh parser buffers =
     foldl (\<lambda>(nh, parser) buffer. processBuffer wr nh buffer 0 parser) (nh, parser) buffers"

lemma processBuffer_unfold:
  "processBuffer wr nh buffer k parser =
     (if k < length buffer then
        (case ParseBytes parser (drop k buffer) of
           (p, r) \<Rightarrow>
             if res_Error r then (handleConnectionLost nh, p)
             else if res_parser_done r
             then processBuffer wr (deliver wr nh (net_msg (res_code r) (res_payload r))) buffer
                    (k + res_BytesParsed r) (ResetParser p)
             else processBuffer wr nh buffer (k + res_BytesParsed r) p)
      else (nh, parser))"
  by (rule processBuffer.simps)

text \<open>The index into the buffer is only a way to write the rest of the buffer.\<close>

lemma processBuffer_shift:
  "processBuffer wr nh buffer k parser = processBuffer wr nh (drop k buffer) 0 parser"
proof (induction "length buffer - k" arbitrary: nh buffer k parser rule: less_induct)
  case less
  show ?case
  proof (cases "k < length buffer")
    case False
    then show ?thesis by (simp add: processBuffer_unfold [of wr nh buffer k] processBuffer_unfold [of wr nh "[]"])
  next
    case True
    obtain p r where pr: "ParseBytes parser (drop k buffer) = (p, r)"
      by (cases "ParseBytes parser (drop k buffer)")
    define n where "n = res_BytesParsed r"
    have n: "0 < n" using ParseBytes_progress [OF _ pr] True by (simp add: n_def)
    have whole: "processBuffer wr nh' buffer (k + n) q = processBuffer wr nh' (drop (k + n) buffer) 0 q" for nh' q
      using True n by (intro less.hyps) auto
    have rest: "processBuffer wr nh' (drop k buffer) n q = processBuffer wr nh' (drop n (drop k buffer)) 0 q" for nh' q
    proof (cases "k = 0")
      case True
      then show ?thesis using whole by simp
    next
      case False
      with True n show ?thesis by (intro less.hyps) auto
    qed
    show ?thesis
      using True pr by (simp add: processBuffer_unfold [of wr nh buffer k]
          processBuffer_unfold [of wr nh "drop k buffer"] n_def [symmetric] whole rest add.commute)
  qed
qed

lemma processBuffer_Nil [simp]: "processBuffer wr nh [] 0 p = (nh, p)"
  by (simp add: processBuffer_unfold)

lemma processBuffer_partial:
  "ParseBytes_loop p bs 0 = (p', False, False, j) \<Longrightarrow> processBuffer wr nh bs 0 p = (nh, p')"
proof -
  assume f: "ParseBytes_loop p bs 0 = (p', False, False, j)"
  then have "j = length bs" using frame.feed_all by fastforce
  with f show ?thesis
    by (cases "bs = []")
      (auto simp: processBuffer_unfold [of wr nh bs 0 p] processBuffer_unfold [of wr nh bs "length bs"] ParseBytes_def)
qed

lemma processBuffer_done:
  assumes "ParseBytes_loop p bs 0 = (p', True, False, j)" and "bs \<noteq> []"
  shows "processBuffer wr nh bs 0 p =
    processBuffer wr (deliver wr nh (net_msg (code p') (if msg_type p' = PayloadMsg then payload p' else [])))
      (drop j bs) 0 (ResetParser p')"
  using assms
  by (simp add: processBuffer_unfold [of wr nh bs 0 p] ParseBytes_def GetPayload_def
      processBuffer_shift [of wr _ bs j])

text \<open>
  One buffer of a well-formed stream. Before it the parser has read \<open>pre\<close>, the beginning of
  the first message that is still open; the buffer completes some of the messages and leaves
  the parser inside the next one.
\<close>

lemma feed_prefix_open:
  assumes "frame_ok m" and "pre @ suf = ToString m @ rest" and "length pre < length (ToString m)"
  shows "\<exists>p. ParseBytes_loop Parser_Init pre 0 = (p, False, False, length pre)"
proof -
  obtain p d e j where f: "ParseBytes_loop Parser_Init pre 0 = (p, d, e, j)"
    by (cases "ParseBytes_loop Parser_Init pre 0") auto
  have "ParseBytes_loop Parser_Init (pre @ suf) 0 = (frame_parser m, True, False, length (ToString m))"
    using feed_ToString [OF assms(1), of rest] assms(2) by simp
  then have "\<not> (d \<or> e)"
    using frame.feed_append [of Parser_Init pre suf 0] f frame.feed_index [OF f] assms(3)
    by (auto split: if_splits)
  with f frame.feed_all [of Parser_Init pre 0 p j] show ?thesis by auto
qed

lemma frame_parser_msg:
  "net_msg (code (frame_parser m)) (if msg_type (frame_parser m) = PayloadMsg then payload (frame_parser m) else []) = m"
  by (cases m) (auto simp: frame_parser_def Parser_Init_def Let_def)

lemma processBuffer_stream:
  assumes "list_all frame_ok ms"
    and "ParseBytes_loop Parser_Init pre 0 = (p, False, False, length pre)"
    and "pre @ buf @ rest = concat (map ToString ms)"
  shows "\<exists>ms1 ms2 pre' p'. ms = ms1 @ ms2
    \<and> processBuffer wr nh buf 0 p = (foldl (deliver wr) nh ms1, p')
    \<and> ParseBytes_loop Parser_Init pre' 0 = (p', False, False, length pre')
    \<and> pre' @ rest = concat (map ToString ms2)"
  using assms
proof (induction ms arbitrary: pre p buf nh)
  case Nil
  then show ?case by (intro exI [of _ "[]"] exI [of _ pre] exI [of _ p]) auto
next
  case (Cons m ms)
  have m: "frame_ok m" using Cons.prems(1) by simp
  have stream: "pre @ buf @ rest = ToString m @ concat (map ToString ms)" using Cons.prems(3) by simp
  have buf_feed: "ParseBytes_loop Parser_Init (pre @ buf) 0 = ParseBytes_loop p buf (length pre)"
    using frame.feed_append [of Parser_Init pre buf 0] Cons.prems(2) by simp
  show ?case
  proof (cases "length (pre @ buf) < length (ToString m)")
    case True
    obtain p' where p': "ParseBytes_loop Parser_Init (pre @ buf) 0 = (p', False, False, length (pre @ buf))"
      using feed_prefix_open [OF m _ True, of rest] stream by auto
    then have "ParseBytes_loop p buf (0 + length pre) = (p', False, False, length (pre @ buf))"
      using buf_feed by simp
    then obtain j where "ParseBytes_loop p buf 0 = (p', False, False, j)"
      using frame.feed_shift [of p buf 0 "length pre"] by (auto split: prod.splits)
    then have "processBuffer wr nh buf 0 p = (nh, p')" by (rule processBuffer_partial)
    with p' stream show ?thesis
      by (intro exI [of _ "[]"] exI [of _ "m # ms"] exI [of _ "pre @ buf"] exI [of _ p']) simp
  next
    case False
    define buf' where "buf' = drop (length (ToString m)) (pre @ buf)"
    have eq: "pre @ buf = ToString m @ buf'"
      using False stream by (metis append.assoc append_eq_conv_conj append_take_drop_id buf'_def
          linorder_not_less take_append take_all_iff append_Nil2 diff_is_0_eq take_0)
    have rest: "buf' @ rest = concat (map ToString ms)" using stream eq by (metis append.assoc same_append_eq)
    have "ParseBytes_loop p buf (0 + length pre) = (frame_parser m, True, False, length (ToString m))"
      using buf_feed feed_ToString [OF m, of buf'] eq by simp
    then obtain j where j: "ParseBytes_loop p buf 0 = (frame_parser m, True, False, j)" "j + length pre = length (ToString m)"
      using frame.feed_shift [of p buf 0 "length pre"] by (auto split: prod.splits)
    have "buf \<noteq> []" using j by auto
    moreover have "drop j buf = buf'" using eq j(2) buf'_def by (metis add.commute drop_append drop_all append_Nil diff_add_inverse2 le_add2)
    ultimately have step: "processBuffer wr nh buf 0 p = processBuffer wr (deliver wr nh m) buf' 0 Parser_Init"
      using processBuffer_done [OF j(1)] frame_parser_msg [of m] by (simp add: ResetParser_eq_Init)
    obtain ms1 ms2 pre' p' where "ms = ms1 @ ms2"
      "processBuffer wr (deliver wr nh m) buf' 0 Parser_Init = (foldl (deliver wr) (deliver wr nh m) ms1, p')"
      "ParseBytes_loop Parser_Init pre' 0 = (p', False, False, length pre')"
      "pre' @ rest = concat (map ToString ms2)"
      using Cons.IH [of "[]" Parser_Init buf' "deliver wr nh m"] Cons.prems(1) rest by auto
    with step show ?thesis
      by (intro exI [of _ "m # ms1"] exI [of _ ms2] exI [of _ pre'] exI [of _ p']) simp
  qed
qed

lemma readerLoop_stream:
  assumes "list_all frame_ok ms"
    and "ParseBytes_loop Parser_Init pre 0 = (p, False, False, length pre)"
    and "pre @ concat buffers = concat (map ToString ms)"
  shows "readerLoop wr nh p buffers = (foldl (deliver wr) nh ms, Parser_Init)"
  using assms
proof (induction buffers arbitrary: ms pre p nh)
  case Nil
  have "ms = []"
  proof (rule ccontr)
    assume "ms \<noteq> []"
    then obtain m ms' where m: "ms = m # ms'" by (cases ms) auto
    with Nil.prems have "pre = ToString m @ concat (map ToString ms')" "frame_ok m" by auto
    then show False using Nil.prems(2) feed_ToString [of m] by simp
  qed
  with Nil.prems show ?case by (simp add: readerLoop_def)
next
  case (Cons b bs)
  obtain ms1 ms2 pre' p' where r: "ms = ms1 @ ms2"
    "processBuffer wr nh b 0 p = (foldl (deliver wr) nh ms1, p')"
    "ParseBytes_loop Parser_Init pre' 0 = (p', False, False, length pre')"
    "pre' @ concat bs = concat (map ToString ms2)"
    using processBuffer_stream [OF Cons.prems(1,2), of b "concat bs" wr nh] Cons.prems(3) by auto
  have "readerLoop wr (foldl (deliver wr) nh ms1) p' bs = (foldl (deliver wr) (foldl (deliver wr) nh ms1) ms2, Parser_Init)"
    using Cons.prems(1) r by (intro Cons.IH) auto
  with r show ?case by (simp add: readerLoop_def)
qed

section \<open>Properties\<close>

lemma deliver_events:
  "list_all (\<lambda>m. msg_Code m \<noteq> ''PING'') ms \<Longrightarrow>
   eventChan (foldl (deliver wr) nh ms) = eventChan nh @ map NetMessage (filter (\<lambda>m. msg_Code m \<noteq> ''ALV!'') ms)
   \<and> aliveReceived (foldl (deliver wr) nh ms) = (aliveReceived nh \<or> (\<exists>m \<in> set ms. msg_Code m = ''ALV!''))
   \<and> conn_state (foldl (deliver wr) nh ms) = conn_state nh"
  by (induction ms arbitrary: nh) (auto simp: deliver_def emit_def chan_send_def)



text \<open>
  A keep-alive request of the server is answered: while connected, every \<open>PING\<close> that
  arrives in the stream is written back on the same connection, in order with the others, and
  reaches the game thread in no form.
\<close>

theorem PING_is_answered:
  assumes "conn_state nh = StateConnected" and "conn nh = Some c" and "\<forall>k. wr k"
  shows "readerLoop wr nh Parser_Init [concat (replicate n (ToString (net_msg ''PING'' [])))]
    = (nh\<lparr>written := written nh @ replicate n (c, ''PKRNPING'' @ [CHR 0x0A], True)\<rparr>, Parser_Init)"
proof -
  have one: "deliver wr x (net_msg ''PING'' []) = x\<lparr>written := written x @ [(c, ''PKRNPING'' @ [CHR 0x0A], True)]\<rparr>"
    if "conn_state x = StateConnected" "conn x = Some c" for x
    using that assms(3) by (simp add: deliver_def sendMessage_def Let_def ToString_def magicStr_def)
  have many: "conn_state x = StateConnected \<Longrightarrow> conn x = Some c \<Longrightarrow>
      foldl (deliver wr) x (replicate n (net_msg ''PING'' []))
      = x\<lparr>written := written x @ replicate n (c, ''PKRNPING'' @ [CHR 0x0A], True)\<rparr>" for x
    by (induction n arbitrary: x) (simp_all add: one)
  have "list_all frame_ok (replicate n (net_msg ''PING'' []))"
    by (simp add: list_all_iff frame_ok_def MSG_CODE_SIZE_def)
  then show ?thesis
    using readerLoop_stream [of "replicate n (net_msg ''PING'' [])" "[]" Parser_Init
        "[concat (replicate n (ToString (net_msg ''PING'' [])))]" wr nh] many [OF assms(1,2)]
    by (simp add: map_replicate_const [symmetric] map_replicate)
qed

lemma PING_is_answered_witness:
  "readerLoop (\<lambda>_. True) (Net_Init\<lparr>conn_state := StateConnected, conn := Some 0\<rparr>) Parser_Init
     [concat (replicate 2 (ToString (net_msg ''PING'' [])))]
   = ((Net_Init\<lparr>conn_state := StateConnected, conn := Some 0\<rparr>)
        \<lparr>written := written (Net_Init\<lparr>conn_state := StateConnected, conn := Some 0\<rparr>)
           @ replicate 2 (0, ''PKRNPING'' @ [CHR 0x0A], True)\<rparr>, Parser_Init)"
  by (rule PING_is_answered) simp_all

text \<open>
  Losing the connection is handled once: however many goroutines report the loss, and
  whatever the state before, the second report changes nothing, so at most one reconnect
  goroutine is started for one lost connection.
\<close>

theorem handleConnectionLost_once:
  "handleConnectionLost (handleConnectionLost nh) = handleConnectionLost nh
   \<and> length (workers (handleConnectionLost nh)) \<le> length (workers nh) + 1
   \<and> conn_state (handleConnectionLost nh) \<noteq> StateConnected"
  by (cases "conn_state nh") (simp_all add: handleConnectionLost_def setState_def disconnectInternal_def emit_def Let_def)

end
