(* ===== verification/NetRun.thy ===== *)
theory NetRun
  imports NetHandler
begin

text \<open>
  The network thread's goroutines at work: the step relation \<open>net_step\<close> of \<open>Run\<close>, the
  readers, the reconnect workers and the game thread's ends of the channels; its invariant,
  kept by every step (an interpretation of \<open>invariant_system\<close>); the reconnect loop as a
  whole against an arbitrary network (\<open>retry_loop\<close>), which returns after at most 31 rounds;
  and the keep-alive bookkeeping over a run of ticks.
\<close>

section \<open>Steps\<close>

text \<open>A worker that moves on, or leaves.\<close>

definition worker_next :: "nat \<Rightarrow> worker \<Rightarrow> NetHandler \<times> bool \<Rightarrow> NetHandler" where
  "worker_next i w r =
     (case r of (nh, go_on) \<Rightarrow>
        if go_on then nh\<lparr>workers := (workers nh)[i := w]\<rparr>
        else nh\<lparr>workers := take i (workers nh) @ drop (Suc i) (workers nh)\<rparr>)"

inductive net_step :: "(nat \<Rightarrow> bool) \<Rightarrow> NetHandler \<Rightarrow> NetHandler \<Rightarrow> bool" for wr where
  run_command: "\<not> shutdown nh \<Longrightarrow> chan_recv (commandChan nh) = Some (cmd, q) \<Longrightarrow>
    net_step wr nh (handleCommand dial_ok (nh\<lparr>commandChan := q\<rparr>) cmd)"
| run_message: "\<not> shutdown nh \<Longrightarrow> chan_recv (msgOutChan nh) = Some (m, q) \<Longrightarrow>
    net_step wr nh (fst (sendMessage wr (nh\<lparr>msgOutChan := q\<rparr>) m))"
| run_tick: "\<not> shutdown nh \<Longrightarrow> net_step wr nh (Run_tick wr nh)"
| run_cleanup: "shutdown nh \<Longrightarrow> net_step wr nh (disconnectInternal nh)"
| reader_data: "\<not> shutdown nh \<Longrightarrow> i < length (readers nh) \<Longrightarrow> readers nh ! i = (c, p) \<Longrightarrow>
    processBuffer wr nh bs 0 p = (nh', p') \<Longrightarrow>
    net_step wr nh (nh'\<lparr>readers := (readers nh)[i := (c, p')]\<rparr>)"
| reader_error: "i < length (readers nh) \<Longrightarrow>
    net_step wr nh ((handleConnectionLost nh)\<lparr>readers := take i (readers nh) @ drop (Suc i) (readers nh)\<rparr>)"
| reader_shutdown: "shutdown nh \<Longrightarrow> i < length (readers nh) \<Longrightarrow>
    net_step wr nh (nh\<lparr>readers := take i (readers nh) @ drop (Suc i) (readers nh)\<rparr>)"
| worker_enter: "i < length (workers nh) \<Longrightarrow> workers nh ! i = WStart \<Longrightarrow>
    net_step wr nh (worker_next i WDial (retry_enter True nh))"
| worker_dial: "i < length (workers nh) \<Longrightarrow> workers nh ! i = WDial \<Longrightarrow>
    net_step wr nh (worker_next i WWait (retry_iter True dial_ok nh))"
| worker_wait: "i < length (workers nh) \<Longrightarrow> workers nh ! i = WWait \<Longrightarrow>
    net_step wr nh (worker_next i WDial (retry_select take_command nh))"
| game_command: "net_step wr nh (SendCommand cmd nh)"
| game_message: "net_step wr nh (SendNetMsg m nh)"
| game_event: "chan_recv (eventChan nh) = Some (e, q) \<Longrightarrow> net_step wr nh (nh\<lparr>eventChan := q\<rparr>)"

section \<open>The invariant\<close>

definition event_ok :: "NetEvent \<Rightarrow> bool" where
  "event_ok e \<longleftrightarrow>
     (case e of NetReconnecting a m \<Rightarrow> 1 \<le> a \<and> a \<le> m \<and> m = reconnectMax
      | NetMessage msg \<Rightarrow> frame_ok msg \<and> msg_Code msg \<notin> {''ALV!'', ''PING''}
      | _ \<Rightarrow> True)"

definition net_inv :: "NetHandler \<Rightarrow> bool" where
  "net_inv nh \<longleftrightarrow>
     (conn_state nh = StateConnected \<and> \<not> shutdown nh \<longrightarrow> conn nh \<noteq> None)
     \<and> 0 \<le> rc_attempts nh
     \<and> list_all event_ok (eventChan nh)
     \<and> list_all (\<lambda>(c, p). parser_inv p \<and> c < dialled nh) (readers nh)
     \<and> (\<forall>c. conn nh = Some c \<longrightarrow> c < dialled nh)
     \<and> length (commandChan nh) \<le> chanBufSize \<and> length (msgOutChan nh) \<le> chanBufSize"

lemmas net_ops = emit_def disconnectInternal_def setConnection_def setState_def chan_send_def

lemma net_inv_Init: "net_inv Net_Init"
  by (simp add: net_inv_def Net_Init_def)

lemma net_inv_emit: "net_inv nh \<Longrightarrow> event_ok e \<Longrightarrow> net_inv (emit e nh)"
  by (simp add: net_inv_def net_ops)

lemma event_ok_simps [simp]:
  "event_ok NetConnecting" "event_ok NetConnected" "event_ok NetReconnected" "event_ok NetDisconnected"
  "event_ok (NetReconnecting a m) \<longleftrightarrow> 1 \<le> a \<and> a \<le> m \<and> m = reconnectMax"
  by (simp_all add: event_ok_def)

lemma handleConnectionLost_inv: "net_inv nh \<Longrightarrow> net_inv (handleConnectionLost nh)"
  by (auto simp: handleConnectionLost_def net_inv_def net_ops Let_def)

lemma handleConnectionLost_readers [simp]: "readers (handleConnectionLost nh) = readers nh"
  "dialled (handleConnectionLost nh) = dialled nh"
  by (simp_all add: handleConnectionLost_def net_ops Let_def)

lemma sendMessage_inv: "net_inv nh \<Longrightarrow> net_inv (fst (sendMessage wr nh m))"
proof -
  assume inv: "net_inv nh"
  have "net_inv (nh\<lparr>written := w\<rparr>)" for w using inv by (simp add: net_inv_def)
  with inv show ?thesis
    by (auto simp: sendMessage_def Let_def handleConnectionLost_inv split: option.splits)
qed

lemma sendMessage_readers [simp]: "readers (fst (sendMessage wr nh m)) = readers nh"
  "dialled (fst (sendMessage wr nh m)) = dialled nh"
  by (simp_all add: sendMessage_def Let_def split: option.splits)

lemma deliver_inv: "net_inv nh \<Longrightarrow> frame_ok m \<Longrightarrow> net_inv (deliver wr nh m)"
  by (auto simp: deliver_def sendMessage_inv event_ok_def intro!: net_inv_emit)
    (simp add: net_inv_def)

lemma deliver_readers [simp]: "readers (deliver wr nh m) = readers nh" "dialled (deliver wr nh m) = dialled nh"
  by (simp_all add: deliver_def net_ops)

lemma ParseBytes_invariant: "parser_inv p \<Longrightarrow> ParseBytes p bs = (p', r) \<Longrightarrow> parser_inv p'"
  by (auto simp: ParseBytes_def split: prod.splits dest: ParseBytes_loop_inv)

lemma ParseBytes_result_ok:
  assumes "parser_inv p" "ParseBytes p bs = (p', r)" "res_parser_done r"
  shows "frame_ok (net_msg (res_code r) (res_payload r))"
proof -
  obtain e j where l: "ParseBytes_loop p bs 0 = (p', True, e, j)"
    and r: "res_code r = code p'" "res_payload r = (if msg_type p' = PayloadMsg then payload p' else [])"
    using assms(2,3) by (auto simp: ParseBytes_def GetPayload_def split: prod.splits)
  have "parser_inv p'" "phase p' = Endline"
    using ParseBytes_loop_inv [OF assms(1) l] ParseBytes_loop_done [OF assms(1) l] by simp_all
  then show ?thesis using bytes_read_Endline [of p'] r by simp
qed

lemma processBuffer_inv:
  "net_inv nh \<Longrightarrow> parser_inv p \<Longrightarrow> processBuffer wr nh bs k p = (nh', p') \<Longrightarrow>
   net_inv nh' \<and> parser_inv p' \<and> readers nh' = readers nh \<and> dialled nh' = dialled nh"
proof (induction wr nh bs k p arbitrary: nh' p' rule: processBuffer.induct)
  case (1 wr nh bs k p)
  obtain q r where q: "ParseBytes p (drop k bs) = (q, r)" by (cases "ParseBytes p (drop k bs)")
  have inv: "parser_inv q" using ParseBytes_invariant [OF "1.prems"(2) q] .
  show ?case
  proof (cases "k < length bs")
    case False
    with "1.prems" show ?thesis by (simp add: processBuffer_unfold [of wr nh bs k p])
  next
    case True
    consider "res_Error r" | "\<not> res_Error r" "res_parser_done r" | "\<not> res_Error r" "\<not> res_parser_done r"
      by blast
    then show ?thesis
    proof cases
      case 1
      with True q inv "1.prems" show ?thesis
        by (auto simp: processBuffer_unfold [of wr nh bs k p] handleConnectionLost_inv)
    next
      case 2
      let ?m = "net_msg (res_code r) (res_payload r)"
      have "net_inv (deliver wr nh ?m)"
        using "1.prems"(1) ParseBytes_result_ok [OF "1.prems"(2) q 2(2)] by (rule deliver_inv)
      with 2 True q "1.prems" "1.IH"(1) [OF True q [symmetric] 2] show ?thesis
        by (auto simp: processBuffer_unfold [of wr nh bs k p])
    next
      case 3
      with True q inv "1.prems" "1.IH"(2) [OF True q [symmetric] 3] show ?thesis
        by (auto simp: processBuffer_unfold [of wr nh bs k p])
    qed
  qed
qed

lemma Run_tick_inv: "net_inv nh \<Longrightarrow> net_inv (Run_tick wr nh)"
proof -
  assume inv: "net_inv nh"
  have "net_inv (nh\<lparr>aliveMissed := a\<rparr>)" for a using inv by (simp add: net_inv_def)
  then have "net_inv (checkAlive nh)"
    using inv by (simp add: checkAlive_def Let_def handleConnectionLost_inv)
  then have "net_inv (clearAlive (checkAlive nh))" by (simp add: clearAlive_def net_inv_def)
  then show ?thesis using inv by (simp add: Run_tick_def sendAlive_def sendMessage_inv)
qed

lemma dial_success_inv: "net_inv nh \<Longrightarrow> net_inv (dial_success b nh)"
  by (auto simp: dial_success_def net_inv_def net_ops Let_def list_all_iff less_Suc_eq)

lemma retry_enter_inv: "net_inv nh \<Longrightarrow> conn_state nh \<noteq> StateConnected \<or> b \<Longrightarrow> net_inv (fst (retry_enter b nh))"
  by (auto simp: retry_enter_def net_inv_def net_ops Let_def)

lemma retry_iter_inv: "net_inv nh \<Longrightarrow> net_inv (fst (retry_iter b ok nh))"
proof -
  assume inv: "net_inv nh"
  have a: "net_inv (nh\<lparr>rc_attempts := rc_attempts nh + 1\<rparr>)" using inv by (simp add: net_inv_def)
  have d: "net_inv (emit NetDisconnected (setState StateDisconnected (disconnectInternal x)))"
    if "net_inv x" for x
    using that by (auto simp: net_inv_def net_ops)
  show ?thesis
    using inv a by (auto simp: retry_iter_def Let_def net_inv_def [of nh] intro!: d dial_success_inv net_inv_emit)
qed

lemma retry_select_inv: "net_inv nh \<Longrightarrow> net_inv (fst (retry_select b nh))"
  by (auto simp: retry_select_def net_inv_def net_ops chan_recv_def Let_def split: list.splits option.splits bool.splits NetCommand.splits)

lemma worker_next_inv: "net_inv (fst r) \<Longrightarrow> net_inv (worker_next i w r)"
  by (cases r) (auto simp: worker_next_def net_inv_def)

lemma handleCommand_inv: "net_inv nh \<Longrightarrow> net_inv (handleCommand ok nh cmd)"
proof (cases cmd)
  case (NetConnect host port)
  assume inv: "net_inv nh"
  let ?nh = "(emit NetConnecting (setState StateConnecting (nh\<lparr>userDisconnect := False\<rparr>)))
    \<lparr>rc_host := host, rc_port := port, rc_attempts := 0, rc_active := False\<rparr>"
  have s: "net_inv ?nh" "conn_state ?nh \<noteq> StateConnected"
    using inv by (auto simp: net_inv_def net_ops)
  have "net_inv (connect_first ok ?nh)"
    using retry_enter_inv [OF s(1), of False] s(2) retry_iter_inv [of "fst (retry_enter False ?nh)" False ok]
    by (auto simp: connect_first_def split: prod.splits bool.splits)
  moreover have "net_inv (nh\<lparr>userDisconnect := False\<rparr>)" using inv by (simp add: net_inv_def)
  ultimately show ?thesis using NetConnect by (simp add: handleCommand_def handleConnect_def)
next
  case NetDisconnect
  assume "net_inv nh"
  with NetDisconnect show ?thesis
    by (auto simp: handleCommand_def handleDisconnect_def net_inv_def net_ops)
next
  case NetShutdown
  assume "net_inv nh"
  with NetShutdown show ?thesis by (simp add: handleCommand_def net_inv_def)
qed

lemma net_inv_readers:
  "net_inv nh \<Longrightarrow> list_all (\<lambda>(c, p). parser_inv p \<and> c < dialled nh) rs \<Longrightarrow> net_inv (nh\<lparr>readers := rs\<rparr>)"
  by (simp add: net_inv_def)

lemma list_all_take: "list_all P xs \<Longrightarrow> list_all P (take i xs)"
  and list_all_drop: "list_all P xs \<Longrightarrow> list_all P (drop i xs)"
  by (auto simp: list_all_iff dest: in_set_takeD in_set_dropD)

lemmas list_all_delete = list_all_take list_all_drop

lemma list_all_update: "list_all P xs \<Longrightarrow> P x \<Longrightarrow> list_all P (xs[i := x])"
  by (auto simp: list_all_iff dest!: set_update_subset_insert [THEN subsetD])

lemma net_step_inv: "net_step wr s t \<Longrightarrow> net_inv s \<Longrightarrow> net_inv t"
proof (induction rule: net_step.induct)
  case (run_command nh cmd q dial_ok)
  then have "net_inv (nh\<lparr>commandChan := q\<rparr>)"
    by (auto simp: net_inv_def chan_recv_def split: list.splits)
  then show ?case by (rule handleCommand_inv)
next
  case (run_message nh m q)
  then have "net_inv (nh\<lparr>msgOutChan := q\<rparr>)"
    by (auto simp: net_inv_def chan_recv_def split: list.splits)
  then show ?case by (rule sendMessage_inv)
next
  case (run_tick nh)
  then show ?case by (simp add: Run_tick_inv)
next
  case (run_cleanup nh)
  then show ?case by (auto simp: net_inv_def net_ops)
next
  case (reader_data nh i c p bs nh' p')
  have p: "parser_inv p" "c < dialled nh"
    using reader_data.prems reader_data.hyps(2,3) by (auto simp: net_inv_def list_all_length)
  have r: "net_inv nh'" "parser_inv p'" "readers nh' = readers nh" "dialled nh' = dialled nh"
    using processBuffer_inv [OF reader_data.prems p(1) reader_data.hyps(4)] by simp_all
  with p reader_data.prems show ?case
    by (intro net_inv_readers) (auto simp: net_inv_def intro!: list_all_update)
next
  case (reader_error i nh)
  then show ?case
    by (intro net_inv_readers handleConnectionLost_inv) (auto simp: net_inv_def intro!: list_all_delete)
next
  case (reader_shutdown nh i)
  then show ?case
    by (intro net_inv_readers) (auto simp: net_inv_def intro!: list_all_delete)
next
  case (worker_enter i nh)
  then show ?case by (intro worker_next_inv retry_enter_inv) auto
next
  case (worker_dial i nh dial_ok)
  then show ?case by (intro worker_next_inv retry_iter_inv)
next
  case (worker_wait i nh take_command)
  then show ?case by (intro worker_next_inv retry_select_inv)
next
  case (game_command nh cmd)
  then show ?case by (auto simp: net_inv_def SendCommand_def chan_try_send_def)
next
  case (game_message nh m)
  then show ?case by (auto simp: net_inv_def SendNetMsg_def chan_try_send_def)
next
  case (game_event nh e q)
  then show ?case by (auto simp: net_inv_def chan_recv_def split: list.splits)
qed

interpretation net: invariant_system "net_step wr" net_inv for wr
  by unfold_locales (rule net_step_inv)

section \<open>The reconnect loop against any network\<close>

text \<open>
  \<open>connectWithRetry(host, port, true)\<close> run by one worker alone: the environment is a list of
  rounds, each with the outcome of the dial and whether a command is taken in the \<open>select\<close>.
  The flag says that the loop is still running when the list ends.
\<close>

fun retry_loop :: "(bool \<times> bool) list \<Rightarrow> NetHandler \<Rightarrow> NetHandler \<times> bool" where
  "retry_loop [] nh = (nh, True)"
| "retry_loop ((dial_ok, take_command) # rounds) nh =
     (case retry_iter True dial_ok nh of
        (nh, False) \<Rightarrow> (nh, False)
      | (nh, True) \<Rightarrow>
          (case retry_select take_command nh of
             (nh, False) \<Rightarrow> (nh, False)
           | (nh, True) \<Rightarrow> retry_loop rounds nh))"

definition connectWithRetry :: "(bool \<times> bool) list \<Rightarrow> NetHandler \<Rightarrow> NetHandler \<times> bool" where
  "connectWithRetry rounds nh =
     (case retry_enter True nh of
        (nh, False) \<Rightarrow> (nh, False)
      | (nh, True) \<Rightarrow> retry_loop rounds nh)"

lemma retry_iter_continues:
  assumes "retry_iter True dial_ok nh = (nh', True)"
  shows "rc_attempts nh' = rc_attempts nh + 1 \<and> rc_attempts nh' \<le> reconnectMax \<and> \<not> dial_ok"
  using assms by (auto simp: retry_iter_def Let_def net_ops split: if_splits)

lemma retry_select_attempts [simp]: "rc_attempts (fst (retry_select b nh)) = rc_attempts nh"
  by (auto simp: retry_select_def net_ops chan_recv_def Let_def split: list.splits option.splits bool.splits NetCommand.splits)

lemma retry_loop_bound:
  "snd (retry_loop rounds nh) \<Longrightarrow> rc_attempts nh + int (length rounds) \<le> max reconnectMax (rc_attempts nh)"
proof (induction rounds nh rule: retry_loop.induct)
  case (1 nh)
  then show ?case by simp
next
  case (2 dial_ok take_command rounds nh)
  obtain n1 b1 where i: "retry_iter True dial_ok nh = (n1, b1)" by (cases "retry_iter True dial_ok nh")
  with "2.prems" have b1: "b1" by (cases b1) auto
  obtain n2 b2 where s: "retry_select take_command n1 = (n2, b2)" by (cases "retry_select take_command n1")
  with "2.prems" i b1 have b2: "b2" by (cases b2) auto
  have a: "rc_attempts n1 = rc_attempts nh + 1" "rc_attempts n1 \<le> reconnectMax"
    using retry_iter_continues [of dial_ok nh n1] i b1 by simp_all
  have "rc_attempts n2 = rc_attempts n1" using retry_select_attempts [of take_command n1] s by simp
  moreover have "snd (retry_loop rounds n2)" using "2.prems" i s b1 b2 by simp
  ultimately show ?case using "2.IH" [OF i [symmetric]] b1 s b2 a by fastforce
qed

text \<open>One round that fails and waits for the timer.\<close>

lemma retry_iter_fail:
  assumes "\<not> shutdown nh" "rc_active nh" "rc_attempts nh < reconnectMax"
  shows "retry_iter True False nh =
    (nh\<lparr>rc_attempts := rc_attempts nh + 1,
        eventChan := eventChan nh @ [NetReconnecting (rc_attempts nh + 1) reconnectMax]\<rparr>, True)"
  using assms by (simp add: retry_iter_def net_ops Let_def)

lemma retry_select_timer [simp]: "retry_select False nh = (nh, True)"
  by (simp add: retry_select_def split: option.splits prod.splits)

lemma retry_loop_failures:
  "\<not> shutdown nh \<Longrightarrow> rc_active nh \<Longrightarrow> rc_attempts nh + int k \<le> reconnectMax \<Longrightarrow>
   retry_loop (replicate k (False, False) @ rounds) nh =
   retry_loop rounds (nh\<lparr>rc_attempts := rc_attempts nh + int k,
     eventChan := eventChan nh @ map (\<lambda>i. NetReconnecting (rc_attempts nh + int (Suc i)) reconnectMax) [0..<k]\<rparr>)"
proof (induction k arbitrary: nh)
  case 0
  then show ?case by simp
next
  case (Suc k)
  let ?nh = "nh\<lparr>rc_attempts := rc_attempts nh + 1,
        eventChan := eventChan nh @ [NetReconnecting (rc_attempts nh + 1) reconnectMax]\<rparr>"
  have "retry_loop (replicate (Suc k) (False, False) @ rounds) nh
      = retry_loop (replicate k (False, False) @ rounds) ?nh"
    using Suc.prems by (simp add: retry_iter_fail)
  moreover have "[NetReconnecting (rc_attempts nh + 1) reconnectMax]
      @ map (\<lambda>i. NetReconnecting (rc_attempts nh + 1 + int (Suc i)) reconnectMax) [0..<k]
      = map (\<lambda>i. NetReconnecting (rc_attempts nh + int (Suc i)) reconnectMax) [0..<Suc k]"
    by (simp only: map_upt_Suc) (simp add: algebra_simps)
  ultimately show ?case
    using Suc.IH [of ?nh] Suc.prems by (simp add: algebra_simps)
qed

section \<open>The keep-alive over a run of ticks\<close>

text \<open>
  One period of the ticker: whether an \<open>ALV!\<close> was read before the tick, and the tick.
\<close>

definition alive_period :: "(nat \<Rightarrow> bool) \<Rightarrow> NetHandler \<Rightarrow> bool \<Rightarrow> NetHandler" where
  "alive_period wr nh answered =
     Run_tick wr (if answered then deliver wr nh (net_msg ''ALV!'' []) else nh)"

definition alive_ready :: "NetHandler \<Rightarrow> bool" where
  "alive_ready nh \<longleftrightarrow> conn nh \<noteq> None \<and> \<not> userDisconnect nh \<and> rc_host nh \<noteq> [] \<and> rc_port nh \<noteq> []"

lemma alive_period_connected:
  assumes "\<forall>k. wr k" "alive_ready nh" "conn_state nh = StateConnected" "\<not> aliveReceived nh"
  shows "let nh' = alive_period wr nh answered; missed = aliveMissed nh + (if answered then 0 else 1) in
    (if missed < 2
     then conn_state nh' = StateConnected \<and> aliveMissed nh' = missed \<and> alive_ready nh' \<and> \<not> aliveReceived nh'
     else conn_state nh' = StateReconnecting)"
  using assms
  by (auto simp: alive_period_def Run_tick_def checkAlive_def clearAlive_def sendAlive_def sendMessage_def
      deliver_def handleConnectionLost_def alive_ready_def net_ops Let_def)

lemma alive_period_lost: "conn_state nh = StateReconnecting \<Longrightarrow> conn_state (alive_period wr nh a) = StateReconnecting"
  by (simp add: alive_period_def Run_tick_def deliver_def)

lemma alive_run_lost:
  "conn_state nh = StateReconnecting \<Longrightarrow> conn_state (foldl (alive_period wr) nh rs) = StateReconnecting"
  by (induction rs arbitrary: nh) (simp_all add: alive_period_lost)

lemma alive_run:
  assumes "\<forall>k. wr k"
  shows "alive_ready nh \<Longrightarrow> conn_state nh = StateConnected \<Longrightarrow> \<not> aliveReceived nh \<Longrightarrow> 0 \<le> aliveMissed nh \<Longrightarrow>
    aliveMissed nh < 2 \<Longrightarrow>
    conn_state (foldl (alive_period wr) nh answers) =
      (if aliveMissed nh + int (count_list answers False) < 2 then StateConnected else StateReconnecting)"
proof (induction answers arbitrary: nh)
  case Nil
  then show ?case by simp
next
  case (Cons a as)
  show ?case
  proof (cases "aliveMissed nh + (if a then 0 else 1) < 2")
    case True
    with Cons alive_period_connected [OF assms Cons.prems(1,2,3), of a] show ?thesis
      by (auto simp: Let_def algebra_simps)
  next
    case False
    with alive_period_connected [OF assms Cons.prems(1,2,3), of a] Cons.prems
    show ?thesis by (auto simp: Let_def alive_run_lost split: if_splits)
  qed
qed

section \<open>Properties\<close>





text \<open>
  C20. A server that stays away: when every dial fails and no command arrives, the reconnect
  goroutine announces the attempts 1 to 30 in order, then gives up with \<open>NetDisconnected\<close> and
  leaves the handler disconnected, without a connection.
\<close>

theorem reconnect_gives_up:
  assumes "\<not> shutdown nh" and "\<not> userDisconnect nh" and "rc_active nh" and "rc_attempts nh = 0"
  shows "(case connectWithRetry (replicate 31 (False, False)) nh of (nh', running) \<Rightarrow>
      \<not> running \<and> conn_state nh' = StateDisconnected \<and> conn nh' = None
      \<and> eventChan nh' = eventChan nh
          @ map (\<lambda>i. NetReconnecting (int (Suc i)) 30) [0..<30] @ [NetDisconnected])"
proof -
  let ?nh = "setState StateReconnecting nh"
  let ?final = "?nh\<lparr>rc_attempts := rc_attempts ?nh + int 30,
     eventChan := eventChan ?nh @ map (\<lambda>i. NetReconnecting (rc_attempts ?nh + int (Suc i)) reconnectMax) [0..<30]\<rparr>"
  have "retry_loop (replicate 30 (False, False) @ [(False, False)]) ?nh = retry_loop [(False, False)] ?final"
    using assms by (intro retry_loop_failures) (simp_all add: setState_def reconnectMax_def)
  moreover have "replicate 31 (False, False) = replicate 30 (False, False) @ [(False, False)]"
    using replicate_add [of 30 1 "(False, False)"] by simp
  moreover have "retry_loop [(False, False)] ?final =
      (emit NetDisconnected (setState StateDisconnected (disconnectInternal (?final\<lparr>rc_attempts := 31\<rparr>))), False)"
    using assms by (simp add: retry_iter_def setState_def reconnectMax_def Let_def)
  ultimately have "connectWithRetry (replicate 31 (False, False)) nh =
      (emit NetDisconnected (setState StateDisconnected (disconnectInternal (?final\<lparr>rc_attempts := 31\<rparr>))), False)"
    using assms by (simp add: connectWithRetry_def retry_enter_def setState_def Let_def)
  then show ?thesis using assms by (simp add: net_ops reconnectMax_def)
qed

lemma reconnect_gives_up_witness:
  "(case connectWithRetry (replicate 31 (False, False)) (Net_Init\<lparr>rc_active := True\<rparr>) of (nh', running) \<Rightarrow>
      \<not> running \<and> conn_state nh' = StateDisconnected \<and> conn nh' = None
      \<and> eventChan nh' = eventChan (Net_Init\<lparr>rc_active := True\<rparr>)
          @ map (\<lambda>i. NetReconnecting (int (Suc i)) 30) [0..<30] @ [NetDisconnected])"
  by (rule reconnect_gives_up) (simp_all add: Net_Init_def)

text \<open>
  C31. The keep-alive counts misses over the whole life of a connection: with a server that can
  be written to, a connection survives a run of ticks exactly when fewer than two of them in
  total went unanswered since it was opened, however many answers came in between.
\<close>

theorem keep_alive_total_misses:
  assumes "\<forall>k. wr k" and "alive_ready nh" and "conn_state nh = StateConnected"
    and "\<not> aliveReceived nh" and "aliveMissed nh = 0"
  shows "conn_state (foldl (alive_period wr) nh answers) =
    (if count_list answers False < 2 then StateConnected else StateReconnecting)"
  using alive_run [OF assms(1,2,3,4), of answers] assms(5) by (simp add: of_nat_less_iff [symmetric] del: of_nat_less_iff)

lemma keep_alive_total_misses_witness:
  "conn_state (foldl (alive_period (\<lambda>_. True))
     (Net_Init\<lparr>conn := Some 0, conn_state := StateConnected, rc_host := ''h'', rc_port := ''1''\<rparr>)
     [True, False, True, True, False])
   = (if count_list [True, False, True, True, False] False < 2 then StateConnected else StateReconnecting)"
  by (rule keep_alive_total_misses) (simp_all add: Net_Init_def alive_ready_def)

text \<open>
  While the reconnect goroutine waits, it takes commands from the same channel as the main
  loop and acts on \<open>NetDisconnect\<close> only: a \<open>NetShutdown\<close> or \<open>NetConnect\<close> it takes is lost,
  the loop goes on and the shutdown flag stays as it was.
\<close>

theorem reconnect_swallows_commands:
  "retry_select True (nh\<lparr>commandChan := NetShutdown # q\<rparr>) = (nh\<lparr>commandChan := q\<rparr>, True)
   \<and> retry_select True (nh\<lparr>commandChan := NetConnect host port # q\<rparr>) = (nh\<lparr>commandChan := q\<rparr>, True)
   \<and> (case retry_select True (nh\<lparr>commandChan := NetDisconnect # q\<rparr>) of (nh', go_on) \<Rightarrow>
        \<not> go_on \<and> conn_state nh' = StateDisconnected \<and> eventChan nh' = eventChan nh @ [NetDisconnected])"
  by (simp add: retry_select_def chan_recv_def net_ops)


end
