(* ===== verification/Components.thy ===== *)
theory Components
  imports GoLib Float32
begin

text \<open>
  The drawing components (\<open>sp/client/window\<close>): a tree of \<open>RGComponent\<close>s with the operations of
  the interface, one equation per component. \<open>Calculate\<close> lays a component out in a rectangle,
  \<open>Draw\<close> draws it and sends its events, \<open>Rebuild\<close> takes over from the component that stood in its
  place before. A method changes its receiver, so the function returns it.

  The drawing library is a parameter: \<open>Raylib\<close> says how it measures texts and what the user does
  to its buttons and text boxes in a frame; what the program draws is the list of calls
  \<open>DrawCall\<close>. A text box holds a pointer to a string of the game state, \<open>StrRef\<close> names it.
\<close>

section \<open>Data\<close>

record Rectangle =
  rect_X :: rat
  rect_Y :: rat
  rect_Width :: rat
  rect_Height :: rat

abbreviation Rect :: "rat \<Rightarrow> rat \<Rightarrow> rat \<Rightarrow> rat \<Rightarrow> Rectangle" where
  "Rect x y w h \<equiv> \<lparr>rect_X = x, rect_Y = y, rect_Width = w, rect_Height = h\<rparr>"

abbreviation zero_rect :: Rectangle where
  "zero_rect \<equiv> Rect 0 0 0 0"

text \<open>The colours of the library that the program names, and those it mixes itself.\<close>

datatype Color =
    rl_White | rl_RayWhite | rl_Black | rl_Gray | rl_DarkGray | rl_DarkBlue
  | rl_Red | rl_Gold | rl_Yellow | rl_Orange
  | NewColor int int int int

datatype EventType = EventClick | EventValueChange

record UIEvent =
  event_SourceID :: bytes
  event_Type :: EventType

datatype StrRef = Ref_Nickname | Ref_ChipsStr | Ref_ServerIP | Ref_ServerPort | Ref_BetAmount

datatype RGComponent =
    LabelComponent Rectangle bytes int Color
  | ButtonComponent Rectangle bytes bytes rat rat
  | TextBoxComponent Rectangle bytes StrRef int bool
  | PotDisplayComponent Rectangle int int int
  | PanelComponent Rectangle Color RGComponent
  | BoundsBox Rectangle rat rat RGComponent
  | CenterComponent Rectangle RGComponent
  | VStack Rectangle "RGComponent list" rat
  | HStack Rectangle "RGComponent list" rat
  | PlayerInfoComponent Rectangle bool RGComponent RGComponent
  | GameScreen Rectangle rat RGComponent RGComponent RGComponent RGComponent "RGComponent option"

section \<open>Construction\<close>

definition NewLabelComponent :: "bytes \<Rightarrow> int \<Rightarrow> Color \<Rightarrow> RGComponent" where
  "NewLabelComponent txt fontSize color = LabelComponent zero_rect txt fontSize color"

definition NewButtonComponent :: "bytes \<Rightarrow> bytes \<Rightarrow> rat \<Rightarrow> rat \<Rightarrow> RGComponent" where
  "NewButtonComponent i txt max_w max_h = ButtonComponent zero_rect i txt max_w max_h"

definition NewTextBoxComponent :: "bytes \<Rightarrow> StrRef \<Rightarrow> int \<Rightarrow> RGComponent" where
  "NewTextBoxComponent i ref maxChars = TextBoxComponent zero_rect i ref maxChars False"

definition NewPotDisplayComponent :: "int \<Rightarrow> int \<Rightarrow> int \<Rightarrow> RGComponent" where
  "NewPotDisplayComponent pot roundBet chips = PotDisplayComponent zero_rect pot roundBet chips"

definition NewPanelComponent :: "Color \<Rightarrow> RGComponent \<Rightarrow> RGComponent" where
  "NewPanelComponent color given_child = PanelComponent zero_rect color given_child"

definition NewBoundsBox :: "rat \<Rightarrow> rat \<Rightarrow> RGComponent \<Rightarrow> RGComponent" where
  "NewBoundsBox w_ratio h_ratio child = BoundsBox zero_rect w_ratio h_ratio child"

definition NewCenterComponent :: "RGComponent \<Rightarrow> RGComponent" where
  "NewCenterComponent given_child = CenterComponent zero_rect given_child"

definition NewVStack :: "rat \<Rightarrow> RGComponent" where
  "NewVStack padding = VStack zero_rect [] padding"

definition NewHStack :: "rat \<Rightarrow> RGComponent" where
  "NewHStack padding = HStack zero_rect [] padding"

fun AddChild :: "RGComponent \<Rightarrow> RGComponent \<Rightarrow> RGComponent" where
  "AddChild (VStack b cs padding) child = VStack b (cs @ [child]) padding"
| "AddChild (HStack b cs padding) child = HStack b (cs @ [child]) padding"
| "AddChild c child = c"

definition NewPlayerInfoComponent :: "bool \<Rightarrow> RGComponent" where
  "NewPlayerInfoComponent isMyTurn = PlayerInfoComponent zero_rect isMyTurn (NewVStack 2) (NewHStack 2)"

fun AddCard :: "RGComponent \<Rightarrow> RGComponent \<Rightarrow> RGComponent" where
  "AddCard (PlayerInfoComponent b t desc cards) crd = PlayerInfoComponent b t desc (AddChild cards crd)"
| "AddCard c crd = c"

fun AddDesc :: "RGComponent \<Rightarrow> RGComponent \<Rightarrow> RGComponent" where
  "AddDesc (PlayerInfoComponent b t desc cards) status = PlayerInfoComponent b t (AddChild desc status) cards"
| "AddDesc c status = c"

text \<open>
  A \<open>GameScreen\<close> embeds a stack, of which it uses the bounds and the padding only; its bars are in
  the order river, player, action, other players.
\<close>

definition NewGameScreen :: "rat \<Rightarrow> RGComponent" where
  "NewGameScreen padding =
     GameScreen zero_rect padding (NewHStack padding) (NewHStack padding) (NewHStack padding) (NewHStack padding) None"

fun AddRiverCard :: "RGComponent \<Rightarrow> RGComponent \<Rightarrow> RGComponent" where
  "AddRiverCard (GameScreen b p river player action others pot) crd =
     GameScreen b p (AddChild river crd) player action others pot"
| "AddRiverCard c crd = c"

fun ResetRiver :: "RGComponent \<Rightarrow> RGComponent" where
  "ResetRiver (GameScreen b p river player action others pot) =
     GameScreen b p (NewHStack p) player action others pot"
| "ResetRiver c = c"

fun AddPlayerCard :: "RGComponent \<Rightarrow> RGComponent \<Rightarrow> RGComponent" where
  "AddPlayerCard (GameScreen b p river player action others pot) crd =
     GameScreen b p river (AddChild player crd) action others pot"
| "AddPlayerCard c crd = c"

fun AddActionButton :: "RGComponent \<Rightarrow> RGComponent \<Rightarrow> RGComponent" where
  "AddActionButton (GameScreen b p river player action others pot) btn =
     GameScreen b p river player (AddChild action btn) others pot"
| "AddActionButton c btn = c"

fun ResetOtherPlayers :: "RGComponent \<Rightarrow> RGComponent" where
  "ResetOtherPlayers (GameScreen b p river player action others pot) =
     GameScreen b p river player action (NewHStack p) pot"
| "ResetOtherPlayers c = c"

fun AddOtherPlayer :: "RGComponent \<Rightarrow> RGComponent \<Rightarrow> RGComponent" where
  "AddOtherPlayer (GameScreen b p river player action others pot) info =
     GameScreen b p river player action (AddChild others info) pot"
| "AddOtherPlayer c info = c"

fun SetPotDisplay :: "RGComponent \<Rightarrow> RGComponent \<Rightarrow> RGComponent" where
  "SetPotDisplay (GameScreen b p river player action others pot) display =
     GameScreen b p river player action others (Some display)"
| "SetPotDisplay c display = c"

section \<open>Layout\<close>

definition fadd :: "rat \<Rightarrow> rat \<Rightarrow> rat" where "fadd a b = round32 (a + b)"
definition fsub :: "rat \<Rightarrow> rat \<Rightarrow> rat" where "fsub a b = round32 (a - b)"
definition fmul :: "rat \<Rightarrow> rat \<Rightarrow> rat" where "fmul a b = round32 (a * b)"
definition fdiv :: "rat \<Rightarrow> rat \<Rightarrow> rat" where "fdiv a b = round32 (a / b)"

definition float32_of_int :: "int \<Rightarrow> rat" where "float32_of_int n = round32 (of_int n)"

fun GetBounds :: "RGComponent \<Rightarrow> Rectangle" where
  "GetBounds (LabelComponent b _ _ _) = b"
| "GetBounds (ButtonComponent b _ _ _ _) = b"
| "GetBounds (TextBoxComponent b _ _ _ _) = b"
| "GetBounds (PotDisplayComponent b _ _ _) = b"
| "GetBounds (PanelComponent b _ _) = b"
| "GetBounds (BoundsBox b _ _ _) = b"
| "GetBounds (CenterComponent b _) = b"
| "GetBounds (VStack b _ _) = b"
| "GetBounds (HStack b _ _) = b"
| "GetBounds (PlayerInfoComponent b _ _ _) = b"
| "GetBounds (GameScreen b _ _ _ _ _ _) = b"

text \<open>\<open>ButtonComponent.Calculate\<close>.\<close>

definition button_bounds :: "Rectangle \<Rightarrow> rat \<Rightarrow> rat \<Rightarrow> Rectangle" where
  "button_bounds b max_width max_height =
     (let temp = (if rect_Width b > max_width then b\<lparr>rect_Width := max_width\<rparr> else b)
      in if rect_Height b > max_height then temp\<lparr>rect_Height := max_height\<rparr> else temp)"

text \<open>\<open>BoundsBox.Calculate\<close>: the rectangle of the child.\<close>

definition box_bounds :: "Rectangle \<Rightarrow> rat \<Rightarrow> rat \<Rightarrow> Rectangle" where
  "box_bounds b width_ratio height_ratio =
     (let innerWidth = fmul (rect_Width b) width_ratio;
          innerHeight = fmul (rect_Height b) height_ratio;
          innerX = fdiv (fsub (rect_Width b) innerWidth) 2;
          innerY = fdiv (fsub (rect_Height b) innerHeight) 2
      in Rect (fadd (rect_X b) innerX) (fadd (rect_Y b) innerY) innerWidth innerHeight)"

text \<open>\<open>CenterComponent.Calculate\<close>: the rectangle of the second pass, if there is one.\<close>

definition center_bounds :: "Rectangle \<Rightarrow> Rectangle \<Rightarrow> Rectangle \<times> bool" where
  "center_bounds b child_bounds =
     (let (nb, recalculate) =
            (if rect_Width child_bounds < rect_Width b then
               (b\<lparr>rect_X := fadd (rect_X b) (fdiv (fsub (rect_Width b) (rect_Width child_bounds)) 2),
                  rect_Width := rect_Width child_bounds\<rparr>, True)
             else (b, False))
      in if rect_Height child_bounds < rect_Height b then
           (nb\<lparr>rect_Y := fadd (rect_Y nb) (fdiv (fsub (rect_Height b) (rect_Height child_bounds)) 2),
               rect_Height := rect_Height child_bounds\<rparr>, True)
         else (nb, recalculate))"

text \<open>\<open>VStack.Calculate\<close> and \<open>HStack.Calculate\<close>: the size of a child along the stack.\<close>

definition stack_share :: "rat \<Rightarrow> rat \<Rightarrow> nat \<Rightarrow> rat" where
  "stack_share len padding n =
     (let childCount = float32_of_int (int n);
          inner = fsub len (fmul padding 2);
          totalPadding = fmul padding (fsub childCount 1);
          available = fsub inner totalPadding
      in fdiv available childCount)"

text \<open>\<open>GameScreen.Calculate\<close>: the height and the rectangle of the pot or a bar.\<close>

definition bar_height :: "Rectangle \<Rightarrow> rat \<Rightarrow> rat \<Rightarrow> rat" where
  "bar_height b padding ratio = fmul (fsub (rect_Height b) (fmul padding 6)) (round32 ratio)"

definition bar_bounds :: "Rectangle \<Rightarrow> rat \<Rightarrow> rat \<Rightarrow> rat \<Rightarrow> Rectangle" where
  "bar_bounds b padding y h =
     Rect (fadd (rect_X b) padding) y (fsub (rect_Width b) (fmul padding 2)) h"

text \<open>The pot, the river, the other players, the hand and the actions of the screen of a game.\<close>

definition screen_bounds :: "Rectangle \<Rightarrow> rat \<Rightarrow> bool \<Rightarrow> Rectangle \<times> Rectangle \<times> Rectangle \<times> Rectangle \<times> Rectangle" where
  [simp]: "screen_bounds b padding has_pot =
     (let y0 = fadd (rect_Y b) padding;
          h = bar_height b padding (13 / 100);
          riverH = bar_height b padding (15 / 100);
          oppH = bar_height b padding (35 / 100);
          handH = bar_height b padding (10 / 100);
          actionH = bar_height b padding (12 / 100);
          y1 = (if has_pot then fadd y0 (fadd h padding) else y0);
          y2 = fadd y1 (fadd riverH padding);
          y3 = fadd y2 (fadd oppH padding);
          y4 = fadd y3 (fadd handH padding)
      in (bar_bounds b padding y0 h, bar_bounds b padding y1 riverH, bar_bounds b padding y2 oppH,
          bar_bounds b padding y3 handH, bar_bounds b padding y4 actionH))"

text \<open>\<open>PlayerInfoComponent.Calculate\<close>: the upper half for the description, the lower for the cards.\<close>

definition info_bounds :: "Rectangle \<Rightarrow> Rectangle \<times> Rectangle" where
  [simp]: "info_bounds b =
     (let descBounds = b\<lparr>rect_Height := fdiv (rect_Height b) 2\<rparr>;
          cardBounds = b\<lparr>rect_Y := fadd (rect_Y b) (rect_Height descBounds), rect_Height := fdiv (rect_Height b) 2\<rparr>
      in (descBounds, cardBounds))"

fun comp_size :: "RGComponent \<Rightarrow> nat" where
  "comp_size (PanelComponent _ _ c) = Suc (comp_size c)"
| "comp_size (BoundsBox _ _ _ c) = Suc (comp_size c)"
| "comp_size (CenterComponent _ c) = Suc (comp_size c)"
| "comp_size (VStack _ cs _) = Suc (sum_list (map comp_size cs) + length cs)"
| "comp_size (HStack _ cs _) = Suc (sum_list (map comp_size cs) + length cs)"
| "comp_size (PlayerInfoComponent _ _ d c) = Suc (comp_size d + comp_size c)"
| "comp_size (GameScreen _ _ r p a t pot) =
     Suc (comp_size r + comp_size p + comp_size a + comp_size t + (case pot of None \<Rightarrow> 0 | Some c \<Rightarrow> comp_size c))"
| "comp_size _ = 0"

function Calculate :: "Rectangle \<Rightarrow> RGComponent \<Rightarrow> RGComponent"
  and Calculate_rows :: "rat \<Rightarrow> rat \<Rightarrow> rat \<Rightarrow> rat \<Rightarrow> rat \<Rightarrow> RGComponent list \<Rightarrow> RGComponent list"
  and Calculate_columns :: "rat \<Rightarrow> rat \<Rightarrow> rat \<Rightarrow> rat \<Rightarrow> rat \<Rightarrow> RGComponent list \<Rightarrow> RGComponent list" where
  "Calculate b (LabelComponent _ txt fontSize color) = LabelComponent b txt fontSize color"
| "Calculate b (ButtonComponent _ i txt max_width max_height) =
     ButtonComponent (button_bounds b max_width max_height) i txt max_width max_height"
| "Calculate b (TextBoxComponent _ i ref maxChars editMode) = TextBoxComponent b i ref maxChars editMode"
| "Calculate b (PotDisplayComponent _ pot roundBet chips) = PotDisplayComponent b pot roundBet chips"
| "Calculate b (PanelComponent _ color child) = PanelComponent b color (Calculate b child)"
| "Calculate b (BoundsBox _ width_ratio height_ratio child) =
     BoundsBox b width_ratio height_ratio (Calculate (box_bounds b width_ratio height_ratio) child)"
| "Calculate b (CenterComponent _ child) =
     (let child = Calculate b child;
          (new_bounds, recalculate) = center_bounds b (GetBounds child)
      in CenterComponent b (if recalculate then Calculate new_bounds child else child))"
| "Calculate b (VStack _ cs padding) =
     (if cs = [] then VStack b cs padding
      else VStack b
        (Calculate_rows (fadd (rect_X b) padding) (fadd (rect_Y b) padding)
           (fsub (rect_Width b) (fmul padding 2)) (stack_share (rect_Height b) padding (length cs)) padding cs)
        padding)"
| "Calculate b (HStack _ cs padding) =
     (if cs = [] then HStack b cs padding
      else HStack b
        (Calculate_columns (fadd (rect_X b) padding) (fadd (rect_Y b) padding)
           (stack_share (rect_Width b) padding (length cs)) (fsub (rect_Height b) (fmul padding 2)) padding cs)
        padding)"
| "Calculate b (PlayerInfoComponent _ t desc cards) =
     (let (descBounds, cardBounds) = info_bounds b
      in PlayerInfoComponent b t (Calculate descBounds desc) (Calculate cardBounds cards))"
| "Calculate b (GameScreen _ padding river player action others potDisplay) =
     (let (potB, riverB, othersB, handB, actionB) = screen_bounds b padding (potDisplay \<noteq> None)
      in GameScreen b padding (Calculate riverB river) (Calculate handB player) (Calculate actionB action)
           (Calculate othersB others)
           (case potDisplay of None \<Rightarrow> None | Some display \<Rightarrow> Some (Calculate potB display)))"
| "Calculate_rows innerX currentY childWidth childHeight padding [] = []"
| "Calculate_rows innerX currentY childWidth childHeight padding (child # cs) =
     Calculate (Rect innerX currentY childWidth childHeight) child
     # Calculate_rows innerX (fadd currentY (fadd childHeight padding)) childWidth childHeight padding cs"
| "Calculate_columns currentX innerY childWidth childHeight padding [] = []"
| "Calculate_columns currentX innerY childWidth childHeight padding (child # cs) =
     Calculate (Rect currentX innerY childWidth childHeight) child
     # Calculate_columns (fadd currentX (fadd childWidth padding)) innerY childWidth childHeight padding cs"
  by pat_completeness auto

termination
proof -
  let ?dom = Calculate_Calculate_rows_Calculate_columns_dom and ?size = "\<lambda>cs. sum_list (map comp_size cs)"
  have keep: "?dom (Inl (b, c)) \<Longrightarrow> comp_size (Calculate b c) = comp_size c"
    "?dom (Inr (Inl (x, y, w, h, p, cs))) \<Longrightarrow>
       length (Calculate_rows x y w h p cs) = length cs \<and> ?size (Calculate_rows x y w h p cs) = ?size cs"
    "?dom (Inr (Inr (x, y, w, h, p, cs))) \<Longrightarrow>
       length (Calculate_columns x y w h p cs) = length cs \<and> ?size (Calculate_columns x y w h p cs) = ?size cs"
    for b c x y w h p cs
    by (induction b c and x y w h p cs and x y w h p cs rule: Calculate_Calculate_rows_Calculate_columns.pinduct)
      (auto simp: Calculate.psimps Calculate_rows.psimps Calculate_columns.psimps Let_def split: prod.split option.split)
  show ?thesis
    by (relation "measure (\<lambda>x. case x of Inl (b, c) \<Rightarrow> comp_size c
        | Inr (Inl (_, _, _, _, _, cs)) \<Rightarrow> ?size cs + length cs
        | Inr (Inr (_, _, _, _, _, cs)) \<Rightarrow> ?size cs + length cs)")
      (auto simp: keep)
qed

section \<open>Taking over from the old tree\<close>

text \<open>
  An interface value that is nil is \<open>None\<close>. The type assertion on the old component is the case
  distinction; where the types differ, nothing is taken over.
\<close>

definition TextBox_Rebuild :: "bool \<Rightarrow> RGComponent option \<Rightarrow> bool" where
  [simp]: "TextBox_Rebuild editMode old =
     (case old of Some (TextBoxComponent _ _ _ _ oldMode) \<Rightarrow> oldMode | _ \<Rightarrow> editMode)"

fun Rebuild :: "RGComponent \<Rightarrow> RGComponent option \<Rightarrow> RGComponent"
  and Rebuild_children :: "RGComponent list \<Rightarrow> RGComponent list \<Rightarrow> RGComponent list" where
  "Rebuild (TextBoxComponent b i ref maxChars editMode) old =
     TextBoxComponent b i ref maxChars (TextBox_Rebuild editMode old)"
| "Rebuild (PanelComponent b color child) old =
     PanelComponent b color
       (case old of Some (PanelComponent _ _ oldChild) \<Rightarrow> Rebuild child (Some oldChild) | _ \<Rightarrow> child)"
| "Rebuild (BoundsBox b w h child) old =
     BoundsBox b w h
       (case old of Some (BoundsBox _ _ _ oldChild) \<Rightarrow> Rebuild child (Some oldChild) | _ \<Rightarrow> child)"
| "Rebuild (CenterComponent b child) old =
     CenterComponent b
       (case old of Some (CenterComponent _ oldChild) \<Rightarrow> Rebuild child (Some oldChild) | _ \<Rightarrow> child)"
| "Rebuild (VStack b cs padding) old =
     VStack b (case old of Some (VStack _ oldChildren _) \<Rightarrow> Rebuild_children cs oldChildren | _ \<Rightarrow> cs) padding"
| "Rebuild (HStack b cs padding) old =
     HStack b (case old of Some (HStack _ oldChildren _) \<Rightarrow> Rebuild_children cs oldChildren | _ \<Rightarrow> cs) padding"
| "Rebuild (GameScreen b p river player action others pot) old =
     GameScreen b p river player
       (case old of Some (GameScreen _ _ _ _ oldAction _ _) \<Rightarrow> Rebuild action (Some oldAction) | _ \<Rightarrow> action)
       others pot"
| "Rebuild (LabelComponent b txt fontSize color) old = LabelComponent b txt fontSize color"
| "Rebuild (ButtonComponent b i txt w h) old = ButtonComponent b i txt w h"
| "Rebuild (PotDisplayComponent b pot roundBet chips) old = PotDisplayComponent b pot roundBet chips"
| "Rebuild (PlayerInfoComponent b t desc cards) old = PlayerInfoComponent b t desc cards"
| "Rebuild_children (child # cs) (old # olds) = Rebuild child (Some old) # Rebuild_children cs olds"
| "Rebuild_children cs [] = cs"
| "Rebuild_children [] olds = []"

section \<open>Drawing\<close>

datatype DrawCall =
    DrawText bytes int int int Color
  | DrawTextEx bytes rat rat rat rat Color
  | DrawRectangleRec Rectangle Color
  | DrawRectangleLinesEx Rectangle rat Color
  | DrawFPS int int
  | ClearBackground Color

text \<open>
  What the library answers during one frame: the width of a text, the size of a text in the
  default font, whether a button is pressed, what a text box makes of its text and whether it
  reports a change, whether the left mouse button has been pressed and whether the mouse is in
  a rectangle.
\<close>

record Raylib =
  MeasureText :: "bytes \<Rightarrow> int \<Rightarrow> int"
  MeasureTextEx :: "bytes \<Rightarrow> rat \<Rightarrow> rat \<Rightarrow> rat \<times> rat"
  rg_Button :: "Rectangle \<Rightarrow> bytes \<Rightarrow> bool"
  rg_TextBox :: "Rectangle \<Rightarrow> bytes \<Rightarrow> int \<Rightarrow> bool \<Rightarrow> bytes \<times> bool"
  IsMouseButtonPressed :: bool
  CheckCollision :: "Rectangle \<Rightarrow> bool"

text \<open>What a drawing has done so far: its calls, the events it has sent, and the model strings.\<close>

record Frame =
  draw_calls :: "DrawCall list"
  eventChannel :: "UIEvent list"
  model_strings :: "StrRef \<Rightarrow> bytes"

definition int32 :: "rat \<Rightarrow> int" where
  "int32 x = (if 0 \<le> x then \<lfloor>x\<rfloor> else \<lceil>x\<rceil>)"

definition draw_call :: "DrawCall \<Rightarrow> Frame \<Rightarrow> Frame" where
  "draw_call d fr = fr\<lparr>draw_calls := draw_calls fr @ [d]\<rparr>"

definition send_event :: "bytes \<Rightarrow> EventType \<Rightarrow> Frame \<Rightarrow> Frame" where
  "send_event i ty fr = fr\<lparr>eventChannel := eventChannel fr @ [\<lparr>event_SourceID = i, event_Type = ty\<rparr>]\<rparr>"

definition Label_Draw :: "Raylib \<Rightarrow> Rectangle \<Rightarrow> bytes \<Rightarrow> int \<Rightarrow> Color \<Rightarrow> Frame \<Rightarrow> Frame" where
  "Label_Draw rl b txt fontSize color fr =
     (let textWidth = MeasureText rl txt fontSize;
          x = fadd (rect_X b) (fsub (fdiv (rect_Width b) 2) (fdiv (float32_of_int textWidth) 2));
          y = fadd (rect_Y b) (fsub (fdiv (rect_Height b) 2) (fdiv (float32_of_int fontSize) 2))
      in draw_call (DrawText txt (int32 x) (int32 y) fontSize color) fr)"

definition PotDisplay_Draw :: "Raylib \<Rightarrow> Rectangle \<Rightarrow> int \<Rightarrow> int \<Rightarrow> int \<Rightarrow> Frame \<Rightarrow> Frame" where
  "PotDisplay_Draw rl b pot roundBet chips fr =
     (let fr = draw_call (DrawRectangleRec b (NewColor 0 60 0 200)) fr;
          fr = draw_call (DrawRectangleLinesEx b 2 rl_Gold) fr;
          potText = ''Pot: '' @ fmt_d pot;
          roundText = ''Round: '' @ fmt_d roundBet;
          myChipsText = ''MyChips: '' @ fmt_d chips;
          y = fadd (rect_Y b) (fdiv (fsub (rect_Height b) 61) 2);
          centered = (\<lambda>w. int32 (fadd (rect_X b) (fdiv (fsub (rect_Width b) (float32_of_int w)) 2)));
          fr = draw_call (DrawText potText (centered (MeasureText rl potText 24)) (int32 y) 24 rl_Gold) fr;
          fr = draw_call (DrawText roundText (centered (MeasureText rl roundText 16)) (int32 (fadd y 29)) 16 rl_White) fr
      in draw_call (DrawText myChipsText (centered (MeasureText rl myChipsText 16)) (int32 (fadd y 50)) 16 rl_White) fr)"

definition Button_Draw :: "Raylib \<Rightarrow> Rectangle \<Rightarrow> bytes \<Rightarrow> bytes \<Rightarrow> Frame \<Rightarrow> Frame" where
  [simp]: "Button_Draw rl b i txt fr = (if rg_Button rl b txt then send_event i EventClick fr else fr)"

definition TextBox_Draw :: "Raylib \<Rightarrow> Rectangle \<Rightarrow> bytes \<Rightarrow> StrRef \<Rightarrow> int \<Rightarrow> bool \<Rightarrow> Frame \<Rightarrow> bool \<times> Frame" where
  [simp]: "TextBox_Draw rl b i ref maxChars editMode fr =
     (let editMode = (if IsMouseButtonPressed rl then CheckCollision rl b else editMode);
          (txt, changed) = rg_TextBox rl b (model_strings fr ref) maxChars editMode;
          fr = fr\<lparr>model_strings := (model_strings fr)(ref := txt)\<rparr>
      in (editMode, if changed then send_event i EventValueChange fr else fr))"

text \<open>What a panel and a player's info draw before their children.\<close>

definition Panel_Draw :: "Rectangle \<Rightarrow> Color \<Rightarrow> Frame \<Rightarrow> Frame" where
  [simp]: "Panel_Draw b color fr =
     (let fr = draw_call (DrawRectangleRec b color) fr in draw_call (DrawRectangleLinesEx b 1 rl_White) fr)"

definition PlayerInfo_Draw :: "Rectangle \<Rightarrow> bool \<Rightarrow> Frame \<Rightarrow> Frame" where
  [simp]: "PlayerInfo_Draw b isMyTurn fr =
     (if isMyTurn then
        (let fr = draw_call (DrawRectangleRec b (NewColor 120 30 30 180)) fr
         in draw_call (DrawRectangleLinesEx b 3 rl_Red) fr)
      else
        (let fr = draw_call (DrawRectangleRec b (NewColor 40 40 40 180)) fr
         in draw_call (DrawRectangleLinesEx b 1 rl_Gray) fr))"

fun Draw :: "Raylib \<Rightarrow> RGComponent \<Rightarrow> Frame \<Rightarrow> RGComponent \<times> Frame"
  and Draw_children :: "Raylib \<Rightarrow> RGComponent list \<Rightarrow> Frame \<Rightarrow> RGComponent list \<times> Frame" where
  "Draw rl (LabelComponent b txt fontSize color) fr =
     (LabelComponent b txt fontSize color, Label_Draw rl b txt fontSize color fr)"
| "Draw rl (ButtonComponent b i txt w h) fr =
     (ButtonComponent b i txt w h, Button_Draw rl b i txt fr)"
| "Draw rl (TextBoxComponent b i ref maxChars editMode) fr =
     (let (editMode, fr) = TextBox_Draw rl b i ref maxChars editMode fr
      in (TextBoxComponent b i ref maxChars editMode, fr))"
| "Draw rl (PotDisplayComponent b pot roundBet chips) fr =
     (PotDisplayComponent b pot roundBet chips, PotDisplay_Draw rl b pot roundBet chips fr)"
| "Draw rl (PanelComponent b color child) fr =
     (let (child, fr) = Draw rl child (Panel_Draw b color fr)
      in (PanelComponent b color child, fr))"
| "Draw rl (BoundsBox b w h child) fr = (let (child, fr) = Draw rl child fr in (BoundsBox b w h child, fr))"
| "Draw rl (CenterComponent b child) fr = (let (child, fr) = Draw rl child fr in (CenterComponent b child, fr))"
| "Draw rl (VStack b cs padding) fr = (let (cs, fr) = Draw_children rl cs fr in (VStack b cs padding, fr))"
| "Draw rl (HStack b cs padding) fr = (let (cs, fr) = Draw_children rl cs fr in (HStack b cs padding, fr))"
| "Draw rl (PlayerInfoComponent b t desc cards) fr =
     (let (cards, fr) = Draw rl cards (PlayerInfo_Draw b t fr);
          (desc, fr) = Draw rl desc fr
      in (PlayerInfoComponent b t desc cards, fr))"
| "Draw rl (GameScreen b padding river player action others pot) fr =
     (let (pot, fr) = (case pot of None \<Rightarrow> (None, fr)
                       | Some display \<Rightarrow> (let (display, fr) = Draw rl display fr in (Some display, fr)));
          (river, fr) = Draw rl river fr;
          (others, fr) = Draw rl others fr;
          (player, fr) = Draw rl player fr;
          (action, fr) = Draw rl action fr
      in (GameScreen b padding river player action others pot, fr))"
| "Draw_children rl [] fr = ([], fr)"
| "Draw_children rl (child # cs) fr =
     (let (child, fr) = Draw rl child fr; (cs, fr) = Draw_children rl cs fr in (child # cs, fr))"

section \<open>Popups\<close>

record TimedPopup =
  popup_bounds :: Rectangle
  popup_text :: bytes
  popup_color :: Color
  popup_duration :: int
  popup_startTime :: int

definition margin :: rat where "margin = 5"

definition NewTimedPopup :: "int \<Rightarrow> bytes \<Rightarrow> int \<Rightarrow> TimedPopup" where
  "NewTimedPopup now txt duration =
     \<lparr>popup_bounds = zero_rect, popup_text = txt, popup_color = NewColor 50 50 50 240,
      popup_duration = duration, popup_startTime = now\<rparr>"

definition TimedPopup_Update :: "int \<Rightarrow> TimedPopup \<Rightarrow> bool" where
  "TimedPopup_Update now p = (now - popup_startTime p < popup_duration p)"

definition TimedPopup_Calculate :: "Raylib \<Rightarrow> Rectangle \<Rightarrow> TimedPopup \<Rightarrow> TimedPopup" where
  "TimedPopup_Calculate rl screenBounds p =
     (let (w, h) = MeasureTextEx rl (popup_text p) 20 1
      in p\<lparr>popup_bounds := Rect (rect_X screenBounds) (rect_Y screenBounds)
             (fadd w (2 * margin)) (fadd h (2 * margin))\<rparr>)"

definition TimedPopup_Draw :: "TimedPopup \<Rightarrow> Frame \<Rightarrow> Frame" where
  "TimedPopup_Draw p fr =
     (let b = popup_bounds p;
          fr = draw_call (DrawRectangleRec b (popup_color p)) fr;
          fr = draw_call (DrawRectangleLinesEx b 3 rl_White) fr
      in draw_call (DrawTextEx (popup_text p) (fadd (rect_X b) margin) (fadd (rect_Y b) margin) 20 1 rl_White) fr)"


section \<open>Layout facts\<close>

lemma Calculate_length [simp]:
  "length (Calculate_rows x y w h p cs) = length cs" "length (Calculate_columns x y w h p cs) = length cs"
  by (induction cs arbitrary: x y) simp_all

lemma Calculate_empty [simp]:
  "Calculate_rows x y w h p cs = [] \<longleftrightarrow> cs = []" "Calculate_columns x y w h p cs = [] \<longleftrightarrow> cs = []"
  by (cases cs; simp)+

text \<open>Where the layout puts a component; only a button takes less than it is offered.\<close>

lemma GetBounds_Calculate:
  "GetBounds (Calculate b c) =
     (case c of ButtonComponent _ _ _ max_width max_height \<Rightarrow> button_bounds b max_width max_height | _ \<Rightarrow> b)"
  by (cases c) (simp_all add: Let_def split: prod.split)

text \<open>Only the last layout counts: what the bounds were before has no influence.\<close>

lemma Calculate_again:
  "Calculate b' (Calculate b c) = Calculate b' c"
  "Calculate_rows x' y' w' h' p' (Calculate_rows x y w h p cs) = Calculate_rows x' y' w' h' p' cs"
  "Calculate_columns x' y' w' h' p' (Calculate_columns x y w h p cs) = Calculate_columns x' y' w' h' p' cs"
  by (induction b c and x y w h p cs and x y w h p cs arbitrary: b' and x' y' w' h' p' and x' y' w' h' p'
      rule: Calculate_Calculate_rows_Calculate_columns.induct)
    (simp_all add: Let_def split: prod.split option.split)

text \<open>The position of the \<open>k\<close>-th child of a stack.\<close>

fun row_pos :: "rat \<Rightarrow> rat \<Rightarrow> nat \<Rightarrow> rat" where
  "row_pos y d 0 = y"
| "row_pos y d (Suc k) = fadd (row_pos y d k) d"

lemma row_pos_shift: "row_pos (fadd y d) d k = row_pos y d (Suc k)"
  by (induction k) simp_all

lemma Calculate_rows_nth:
  "k < length cs \<Longrightarrow> Calculate_rows x y w h p cs ! k = Calculate (Rect x (row_pos y (fadd h p) k) w h) (cs ! k)"
  by (induction cs arbitrary: y k) (auto simp: nth_Cons row_pos_shift simp del: row_pos.simps(2) split: nat.split)

lemma Calculate_columns_nth:
  "k < length cs \<Longrightarrow> Calculate_columns x y w h p cs ! k = Calculate (Rect (row_pos x (fadd w p) k) y w h) (cs ! k)"
  by (induction cs arbitrary: x k) (auto simp: nth_Cons row_pos_shift simp del: row_pos.simps(2) split: nat.split)

definition is_float :: "rat \<Rightarrow> bool" where
  "is_float x \<longleftrightarrow> round32 x = x"

lemma fadd_float [simp]: "is_float (fadd a b)" "is_float (fsub a b)" "is_float (fmul a b)" "is_float (fdiv a b)"
  by (simp_all add: is_float_def fadd_def fsub_def fmul_def fdiv_def float32.rnd_idem)

lemma fadd_grows: "is_float y \<Longrightarrow> 0 \<le> d \<Longrightarrow> y \<le> fadd y d"
  unfolding fadd_def is_float_def by (rule float32.below_rnd) simp_all

lemma fadd_nonneg: "0 \<le> a \<Longrightarrow> 0 \<le> b \<Longrightarrow> 0 \<le> fadd a b"
  unfolding fadd_def by (rule float32.rnd_nonneg) simp

lemma row_pos_float: "is_float y \<Longrightarrow> is_float (row_pos y d k)"
  by (cases k) simp_all

lemma row_pos_mono: "is_float y \<Longrightarrow> 0 \<le> d \<Longrightarrow> i \<le> j \<Longrightarrow> row_pos y d i \<le> row_pos y d j"
  by (rule lift_Suc_mono_le [of "row_pos y d"]) (auto intro!: fadd_grows row_pos_float)

text \<open>A child that is no longer than its share ends before the next one starts.\<close>

lemma rows_apart:
  assumes "is_float y" and "is_float h" and "0 \<le> h" and "0 \<le> p" and "i < j" and "len \<le> h"
  shows "fadd (row_pos y (fadd h p) i) len \<le> row_pos y (fadd h p) j"
proof -
  let ?y = "row_pos y (fadd h p)"
  have "fadd (?y i) len \<le> fadd (?y i) h"
    unfolding fadd_def using assms(6) by (intro float32.rnd_mono) simp
  also have "\<dots> \<le> ?y (Suc i)"
    using float32.step_past [of h p "?y i"] assms(2,4) by (simp add: fadd_def is_float_def)
  also have "\<dots> \<le> ?y j"
    using assms by (intro row_pos_mono) (simp_all add: fadd_nonneg)
  finally show ?thesis .
qed

lemma button_bounds_le:
  "rect_Width (button_bounds b mw mh) \<le> rect_Width b" "rect_Height (button_bounds b mw mh) \<le> rect_Height b"
  "rect_X (button_bounds b mw mh) = rect_X b" "rect_Y (button_bounds b mw mh) = rect_Y b"
  by (auto simp: button_bounds_def Let_def)

lemma GetBounds_within:
  "rect_Width (GetBounds (Calculate b c)) \<le> rect_Width b" "rect_Height (GetBounds (Calculate b c)) \<le> rect_Height b"
  "rect_X (GetBounds (Calculate b c)) = rect_X b" "rect_Y (GetBounds (Calculate b c)) = rect_Y b"
  by (auto simp: GetBounds_Calculate button_bounds_le split: RGComponent.split)

section \<open>Widgets\<close>

text \<open>The buttons and text boxes of a component, in the order they are drawn.\<close>

fun widgets :: "RGComponent \<Rightarrow> RGComponent list" where
  "widgets (LabelComponent _ _ _ _) = []"
| "widgets (ButtonComponent b i txt w h) = [ButtonComponent b i txt w h]"
| "widgets (TextBoxComponent b i ref maxChars editMode) = [TextBoxComponent b i ref maxChars editMode]"
| "widgets (PotDisplayComponent _ _ _ _) = []"
| "widgets (PanelComponent _ _ c) = widgets c"
| "widgets (BoundsBox _ _ _ c) = widgets c"
| "widgets (CenterComponent _ c) = widgets c"
| "widgets (VStack _ cs _) = concat (map widgets cs)"
| "widgets (HStack _ cs _) = concat (map widgets cs)"
| "widgets (PlayerInfoComponent _ _ desc cards) = widgets cards @ widgets desc"
| "widgets (GameScreen _ _ river player action others pot) =
     (case pot of None \<Rightarrow> [] | Some display \<Rightarrow> widgets display)
     @ widgets river @ widgets others @ widgets player @ widgets action"

fun widget_id :: "RGComponent \<Rightarrow> bytes" where
  "widget_id (ButtonComponent _ i _ _ _) = i"
| "widget_id (TextBoxComponent _ i _ _ _) = i"
| "widget_id _ = []"

abbreviation widget_ids :: "RGComponent \<Rightarrow> bytes list" where
  "widget_ids c \<equiv> map widget_id (widgets c)"

lemma Calculate_widget_ids:
  "widget_ids (Calculate b c) = widget_ids c"
  "concat (map widget_ids (Calculate_rows x y w h p cs)) = concat (map widget_ids cs)"
  "concat (map widget_ids (Calculate_columns x y w h p cs)) = concat (map widget_ids cs)"
  by (induction b c and x y w h p cs and x y w h p cs rule: Calculate_Calculate_rows_Calculate_columns.induct)
    (simp_all add: Let_def map_concat o_def split: prod.split option.split)

lemma Rebuild_widget_ids:
  "widget_ids (Rebuild c old) = widget_ids c"
  "concat (map widget_ids (Rebuild_children cs olds)) = concat (map widget_ids cs)"
  by (induction c old and cs olds rule: Rebuild_Rebuild_children.induct)
    (simp_all add: map_concat o_def split: option.split RGComponent.split)

text \<open>What drawing does to the events and the model strings is done by its widgets, in order.\<close>

fun widget_draw :: "Raylib \<Rightarrow> UIEvent list \<times> (StrRef \<Rightarrow> bytes) \<Rightarrow> RGComponent \<Rightarrow> UIEvent list \<times> (StrRef \<Rightarrow> bytes)" where
  "widget_draw rl (es, m) (ButtonComponent b i txt w h) =
     (if rg_Button rl b txt then es @ [\<lparr>event_SourceID = i, event_Type = EventClick\<rparr>] else es, m)"
| "widget_draw rl (es, m) (TextBoxComponent b i ref maxChars editMode) =
     (let mode = (if IsMouseButtonPressed rl then CheckCollision rl b else editMode);
          (txt, changed) = rg_TextBox rl b (m ref) maxChars mode
      in (if changed then es @ [\<lparr>event_SourceID = i, event_Type = EventValueChange\<rparr>] else es, m(ref := txt)))"
| "widget_draw rl em c = em"

abbreviation io :: "Frame \<Rightarrow> UIEvent list \<times> (StrRef \<Rightarrow> bytes)" where
  "io fr \<equiv> (eventChannel fr, model_strings fr)"

lemma io_draw_call [simp]: "eventChannel (draw_call d fr) = eventChannel fr" "model_strings (draw_call d fr) = model_strings fr"
  by (simp_all add: draw_call_def)

lemma Draw_widgets:
  "io (snd (Draw rl c fr)) = foldl (widget_draw rl) (io fr) (widgets c)"
  "io (snd (Draw_children rl cs fr)) = foldl (widget_draw rl) (io fr) (concat (map widgets cs))"
  by (induction rl c fr and rl cs fr rule: Draw_Draw_children.induct)
    (auto simp: Let_def Label_Draw_def PotDisplay_Draw_def send_event_def split: prod.splits option.splits)


lemma widget_draw_events:
  "\<exists>new. fst (widget_draw rl em w) = fst em @ new \<and> length new \<le> 1 \<and> (\<forall>e \<in> set new. event_SourceID e = widget_id w)"
  by (cases em; cases w) (auto simp: Let_def split: prod.split)

lemma widgets_draw_events:
  "\<exists>new. fst (foldl (widget_draw rl) em ws) = fst em @ new \<and> length new \<le> length ws
     \<and> event_SourceID ` set new \<subseteq> widget_id ` set ws"
proof (induction ws rule: rev_induct)
  case (snoc w ws)
  then obtain new where n: "fst (foldl (widget_draw rl) em ws) = fst em @ new" "length new \<le> length ws"
    "event_SourceID ` set new \<subseteq> widget_id ` set ws" by blast
  obtain more where "fst (widget_draw rl (foldl (widget_draw rl) em ws) w) = fst em @ new @ more" "length more \<le> 1"
    "\<forall>e \<in> set more. event_SourceID e = widget_id w"
    using widget_draw_events [of rl "foldl (widget_draw rl) em ws" w] n(1) by auto
  with n show ?case by (intro exI [of _ "new @ more"]) auto
qed simp

text \<open>A drawing sends at most one event per widget, each with the identifier of a widget.\<close>

lemma Draw_events:
  obtains new where "eventChannel (snd (Draw rl c fr)) = eventChannel fr @ new" "length new \<le> length (widgets c)"
    "event_SourceID ` set new \<subseteq> set (widget_ids c)"
proof -
  from widgets_draw_events [of rl "io fr" "widgets c"] obtain new where
    "fst (foldl (widget_draw rl) (io fr) (widgets c)) = eventChannel fr @ new" "length new \<le> length (widgets c)"
    "event_SourceID ` set new \<subseteq> widget_id ` set (widgets c)" by auto
  then show thesis by (intro that) (simp_all flip: Draw_widgets(1))
qed

text \<open>
  A user who presses the buttons with a given label and nothing else: the events are the
  clicks of these buttons, and no text changes.
\<close>

definition press :: "bytes \<Rightarrow> Raylib" where
  "press txt =
     \<lparr>MeasureText = (\<lambda>s n. n * int (length s)), MeasureTextEx = (\<lambda>s n p. (n * of_nat (length s), n)),
      rg_Button = (\<lambda>b s. s = txt), rg_TextBox = (\<lambda>b s n e. (s, False)),
      IsMouseButtonPressed = False, CheckCollision = (\<lambda>b. False)\<rparr>"

fun button_label :: "RGComponent \<Rightarrow> (bytes \<times> bytes) list" where
  "button_label (ButtonComponent _ i txt _ _) = [(i, txt)]"
| "button_label _ = []"

abbreviation button_labels :: "RGComponent \<Rightarrow> (bytes \<times> bytes) list" where
  "button_labels c \<equiv> concat (map button_label (widgets c))"

lemma concat_map_concat: "concat (map f (concat xss)) = concat (map (\<lambda>xs. concat (map f xs)) xss)"
  by (induction xss) simp_all

lemma Calculate_button_labels:
  "button_labels (Calculate b c) = button_labels c"
  "concat (map button_labels (Calculate_rows x y w h p cs)) = concat (map button_labels cs)"
  "concat (map button_labels (Calculate_columns x y w h p cs)) = concat (map button_labels cs)"
  by (induction b c and x y w h p cs and x y w h p cs rule: Calculate_Calculate_rows_Calculate_columns.induct)
    (simp_all add: Let_def concat_map_concat o_def split: prod.split option.split)

lemma press_widgets:
  "foldl (widget_draw (press txt)) (es, m) ws =
     (es @ map (\<lambda>(i, s). \<lparr>event_SourceID = i, event_Type = EventClick\<rparr>)
        (filter (\<lambda>(i, s). s = txt) (concat (map button_label ws))), m)"
proof (induction ws arbitrary: es)
  case (Cons w ws)
  then show ?case by (cases w) (auto simp: press_def Let_def)
qed simp

text \<open>Drawing changes nothing of a component but the edit modes of its text boxes, and so does \<open>Rebuild\<close>.\<close>

fun strip_modes :: "RGComponent \<Rightarrow> RGComponent" where
  "strip_modes (TextBoxComponent b i ref maxChars _) = TextBoxComponent b i ref maxChars False"
| "strip_modes (PanelComponent b color c) = PanelComponent b color (strip_modes c)"
| "strip_modes (BoundsBox b w h c) = BoundsBox b w h (strip_modes c)"
| "strip_modes (CenterComponent b c) = CenterComponent b (strip_modes c)"
| "strip_modes (VStack b cs padding) = VStack b (map strip_modes cs) padding"
| "strip_modes (HStack b cs padding) = HStack b (map strip_modes cs) padding"
| "strip_modes (PlayerInfoComponent b t desc cards) = PlayerInfoComponent b t (strip_modes desc) (strip_modes cards)"
| "strip_modes (GameScreen b padding river player action others pot) =
     GameScreen b padding (strip_modes river) (strip_modes player) (strip_modes action) (strip_modes others)
       (map_option strip_modes pot)"
| "strip_modes c = c"

lemma strip_modes_Draw:
  "strip_modes (fst (Draw rl c fr)) = strip_modes c"
  "map strip_modes (fst (Draw_children rl cs fr)) = map strip_modes cs"
  by (induction rl c fr and rl cs fr rule: Draw_Draw_children.induct)
    (auto simp: Let_def split: prod.splits option.splits)

lemma strip_modes_Rebuild:
  "strip_modes (Rebuild c old) = strip_modes c"
  "map strip_modes (Rebuild_children cs olds) = map strip_modes cs"
  by (induction c old and cs olds rule: Rebuild_Rebuild_children.induct)
    (simp_all split: option.split RGComponent.split)

fun edit_modes :: "RGComponent \<Rightarrow> bool list" where
  "edit_modes (TextBoxComponent _ _ _ _ editMode) = [editMode]"
| "edit_modes (PanelComponent _ _ c) = edit_modes c"
| "edit_modes (BoundsBox _ _ _ c) = edit_modes c"
| "edit_modes (CenterComponent _ c) = edit_modes c"
| "edit_modes (VStack _ cs _) = concat (map edit_modes cs)"
| "edit_modes (HStack _ cs _) = concat (map edit_modes cs)"
| "edit_modes (PlayerInfoComponent _ _ desc cards) = edit_modes cards @ edit_modes desc"
| "edit_modes (GameScreen _ _ river player action others pot) =
     (case pot of None \<Rightarrow> [] | Some display \<Rightarrow> edit_modes display)
     @ edit_modes river @ edit_modes others @ edit_modes player @ edit_modes action"
| "edit_modes _ = []"

text \<open>
  Two trees correspond when their text boxes stand in the same places of the containers that
  \<open>Rebuild\<close> descends into.
\<close>

definition no_text :: "RGComponent \<Rightarrow> bool" where
  "no_text c \<longleftrightarrow> edit_modes c = []"

fun same_places :: "RGComponent \<Rightarrow> RGComponent \<Rightarrow> bool"
  and same_places_all :: "RGComponent list \<Rightarrow> RGComponent list \<Rightarrow> bool" where
  "same_places (TextBoxComponent _ _ _ _ _) d = (case d of TextBoxComponent _ _ _ _ _ \<Rightarrow> True | _ \<Rightarrow> False)"
| "same_places (PanelComponent b color c) d =
     (case d of PanelComponent _ _ e \<Rightarrow> same_places c e | _ \<Rightarrow> no_text c \<and> no_text d)"
| "same_places (BoundsBox b w h c) d =
     (case d of BoundsBox _ _ _ e \<Rightarrow> same_places c e | _ \<Rightarrow> no_text c \<and> no_text d)"
| "same_places (CenterComponent b c) d =
     (case d of CenterComponent _ e \<Rightarrow> same_places c e | _ \<Rightarrow> no_text c \<and> no_text d)"
| "same_places (VStack b cs p) d =
     (case d of VStack _ ds _ \<Rightarrow> same_places_all cs ds | _ \<Rightarrow> list_all no_text cs \<and> no_text d)"
| "same_places (HStack b cs p) d =
     (case d of HStack _ ds _ \<Rightarrow> same_places_all cs ds | _ \<Rightarrow> list_all no_text cs \<and> no_text d)"
| "same_places (GameScreen b p river player action others pot) d =
     (case d of
        GameScreen _ _ river' player' action' others' pot' \<Rightarrow>
          same_places action action'
          \<and> list_all no_text [river, player, others, river', player', others']
          \<and> pred_option no_text pot \<and> pred_option no_text pot'
      | _ \<Rightarrow> no_text (GameScreen b p river player action others pot) \<and> no_text d)"
| "same_places (LabelComponent b txt s color) d = no_text d"
| "same_places (ButtonComponent b i txt w h) d = no_text d"
| "same_places (PotDisplayComponent b pot r chips) d = no_text d"
| "same_places (PlayerInfoComponent b t desc cards) d = (no_text desc \<and> no_text cards \<and> no_text d)"
| "same_places_all [] ds = list_all no_text ds"
| "same_places_all (c # cs) ds =
     (case ds of [] \<Rightarrow> list_all no_text (c # cs) | d # ds \<Rightarrow> same_places c d \<and> same_places_all cs ds)"

lemma Rebuild_no_children [simp]: "Rebuild_children [] ds = []"
  by (cases ds) simp_all

lemma no_text_all: "list_all no_text cs \<longleftrightarrow> (\<forall>c \<in> set cs. edit_modes c = [])"
  by (simp add: list_all_iff no_text_def)

lemma no_text_concat: "\<forall>c \<in> set cs. edit_modes c = [] \<Longrightarrow> concat (map edit_modes cs) = []"
  by simp

lemma edit_modes_Rebuild:
  "same_places c d \<Longrightarrow> edit_modes (Rebuild c (Some d)) = edit_modes d"
  "same_places_all cs ds \<Longrightarrow> concat (map edit_modes (Rebuild_children cs ds)) = concat (map edit_modes ds)"
  by (induction c d and cs ds rule: same_places_same_places_all.induct)
    (auto simp: no_text_def no_text_all no_text_concat pred_option_def
       split: RGComponent.splits option.splits list.splits)

section \<open>Properties\<close>

text \<open>
  C14. Layout is a function of the last rectangle: laying a component out again gives what laying
  out the fresh component there gives, whatever rectangles it was laid out in before, so the two
  passes of a centred component, and the frames drawn before, leave no trace; and a component
  never takes more than the rectangle it is given.
\<close>

theorem layout_has_no_history:
  "Calculate b (foldl (\<lambda>c b. Calculate b c) c bs) = Calculate b c
   \<and> rect_X (GetBounds (Calculate b c)) = rect_X b \<and> rect_Y (GetBounds (Calculate b c)) = rect_Y b
   \<and> rect_Width (GetBounds (Calculate b c)) \<le> rect_Width b \<and> rect_Height (GetBounds (Calculate b c)) \<le> rect_Height b"
proof -
  have "Calculate b (foldl (\<lambda>c b. Calculate b c) c bs) = Calculate b c"
    by (induction bs rule: rev_induct) (simp_all add: Calculate_again)
  then show ?thesis by (simp add: GetBounds_within)
qed

text \<open>
  C15. The children of a stack do not overlap, in the arithmetic of the machine: when a stack is
  laid out and its children's share is not negative, every child ends, rounding included, before
  or where each later child starts, so no two of them contain the same point of the screen by
  the library's test \<open>x <= p < x + length\<close>.
\<close>

theorem stack_children_do_not_overlap:
  assumes "i < j" and "j < length cs" and "0 \<le> padding"
    and "0 \<le> stack_share (rect_Height b) padding (length cs)" and "0 \<le> stack_share (rect_Width b) padding (length cs)"
  shows "(\<exists>ds. Calculate b (VStack b0 cs padding) = VStack b ds padding \<and> length ds = length cs
      \<and> fadd (rect_Y (GetBounds (ds ! i))) (rect_Height (GetBounds (ds ! i))) \<le> rect_Y (GetBounds (ds ! j)))
    \<and> (\<exists>ds. Calculate b (HStack b0 cs padding) = HStack b ds padding \<and> length ds = length cs
      \<and> fadd (rect_X (GetBounds (ds ! i))) (rect_Width (GetBounds (ds ! i))) \<le> rect_X (GetBounds (ds ! j)))"
proof -
  have "cs \<noteq> []" "i < length cs" using assms(1,2) by auto
  moreover have "is_float (stack_share len padding n)" for len n by (simp add: stack_share_def Let_def)
  ultimately show ?thesis using assms
    by (auto simp: Calculate_rows_nth Calculate_columns_nth GetBounds_within intro!: rows_apart intro: order_trans [OF GetBounds_within(1)] order_trans [OF GetBounds_within(2)])
qed

lemma stack_children_do_not_overlap_witness:
  "(\<exists>ds. Calculate (Rect 0 0 300 70) (VStack zero_rect [NewVStack 1, NewHStack 1] 10) = VStack (Rect 0 0 300 70) ds 10
      \<and> length ds = length [NewVStack 1, NewHStack 1]
      \<and> fadd (rect_Y (GetBounds (ds ! 0))) (rect_Height (GetBounds (ds ! 0))) \<le> rect_Y (GetBounds (ds ! 1)))
    \<and> (\<exists>ds. Calculate (Rect 0 0 300 70) (HStack zero_rect [NewVStack 1, NewHStack 1] 10) = HStack (Rect 0 0 300 70) ds 10
      \<and> length ds = length [NewVStack 1, NewHStack 1]
      \<and> fadd (rect_X (GetBounds (ds ! 0))) (rect_Width (GetBounds (ds ! 0))) \<le> rect_X (GetBounds (ds ! 1)))"
proof (rule stack_children_do_not_overlap)
  have "stack_share 70 10 2 = 20" "stack_share 300 10 2 = 135" by (simp_all add: stack_share_def Let_def float32_of_int_def fsub_def fmul_def fdiv_def)
  then have "stack_share 70 10 (Suc (Suc 0)) = 20" "stack_share 300 10 (Suc (Suc 0)) = 135"
    by (simp_all only: numeral_2_eq_2)
  then show "0 \<le> stack_share (rect_Height (Rect 0 0 300 70)) 10 (length [NewVStack 1, NewHStack 1])"
    "0 \<le> stack_share (rect_Width (Rect 0 0 300 70)) 10 (length [NewVStack 1, NewHStack 1])" by simp_all
qed simp_all

text \<open>
  C23. A rebuilt screen keeps the typing focus: \<open>Rebuild\<close> changes nothing of the new tree but the
  edit modes of its text boxes, and when the text boxes of the two trees stand in the same
  places, it takes all of them over from the old tree.
\<close>

theorem Rebuild_keeps_the_focus:
  assumes "same_places c old"
  shows "strip_modes (Rebuild c (Some old)) = strip_modes c \<and> edit_modes (Rebuild c (Some old)) = edit_modes old
    \<and> Rebuild c None = c"
proof -
  have "Rebuild c None = c" by (induction c) simp_all
  then show ?thesis by (simp add: strip_modes_Rebuild edit_modes_Rebuild(1) [OF assms])
qed

lemma Rebuild_keeps_the_focus_witness:
  "strip_modes (Rebuild (HStack zero_rect [NewButtonComponent ''Game_Bet'' ''Bet'' 100 50, NewTextBoxComponent ''Game_BetAmount'' Ref_BetAmount 6] 0)
      (Some (HStack zero_rect [NewButtonComponent ''Game_Bet'' ''Bet'' 100 50, TextBoxComponent zero_rect ''Game_BetAmount'' Ref_BetAmount 6 True] 0)))
    = strip_modes (HStack zero_rect [NewButtonComponent ''Game_Bet'' ''Bet'' 100 50, NewTextBoxComponent ''Game_BetAmount'' Ref_BetAmount 6] 0)
   \<and> edit_modes (Rebuild (HStack zero_rect [NewButtonComponent ''Game_Bet'' ''Bet'' 100 50, NewTextBoxComponent ''Game_BetAmount'' Ref_BetAmount 6] 0)
      (Some (HStack zero_rect [NewButtonComponent ''Game_Bet'' ''Bet'' 100 50, TextBoxComponent zero_rect ''Game_BetAmount'' Ref_BetAmount 6 True] 0)))
    = edit_modes (HStack zero_rect [NewButtonComponent ''Game_Bet'' ''Bet'' 100 50, TextBoxComponent zero_rect ''Game_BetAmount'' Ref_BetAmount 6 True] 0)
   \<and> Rebuild (HStack zero_rect [NewButtonComponent ''Game_Bet'' ''Bet'' 100 50, NewTextBoxComponent ''Game_BetAmount'' Ref_BetAmount 6] 0) None
    = HStack zero_rect [NewButtonComponent ''Game_Bet'' ''Bet'' 100 50, NewTextBoxComponent ''Game_BetAmount'' Ref_BetAmount 6] 0"
  by (rule Rebuild_keeps_the_focus)
    (simp add: no_text_def NewButtonComponent_def NewTextBoxComponent_def)

end
