(* ===== verification/GameData.thy ===== *)
theory GameData
  imports NetRun Components
begin

text \<open>
  The client's data (\<open>sp/client/src/Data.go\<close>), its small helpers (\<open>Helpers.go\<close>,
  \<open>TranslateCardID\<close> of \<open>StateMachine.go\<close>) and the popup list (\<open>PopupManager.go\<close>,
  \<open>window/Popup.go\<close>). \<open>ProgCtx\<close> is the context every handler works on. A nil slice and an empty slice behave alike in this code, so a slice is a
  list; a nil map is \<open>None\<close>. \<open>clock\<close> is what \<open>time.Now\<close> returns.
\<close>

section \<open>Data\<close>

datatype UIScreen =
    ScreenMainMenu
  | ScreenConnecting
  | ScreenReconnecting
  | ScreenWaitingForRooms
  | ScreenRoomSelect
  | ScreenInGame

record Room =
  room_ID :: int
  room_Name :: bytes
  CurrentPlayers :: int
  MaxPlayers :: int

record Card =
  card_ID :: int
  Symbol :: bytes
  Hidden :: bool

record PlayerData =
  ChipCount :: int
  RoundBet :: int
  TotalBet :: int
  Cards :: "Card list"
  IsMyTurn :: bool
  IsFolded :: bool
  IsReady :: bool
  ActionTaken :: bytes
  ActionAmount :: int

record PokerTable =
  Players :: "(bytes, PlayerData) gomap"
  CommunityCards :: "Card list"
  Pot :: int
  HighBet :: int
  RoundPhase :: bytes

record GameState =
  Screen :: UIScreen
  Rooms :: "(int, Room) gomap"
  IsConnecting :: bool
  Reconnected :: bool
  ServerIP :: bytes
  ServerPort :: bytes
  Nickname :: bytes
  ChipsStr :: bytes
  Table :: PokerTable
  BetAmount :: bytes
  Showdown :: bool

datatype UserInputEvent =
    EvtAcceptReconnect
  | EvtDeclineReconnect
  | EvtRefreshRooms
  | EvtCancelConnect
  | EvtQuit
  | EvtBackToMain
  | EvtGameAction (Action: bytes) (Amount: bytes)
  | EvtConnect (evt_Host: bytes) (evt_Port: bytes)
  | EvtRoomJoin (RoomID: bytes)

text \<open>
  A screen of the user interface; a component that is nil is \<open>None\<close>. \<open>UIStore\<close> holds the component
  trees by their values: the only other holders of the pointers are the elements of one frame,
  which name the field of the store they come from (\<open>MainLoop\<close>).
\<close>

record UIElement =
  elem_dirty :: bool
  elem_component :: "RGComponent option"

record UIStore =
  ui_MainMenu :: UIElement
  ui_Connecting :: UIElement
  ui_Reconnecting :: UIElement
  ui_RoomSelect :: UIElement
  ui_Game :: UIElement

text \<open>The fields of the store, as places that hold an element.\<close>

datatype ui_slot = Slot_MainMenu | Slot_Connecting | Slot_Reconnecting | Slot_RoomSelect | Slot_Game

fun slot_element :: "ui_slot \<Rightarrow> UIStore \<Rightarrow> UIElement" where
  "slot_element Slot_MainMenu store = ui_MainMenu store"
| "slot_element Slot_Connecting store = ui_Connecting store"
| "slot_element Slot_Reconnecting store = ui_Reconnecting store"
| "slot_element Slot_RoomSelect store = ui_RoomSelect store"
| "slot_element Slot_Game store = ui_Game store"

record ProgCtx =
  State :: GameState
  UserInputChan :: "UserInputEvent list"
  DoneChan :: "bool list"
  net_handler :: NetHandler
  ShouldClose :: bool
  UI :: UIStore
  Popup :: "TimedPopup list"
  clock :: int

section \<open>Helpers\<close>

definition ranks :: "bytes list" where
  "ranks = [''2'', ''3'', ''4'', ''5'', ''6'', ''7'', ''8'', ''9'', ''10'', ''Jack'', ''Queen'', ''King'', ''Ace'']"

definition suits :: "bytes list" where
  "suits = [''Hearts'', ''Diamonds'', ''Clubs'', ''Spades'']"

definition TranslateCardID :: "int \<Rightarrow> bytes" where
  "TranslateCardID cid =
     (if cid < 0 \<or> cid > 51 then ''??''
      else
        let suitIdx = nat (cid div 13); rankIdx = nat (cid mod 13)
        in if length suits \<le> suitIdx then ''??''
           else ranks ! rankIdx @ '' of '' @ suits ! suitIdx)"

definition actionIntToString :: "int \<Rightarrow> bytes" where
  "actionIntToString action =
     (if action = 0 then ''NONE''
      else if action = 1 then ''CHCK''
      else if action = 2 then ''CALL''
      else if action = 3 then ''FOLD''
      else if action = 4 then ''BETT''
      else if action = 5 then ''LEFT''
      else ''UNKNOWN'')"

definition SetDirty :: "UIStore \<Rightarrow> UIStore" where
  "SetDirty store =
     store\<lparr>ui_MainMenu := (ui_MainMenu store)\<lparr>elem_dirty := True\<rparr>,
           ui_Connecting := (ui_Connecting store)\<lparr>elem_dirty := True\<rparr>,
           ui_Game := (ui_Game store)\<lparr>elem_dirty := True\<rparr>\<rparr>"

section \<open>Popups\<close>

definition time_Second :: int where
  "time_Second = 1000000000"

definition PopupManager_Update :: "int \<Rightarrow> TimedPopup list \<Rightarrow> TimedPopup list" where
  "PopupManager_Update now activePopups = filter (TimedPopup_Update now) activePopups"

text \<open>\<open>PopupManager.Calculate\<close> stacks the popups below each other.\<close>

fun PopupManager_Calculate :: "Raylib \<Rightarrow> Rectangle \<Rightarrow> TimedPopup list \<Rightarrow> TimedPopup list" where
  "PopupManager_Calculate rl cur_bounds [] = []"
| "PopupManager_Calculate rl cur_bounds (popup # ps) =
     (let popup = TimedPopup_Calculate rl cur_bounds popup;
          h = rect_Height (popup_bounds popup)
      in popup # PopupManager_Calculate rl
           (cur_bounds\<lparr>rect_Y := fadd (rect_Y cur_bounds) (fadd h 5)\<rparr>) ps)"

definition PopupManager_Draw :: "TimedPopup list \<Rightarrow> Frame \<Rightarrow> Frame" where
  "PopupManager_Draw activePopups fr = foldl (\<lambda>fr p. TimedPopup_Draw p fr) fr activePopups"

section \<open>Actions on the context\<close>

definition set_state :: "(GameState \<Rightarrow> GameState) \<Rightarrow> ProgCtx \<Rightarrow> ProgCtx" where
  "set_state f ctx = ctx\<lparr>State := f (State ctx)\<rparr>"

definition set_table :: "(PokerTable \<Rightarrow> PokerTable) \<Rightarrow> ProgCtx \<Rightarrow> ProgCtx" where
  "set_table f ctx = set_state (\<lambda>s. s\<lparr>Table := f (Table s)\<rparr>) ctx"

definition set_screen :: "UIScreen \<Rightarrow> ProgCtx \<Rightarrow> ProgCtx" where
  "set_screen scr ctx = set_state (\<lambda>s. s\<lparr>Screen := scr\<rparr>) ctx"

definition AddPopup :: "bytes \<Rightarrow> int \<Rightarrow> ProgCtx \<Rightarrow> ProgCtx" where
  "AddPopup text duration ctx = ctx\<lparr>Popup := Popup ctx @ [NewTimedPopup (clock ctx) text duration]\<rparr>"

definition ctx_SendCommand :: "NetCommand \<Rightarrow> ProgCtx \<Rightarrow> ProgCtx" where
  "ctx_SendCommand cmd ctx = ctx\<lparr>net_handler := SendCommand cmd (net_handler ctx)\<rparr>"

definition ctx_SendNetMsg :: "bytes \<Rightarrow> bytes \<Rightarrow> ProgCtx \<Rightarrow> ProgCtx" where
  "ctx_SendNetMsg c p ctx = ctx\<lparr>net_handler := SendNetMsg (net_msg c p) (net_handler ctx)\<rparr>"

definition ctx_SetDirty :: "ProgCtx \<Rightarrow> ProgCtx" where
  "ctx_SetDirty ctx = ctx\<lparr>UI := SetDirty (UI ctx)\<rparr>"

text \<open>The table's players: the zero value a missing entry reads as, reads and writes.\<close>

definition zero_player :: PlayerData where
  "zero_player =
     \<lparr>ChipCount = 0, RoundBet = 0, TotalBet = 0, Cards = [], IsMyTurn = False, IsFolded = False,
      IsReady = False, ActionTaken = [], ActionAmount = 0\<rparr>"

definition ctx_players :: "ProgCtx \<Rightarrow> (bytes, PlayerData) gomap" where
  "ctx_players ctx = Players (Table (State ctx))"

definition lookup_player :: "ProgCtx \<Rightarrow> bytes \<Rightarrow> PlayerData option" where
  "lookup_player ctx nick = map_get (ctx_players ctx) nick"

definition read_player :: "ProgCtx \<Rightarrow> bytes \<Rightarrow> PlayerData" where
  "read_player ctx nick = (case lookup_player ctx nick of None \<Rightarrow> zero_player | Some d \<Rightarrow> d)"

definition put_player :: "bytes \<Rightarrow> PlayerData \<Rightarrow> ProgCtx \<Rightarrow> ProgCtx go" where
  "put_player nick d ctx = do {
     m \<leftarrow> map_put (ctx_players ctx) nick d;
     Some (set_table (\<lambda>t. t\<lparr>Players := m\<rparr>) ctx)
   }"

definition each_player :: "(bytes \<Rightarrow> PlayerData \<Rightarrow> PlayerData) \<Rightarrow> ProgCtx \<Rightarrow> ProgCtx" where
  "each_player f ctx = set_table (\<lambda>t. t\<lparr>Players := map_each f (Players t)\<rparr>) ctx"

definition delete_player :: "bytes \<Rightarrow> ProgCtx \<Rightarrow> ProgCtx" where
  "delete_player nick ctx = set_table (\<lambda>t. t\<lparr>Players := map_delete (Players t) nick\<rparr>) ctx"

abbreviation nickname :: "ProgCtx \<Rightarrow> bytes" where
  "nickname ctx \<equiv> Nickname (State ctx)"

section \<open>What the actions keep\<close>

lemmas ctx_defs = set_state_def set_table_def set_screen_def AddPopup_def ctx_SendCommand_def
  ctx_SendNetMsg_def ctx_SetDirty_def ctx_players_def delete_player_def each_player_def

lemma players_frame [simp]:
  "ctx_players (set_screen scr ctx) = ctx_players ctx"
  "ctx_players (AddPopup txt d ctx) = ctx_players ctx"
  "ctx_players (ctx_SendCommand cmd ctx) = ctx_players ctx"
  "ctx_players (ctx_SendNetMsg c p ctx) = ctx_players ctx"
  "ctx_players (ctx_SetDirty ctx) = ctx_players ctx"
  by (simp_all add: ctx_defs)

lemma state_frame [simp]:
  "State (AddPopup txt d ctx) = State ctx"
  "State (ctx_SendCommand cmd ctx) = State ctx"
  "State (ctx_SendNetMsg c p ctx) = State ctx"
  "State (ctx_SetDirty ctx) = State ctx"
  "State (set_state f ctx) = f (State ctx)"
  "State (set_table g ctx) = (State ctx)\<lparr>Table := g (Table (State ctx))\<rparr>"
  "State (set_screen scr ctx) = (State ctx)\<lparr>Screen := scr\<rparr>"
  by (simp_all add: ctx_defs)

lemma players_set_table [simp]: "ctx_players (set_table f ctx) = Players (f (Table (State ctx)))"
  by (simp add: ctx_defs)

lemma players_each [simp]: "ctx_players (each_player f ctx) = map_each f (ctx_players ctx)"
  by (simp add: ctx_defs)

lemma players_delete [simp]: "ctx_players (delete_player k ctx) = map_delete (ctx_players ctx) k"
  by (simp add: ctx_defs)

lemma lookup_frame [simp]:
  "lookup_player (set_screen scr ctx) k = lookup_player ctx k"
  "lookup_player (AddPopup txt d ctx) k = lookup_player ctx k"
  "lookup_player (ctx_SendCommand cmd ctx) k = lookup_player ctx k"
  "lookup_player (ctx_SendNetMsg c p ctx) k = lookup_player ctx k"
  "lookup_player (ctx_SetDirty ctx) k = lookup_player ctx k"
  "lookup_player (each_player f ctx) k = map_option (f k) (lookup_player ctx k)"
  "lookup_player (delete_player n ctx) k = (if k = n then None else lookup_player ctx k)"
  by (simp_all add: lookup_player_def)

lemma put_player_None_iff [simp]: "put_player nick d ctx = None \<longleftrightarrow> ctx_players ctx = None"
  by (simp add: put_player_def bind_None_iff)

lemma put_player_Some:
  "put_player nick d ctx = Some ctx' \<Longrightarrow>
     (\<exists>m. map_put (ctx_players ctx) nick d = Some m \<and> ctx' = set_table (\<lambda>t. t\<lparr>Players := m\<rparr>) ctx)"
  by (auto simp: put_player_def bind_Some_iff)

lemma put_player_nonnil: "ctx_players ctx \<noteq> None \<Longrightarrow>
  \<exists>m. put_player nick d ctx = Some (set_table (\<lambda>t. t\<lparr>Players := Some m\<rparr>) ctx)
    \<and> (\<forall>k. m k = (if k = nick then Some d else lookup_player ctx k))"
  by (auto simp: put_player_def map_put_def lookup_player_def map_get_def)

lemma put_player_lookup: "put_player nick d ctx = Some ctx' \<Longrightarrow>
  lookup_player ctx' k = (if k = nick then Some d else lookup_player ctx k)"
  by (auto dest!: put_player_Some simp: lookup_player_def map_get_put)

section \<open>What a handler may change\<close>

text \<open>No handler replaces a component of the interface or clears a dirty flag.\<close>

definition ui_grows :: "UIStore \<Rightarrow> UIStore \<Rightarrow> bool" where
  "ui_grows u v \<longleftrightarrow>
     (\<forall>sl. elem_component (slot_element sl v) = elem_component (slot_element sl u)
        \<and> (elem_dirty (slot_element sl u) \<longrightarrow> elem_dirty (slot_element sl v)))"

lemma ui_grows_refl [simp, intro]: "ui_grows u u"
  by (simp add: ui_grows_def)

lemma ui_grows_trans [trans]: "ui_grows u v \<Longrightarrow> ui_grows v w \<Longrightarrow> ui_grows u w"
  by (simp add: ui_grows_def)

lemma slot_SetDirty [simp]:
  "elem_component (slot_element sl (SetDirty u)) = elem_component (slot_element sl u)"
  "elem_dirty (slot_element sl u) \<Longrightarrow> elem_dirty (slot_element sl (SetDirty u))"
  by (cases sl; simp add: SetDirty_def)+

lemma ui_grows_SetDirty [simp]: "ui_grows u v \<Longrightarrow> ui_grows u (SetDirty v)"
  by (simp add: ui_grows_def)

text \<open>
  The frame of a handler that does not switch screens: the screen, the nickname, the input
  channel and the close flag stay; a map that was made stays made; the network handler's
  invariant stays.
\<close>

definition keeps :: "ProgCtx \<Rightarrow> ProgCtx \<Rightarrow> bool" where
  "keeps ctx ctx' \<longleftrightarrow>
     Screen (State ctx') = Screen (State ctx) \<and> nickname ctx' = nickname ctx
     \<and> UserInputChan ctx' = UserInputChan ctx \<and> ShouldClose ctx' = ShouldClose ctx
     \<and> (ctx_players ctx \<noteq> None \<longrightarrow> ctx_players ctx' \<noteq> None)
     \<and> (Rooms (State ctx) \<noteq> None \<longrightarrow> Rooms (State ctx') \<noteq> None)
     \<and> (net_inv (net_handler ctx) \<longrightarrow> net_inv (net_handler ctx'))
     \<and> ui_grows (UI ctx) (UI ctx')"

lemma keeps_refl [simp, intro]: "keeps ctx ctx"
  by (simp add: keeps_def)

lemma keeps_trans [trans]: "keeps a b \<Longrightarrow> keeps b c \<Longrightarrow> keeps a c"
  by (auto simp: keeps_def intro: ui_grows_trans)

lemma SendCommand_inv [simp]: "net_inv nh \<Longrightarrow> net_inv (SendCommand cmd nh)"
  by (rule net_step_inv [OF net_step.game_command])

lemma SendNetMsg_inv [simp]: "net_inv nh \<Longrightarrow> net_inv (SendNetMsg m nh)"
  by (rule net_step_inv [OF net_step.game_message])

lemma keeps_popup [simp]: "keeps ctx (AddPopup txt d c) = keeps ctx c"
  and keeps_each [simp]: "keeps ctx (each_player f c) = keeps ctx c"
  and keeps_delete [simp]: "keeps ctx (delete_player n c) = keeps ctx c"
  and keeps_table [simp]: "(\<And>t. Players (g t) = Players t) \<Longrightarrow> keeps ctx (set_table g c) = keeps ctx c"
  by (simp_all add: keeps_def ctx_defs)

lemma keeps_dirty [simp]: "keeps ctx c \<Longrightarrow> keeps ctx (ctx_SetDirty c)"
  and keeps_command [simp]: "keeps ctx c \<Longrightarrow> keeps ctx (ctx_SendCommand cmd c)"
  and keeps_netmsg [simp]: "keeps ctx c \<Longrightarrow> keeps ctx (ctx_SendNetMsg k p c)"
  and keeps_make [simp]: "keeps ctx c \<Longrightarrow> keeps ctx (set_table (\<lambda>t. t\<lparr>Players := make_map\<rparr>) c)"
  by (simp_all add: keeps_def ctx_defs make_map_def)

lemma keeps_put_player: "keeps ctx c \<Longrightarrow> put_player nick d c = Some c' \<Longrightarrow> keeps ctx c'"
  by (drule put_player_Some) (auto simp: keeps_def ctx_defs map_put_def split: option.splits)

text \<open>A handler that returns, and what it keeps.\<close>

definition returns :: "ProgCtx \<Rightarrow> ProgCtx go \<Rightarrow> bool" where
  "returns ctx r \<longleftrightarrow> (\<exists>ctx'. r = Some ctx' \<and> keeps ctx ctx')"

lemma returns_Some [simp]: "returns ctx (Some c) \<longleftrightarrow> keeps ctx c"
  by (simp add: returns_def)

lemma returns_bind: "returns ctx m \<Longrightarrow> (\<And>c. keeps ctx c \<Longrightarrow> returns ctx (f c)) \<Longrightarrow> returns ctx (Option.bind m f)"
  by (auto simp: returns_def)

lemma returns_put_player [simp]:
  "keeps ctx c \<Longrightarrow> ctx_players ctx \<noteq> None \<Longrightarrow> returns ctx (put_player nick d c)"
  using keeps_put_player [of ctx c nick d] put_player_None_iff [of nick d c]
  by (cases "put_player nick d c") (auto simp: keeps_def)

section \<open>Properties\<close>

lemma translate_deck: "distinct (map TranslateCardID (map int [0..<52]))"
  by code_simp

text \<open>
  The 52 card numbers of a deck have 52 different names, and exactly the numbers outside
  the deck have the name "??", so the division and the table lookups never go out of range.
\<close>

theorem TranslateCardID_deck:
  "inj_on TranslateCardID {0..51} \<and> (TranslateCardID cid = ''??'' \<longleftrightarrow> cid < 0 \<or> 51 < cid)"
proof -
  have set: "{0..51 :: int} = set (map int [0..<52])"
    by (simp only: set_map set_upt image_int_atLeastLessThan) auto
  have "inj_on TranslateCardID {0..51}"
    unfolding set by (rule distinct_map [THEN iffD1, THEN conjunct2, OF translate_deck])
  moreover have "list_all (\<lambda>n. TranslateCardID n \<noteq> ''??'') (map int [0..<52])" by code_simp
  then have "TranslateCardID cid \<noteq> ''??''" if "cid \<in> {0..51}"
    using that unfolding set list_all_iff by blast
  then have "TranslateCardID cid = ''??'' \<longleftrightarrow> cid < 0 \<or> 51 < cid"
    by (auto simp: TranslateCardID_def)
  ultimately show ?thesis by blast
qed

end
