(* ===== verification/Screens.thy ===== *)
theory Screens
  imports GameData "HOL-Library.Char_ord" "HOL-Library.List_Lexorder"
begin

text \<open>
  The screens (\<open>sp/client/src/UI.go\<close>) as trees of components built from the state, and the initial
  context of the program, which contains the first of them. A Go map is read in an unspecified
  order; both screens that list a map sort its keys first, so the list is \<open>sorted_list_of_set\<close> of
  the map's domain. Strings are compared byte by byte.
\<close>

section \<open>Parts\<close>

definition add_children :: "RGComponent \<Rightarrow> RGComponent list \<Rightarrow> RGComponent" where
  "add_children stack cs = foldl AddChild stack cs"

definition centered_button :: "bytes \<Rightarrow> bytes \<Rightarrow> RGComponent" where
  "centered_button i txt = NewCenterComponent (NewButtonComponent i txt 150 50)"

definition new_element :: "RGComponent \<Rightarrow> UIElement" where
  "new_element c = \<lparr>elem_dirty = True, elem_component = Some c\<rparr>"

definition zero_element :: UIElement where
  "zero_element = \<lparr>elem_dirty = False, elem_component = None\<rparr>"

definition buildCenteredTextBox :: "bytes \<Rightarrow> StrRef \<Rightarrow> int \<Rightarrow> RGComponent" where
  "buildCenteredTextBox i ref maxChars =
     (let textBox = NewTextBoxComponent i ref maxChars;
          textBoxPanel = NewPanelComponent rl_RayWhite textBox;
          textBoxCentered = NewCenterComponent textBoxPanel
      in NewBoundsBox 1 1 textBoxCentered)"

definition buildCardComponent :: "bytes \<Rightarrow> Color \<Rightarrow> RGComponent" where
  "buildCardComponent txt color =
     NewPanelComponent color (NewCenterComponent (NewLabelComponent txt 20 rl_Black))"

definition buildHiddenCardComponent :: RGComponent where
  "buildHiddenCardComponent =
     NewPanelComponent rl_Red (NewCenterComponent (NewLabelComponent ''??'' 20 rl_White))"

section \<open>The fixed screens\<close>

definition labelled_box :: "bytes \<Rightarrow> RGComponent \<Rightarrow> RGComponent" where
  "labelled_box txt box = add_children (NewHStack 5) [NewLabelComponent txt 20 rl_White, box]"

definition buildMainMenu :: UIElement where
  "buildMainMenu =
     (let nickField = labelled_box ''Nick:'' (buildCenteredTextBox ''MainMenu_NickBox'' Ref_Nickname 10000);
          chipsField = labelled_box ''Chips:'' (buildCenteredTextBox ''MainMenu_NickBox'' Ref_ChipsStr 100);
          playerStack = add_children (NewVStack 10)
            [NewLabelComponent ''Player:'' 20 rl_White, nickField, chipsField];
          ipField = labelled_box ''IP:'' (buildCenteredTextBox ''Server_IPBox'' Ref_ServerIP 16);
          portField = labelled_box ''Port:'' (buildCenteredTextBox ''Server_PortBox'' Ref_ServerPort 6);
          serverStack = add_children (NewVStack 10)
            [NewLabelComponent ''Server:'' 20 rl_White, ipField, portField];
          horPS = add_children (NewHStack 20) [playerStack, serverStack];
          mainMenu = add_children (NewVStack 10)
            [NewCenterComponent horPS, centered_button ''MainMenu_ConnectBtn'' ''Connect'',
             centered_button ''MainMenu_CloseBtn'' ''Close'']
      in new_element (NewBoundsBox (round32 (6 / 10)) (round32 (8 / 10)) (NewPanelComponent rl_DarkGray mainMenu)))"

definition buildConnectingScreen :: UIElement where
  "buildConnectingScreen =
     (let connecting = add_children (NewVStack 10)
            [NewCenterComponent (NewLabelComponent ''Connecting...'' 20 rl_White),
             centered_button ''Connecting_CancelBtn'' ''Cancel'']
      in new_element (NewBoundsBox (round32 (4 / 10)) (round32 (4 / 10)) (NewPanelComponent rl_Gray connecting)))"

definition buildReconnectingMenu :: UIElement where
  "buildReconnectingMenu =
     (let btns = add_children (NewHStack 20)
            [centered_button ''Reconnect_Accept'' ''Accept'', centered_button ''Reconnect_Decline'' ''Decline''];
          connecting = add_children (NewVStack 10)
            [NewCenterComponent (NewLabelComponent ''Reconnect?'' 20 rl_White), btns]
      in new_element (NewBoundsBox (round32 (4 / 10)) (round32 (4 / 10)) (NewPanelComponent rl_Gray connecting)))"

section \<open>The game\<close>

definition card_component :: "Color \<Rightarrow> Card \<Rightarrow> RGComponent" where
  "card_component color c =
     (if Hidden c then buildHiddenCardComponent else buildCardComponent (Symbol c) color)"

definition player_info :: "bytes \<Rightarrow> PlayerData \<Rightarrow> RGComponent" where
  "player_info name player =
     (let info = NewPlayerInfoComponent (IsMyTurn player);
          info = AddDesc info (NewLabelComponent name 12 rl_White);
          info = AddDesc info (NewLabelComponent (''Chips: '' @ fmt_d (ChipCount player)) 12 rl_Yellow);
          info = (if TotalBet player > 0
                  then AddDesc info (NewLabelComponent (''Total Bet: '' @ fmt_d (TotalBet player)) 12 rl_Orange)
                  else info);
          info = (if ActionTaken player \<noteq> ''NONE'' then
                    AddDesc info (NewLabelComponent (ActionTaken player @ '' '' @ fmt_d (ActionAmount player)) 12 rl_White)
                  else if IsFolded player then AddDesc info (NewLabelComponent ''Folded'' 12 rl_White)
                  else if IsReady player then AddDesc info (NewLabelComponent ''Ready'' 12 rl_White)
                  else info)
      in foldl AddCard info (map (card_component rl_RayWhite) (Cards player)))"

definition playerNames :: "ProgCtx \<Rightarrow> bytes list" where
  "playerNames ctx =
     sorted_list_of_set (dom (\<lambda>k. lookup_player ctx k) - {nickname ctx})"

definition action_buttons :: "ProgCtx \<Rightarrow> RGComponent list" where
  "action_buttons ctx =
     (let myData = read_player ctx (nickname ctx);
          high = HighBet (Table (State ctx));
          showActions = (IsMyTurn myData \<and> \<not> IsFolded myData);
          btn = (\<lambda>i txt. NewButtonComponent i txt 100 50)
      in (if \<not> IsReady myData then [btn ''Game_Ready'' ''Ready''] else [])
         @ (if Showdown (State ctx) then [btn ''Game_ShowOK'' ''OK'']
            else if showActions then
              (if high = 0 then
                 [btn ''Game_Check'' ''Check'',
                  add_children (NewHStack 0)
                    [btn ''Game_Bet'' ''Bet'', NewTextBoxComponent ''Game_BetAmount'' Ref_BetAmount 6]]
               else [])
              @ (if high > 0 then [btn ''Game_Call'' (''Call '' @ fmt_d high)] else [])
              @ [btn ''Game_Fold'' ''Fold'']
            else [])
         @ [btn ''Game_Leave'' ''Leave''])"

definition buildGameScreen :: "ProgCtx \<Rightarrow> UIElement" where
  "buildGameScreen ctx =
     (let tbl = Table (State ctx);
          screen = ResetRiver (NewGameScreen 10);
          screen = foldl AddRiverCard screen
            (map (\<lambda>c. buildCardComponent (Symbol c) rl_RayWhite) (CommunityCards tbl));
          screen = ResetOtherPlayers screen;
          screen = foldl AddOtherPlayer screen
            (map (\<lambda>name. player_info name (read_player ctx name)) (playerNames ctx));
          myData = read_player ctx (nickname ctx);
          screen = SetPotDisplay screen (NewPotDisplayComponent (Pot tbl) (HighBet tbl) (ChipCount myData));
          screen = foldl AddPlayerCard screen (map (card_component rl_Gold) (Cards myData));
          screen = foldl AddActionButton screen (action_buttons ctx)
      in new_element (NewPanelComponent (NewColor 20 80 40 255) screen))"

section \<open>The rooms\<close>

definition sorted_rooms :: "ProgCtx \<Rightarrow> Room list" where
  "sorted_rooms ctx =
     (let m = map_get (Rooms (State ctx)) in map (the \<circ> m) (sorted_list_of_set (dom m)))"

definition room_text :: "Room \<Rightarrow> bytes" where
  "room_text room =
     room_Name room @ '' ('' @ fmt_d (CurrentPlayers room) @ ''/'' @ fmt_d (MaxPlayers room) @ '')''"

text \<open>\<open>strconv.Itoa\<close> writes a number as \<open>%d\<close> does.\<close>

abbreviation Itoa :: "int \<Rightarrow> bytes" where
  "Itoa \<equiv> fmt_d"

definition room_button :: "Room \<Rightarrow> RGComponent" where
  "room_button room = centered_button (''join_'' @ Itoa (room_ID room)) (room_text room)"

definition buildRoomSelectUI :: "ProgCtx \<Rightarrow> UIElement" where
  "buildRoomSelectUI ctx =
     (let rooms = sorted_rooms ctx;
          roomList = AddChild (NewVStack 5) (NewLabelComponent ''Select a Room'' 24 rl_White);
          roomList = (if rooms = []
                      then AddChild roomList (NewCenterComponent (NewLabelComponent ''No rooms available.'' 18 rl_Gray))
                      else roomList);
          roomList = add_children roomList (map room_button rooms);
          buttonStack = add_children (NewHStack 10)
            [centered_button ''RoomSelect_BackBtn'' ''Back'', centered_button ''RoomSelect_RefreshBtn'' ''Refresh''];
          roomList = AddChild roomList buttonStack
      in new_element (NewBoundsBox (round32 (4 / 10)) (round32 (6 / 10)) (NewPanelComponent rl_DarkBlue roomList)))"

section \<open>The initial context\<close>

definition buildUI :: "ProgCtx \<Rightarrow> ProgCtx" where
  "buildUI ctx =
     ctx\<lparr>UI := (UI ctx)\<lparr>ui_MainMenu := buildMainMenu, ui_Connecting := buildConnectingScreen,
                        ui_Reconnecting := buildReconnectingMenu, ui_Game := buildGameScreen ctx\<rparr>\<rparr>"

lemma buildUI_frame [simp]:
  "State (buildUI ctx) = State ctx" "UserInputChan (buildUI ctx) = UserInputChan ctx"
  "DoneChan (buildUI ctx) = DoneChan ctx" "net_handler (buildUI ctx) = net_handler ctx"
  "ShouldClose (buildUI ctx) = ShouldClose ctx" "Popup (buildUI ctx) = Popup ctx" "clock (buildUI ctx) = clock ctx"
  by (simp_all add: buildUI_def)

text \<open>\<open>initProgCtx\<close> of \<open>Main.go\<close>: \<open>r\<close> and \<open>c\<close> are the two random numbers drawn, \<open>now\<close> is the time.\<close>

definition initProgCtx :: "nat \<Rightarrow> nat \<Rightarrow> int \<Rightarrow> ProgCtx" where
  "initProgCtx r c now =
     buildUI \<lparr>State = \<lparr>Screen = ScreenMainMenu, Rooms = make_map, IsConnecting = False, Reconnected = False,
                ServerIP = ''127.0.0.1'', ServerPort = ''8080'',
                Nickname = ''Client'' @ fmt_d (int (r mod 100)),
                ChipsStr = fmt_d (int (c mod 1000000000)),
                Table = \<lparr>Players = make_map, CommunityCards = [], Pot = 0, HighBet = 0, RoundPhase = []\<rparr>,
                BetAmount = [], Showdown = False\<rparr>,
      UserInputChan = [], DoneChan = [], net_handler = Net_Init, ShouldClose = False,
      UI = \<lparr>ui_MainMenu = zero_element, ui_Connecting = zero_element, ui_Reconnecting = zero_element,
            ui_RoomSelect = zero_element, ui_Game = zero_element\<rparr>,
      Popup = [], clock = now\<rparr>"

text \<open>A context with the given players at the table, for the concrete instances of the properties.\<close>

definition ctx_with :: "(bytes \<rightharpoonup> PlayerData) \<Rightarrow> ProgCtx" where
  "ctx_with m = set_table (\<lambda>t. t\<lparr>Players := Some m\<rparr>) (initProgCtx 7 100 0)"

lemma ctx_with_simps [simp]:
  "lookup_player (ctx_with m) k = m k" "ctx_players (ctx_with m) = Some m"
  "Pot (Table (State (ctx_with m))) = 0" "HighBet (Table (State (ctx_with m))) = 0"
  "nickname (ctx_with m) = ''Client7''"
  by (simp_all add: ctx_with_def ctx_defs initProgCtx_def lookup_player_def map_get_def)
    (simp add: fmt_d_def dec.simps digit_char_eval)


section \<open>The widgets of the screens\<close>

lemma add_children_simps [simp]:
  "add_children (VStack b cs p) ds = VStack b (cs @ ds) p" "add_children (HStack b cs p) ds = HStack b (cs @ ds) p"
  unfolding add_children_def by (induction ds arbitrary: cs) simp_all

lemmas new_components = NewLabelComponent_def NewButtonComponent_def NewTextBoxComponent_def
  NewPotDisplayComponent_def NewPanelComponent_def NewBoundsBox_def NewCenterComponent_def
  NewVStack_def NewHStack_def NewPlayerInfoComponent_def NewGameScreen_def

definition component_of :: "UIElement \<Rightarrow> RGComponent" where
  "component_of e = the (elem_component e)"

lemma new_element_simps [simp]:
  "elem_component (new_element c) = Some c" "elem_dirty (new_element c)" "component_of (new_element c) = c"
  by (simp_all add: new_element_def component_of_def)

lemma built_components [simp]:
  "elem_component buildMainMenu = Some (component_of buildMainMenu)"
  "elem_component buildConnectingScreen = Some (component_of buildConnectingScreen)"
  "elem_component buildReconnectingMenu = Some (component_of buildReconnectingMenu)"
  "elem_component (buildGameScreen ctx) = Some (component_of (buildGameScreen ctx))"
  "elem_component (buildRoomSelectUI ctx) = Some (component_of (buildRoomSelectUI ctx))"
  "elem_dirty buildMainMenu" "elem_dirty buildConnectingScreen" "elem_dirty buildReconnectingMenu"
  "elem_dirty (buildGameScreen ctx)" "elem_dirty (buildRoomSelectUI ctx)"
  by (simp_all add: buildMainMenu_def buildConnectingScreen_def buildReconnectingMenu_def
      buildGameScreen_def buildRoomSelectUI_def Let_def)

lemma main_menu_ids:
  "widget_ids (component_of buildMainMenu) =
     [''MainMenu_NickBox'', ''MainMenu_NickBox'', ''Server_IPBox'', ''Server_PortBox'',
      ''MainMenu_ConnectBtn'', ''MainMenu_CloseBtn'']"
  by (simp add: buildMainMenu_def Let_def labelled_box_def buildCenteredTextBox_def centered_button_def new_components)

text \<open>The labels under which the user finds two of the buttons.\<close>

lemma main_menu_connect:
  "filter (\<lambda>(i, s). s = ''Connect'') (button_labels (component_of buildMainMenu)) = [(''MainMenu_ConnectBtn'', ''Connect'')]"
  by (simp add: buildMainMenu_def Let_def labelled_box_def buildCenteredTextBox_def centered_button_def new_components)

lemma reconnecting_labels:
  "button_labels (component_of buildReconnectingMenu) = [(''Reconnect_Accept'', ''Accept''), (''Reconnect_Decline'', ''Decline'')]"
  by (simp add: buildReconnectingMenu_def Let_def centered_button_def new_components)

lemma connecting_ids: "widget_ids (component_of buildConnectingScreen) = [''Connecting_CancelBtn'']"
  by (simp add: buildConnectingScreen_def Let_def centered_button_def new_components)

lemma reconnecting_ids:
  "widget_ids (component_of buildReconnectingMenu) = [''Reconnect_Accept'', ''Reconnect_Decline'']"
  by (simp add: buildReconnectingMenu_def Let_def centered_button_def new_components)

lemma room_button_widgets:
  "widgets (room_button r) = [NewButtonComponent (''join_'' @ Itoa (room_ID r)) (room_text r) 150 50]"
  by (simp add: room_button_def centered_button_def new_components)

lemma room_select_ids:
  "widget_ids (component_of (buildRoomSelectUI ctx)) =
     map (\<lambda>r. ''join_'' @ Itoa (room_ID r)) (sorted_rooms ctx) @ [''RoomSelect_BackBtn'', ''RoomSelect_RefreshBtn'']"
proof -
  have "concat (map (widget_ids \<circ> room_button) rs) = map (\<lambda>r. ''join_'' @ Itoa (room_ID r)) rs" for rs
    by (induction rs) (simp_all add: room_button_widgets NewButtonComponent_def)
  then show ?thesis
    by (simp add: buildRoomSelectUI_def Let_def centered_button_def new_components map_concat o_def)
qed

text \<open>Cards and players carry no widgets; the actions of a game screen are its only ones.\<close>

lemma card_no_widgets [simp]: "widgets (card_component color c) = []" "widgets (buildCardComponent txt color) = []"
  by (simp_all add: card_component_def buildCardComponent_def buildHiddenCardComponent_def new_components)

lemma add_cards: "foldl AddCard (PlayerInfoComponent b t desc (HStack b' cs p)) ds = PlayerInfoComponent b t desc (HStack b' (cs @ ds) p)"
  by (induction ds arbitrary: cs) simp_all

lemma concat_map_empty [simp]: "concat (map (\<lambda>x. []) xs) = []"
  by (induction xs) simp_all

lemma player_no_widgets [simp]: "widgets (player_info name d) = []"
  by (simp add: player_info_def Let_def new_components add_cards o_def)

lemma fill_screen:
  "foldl AddRiverCard (GameScreen b p (HStack br river pr) pl ac ot pot) cs = GameScreen b p (HStack br (river @ cs) pr) pl ac ot pot"
  "foldl AddPlayerCard (GameScreen b p rv (HStack br player pr) ac ot pot) cs = GameScreen b p rv (HStack br (player @ cs) pr) ac ot pot"
  "foldl AddActionButton (GameScreen b p rv pl (HStack br action pr) ot pot) cs = GameScreen b p rv pl (HStack br (action @ cs) pr) ot pot"
  "foldl AddOtherPlayer (GameScreen b p rv pl ac (HStack br others pr) pot) cs = GameScreen b p rv pl ac (HStack br (others @ cs) pr) pot"
  by (induction cs arbitrary: river player action others) simp_all

lemma game_screen:
  "component_of (buildGameScreen ctx) =
     (let bar = (\<lambda>cs. HStack zero_rect cs 10); myData = read_player ctx (nickname ctx); tbl = Table (State ctx)
      in PanelComponent zero_rect (NewColor 20 80 40 255)
           (GameScreen zero_rect 10
              (bar (map (\<lambda>c. buildCardComponent (Symbol c) rl_RayWhite) (CommunityCards tbl)))
              (bar (map (card_component rl_Gold) (Cards myData)))
              (bar (action_buttons ctx))
              (bar (map (\<lambda>name. player_info name (read_player ctx name)) (playerNames ctx)))
              (Some (PotDisplayComponent zero_rect (Pot tbl) (HighBet tbl) (ChipCount myData)))))"
  by (simp add: buildGameScreen_def Let_def new_components fill_screen)

definition action_ids :: "ProgCtx \<Rightarrow> bytes list" where
  "action_ids ctx =
     (let myData = read_player ctx (nickname ctx); high = HighBet (Table (State ctx))
      in (if IsReady myData then [] else [''Game_Ready''])
         @ (if Showdown (State ctx) then [''Game_ShowOK'']
            else if IsMyTurn myData \<and> \<not> IsFolded myData then
              (if high = 0 then [''Game_Check'', ''Game_Bet'', ''Game_BetAmount'']
               else if high > 0 then [''Game_Call''] else []) @ [''Game_Fold'']
            else [])
         @ [''Game_Leave''])"

lemma action_button_ids: "map widget_id (concat (map widgets (action_buttons ctx))) = action_ids ctx"
  by (cases "Showdown (State ctx)"; cases "IsMyTurn (read_player ctx (nickname ctx)) \<and> \<not> IsFolded (read_player ctx (nickname ctx))")
    (auto simp: action_buttons_def action_ids_def Let_def new_components simp del: concat_eq_Nil_conv)

lemma game_ids: "widget_ids (component_of (buildGameScreen ctx)) = action_ids ctx"
  by (simp add: game_screen Let_def o_def action_button_ids)

end
