(* ===== verification/RoomMessages.thy ===== *)
theory RoomMessages
  imports Screens
begin

text \<open>
  The payload handlers of \<open>sp/client/src/StateMachine.go\<close> (lines 618 to 976): the check of a
  game action before it is sent, and the readers of the server's payloads that update the
  table: a player who joined, a player's action, the showdown, the room state, a room of the
  room list. Each handler follows the source's order of reads, writes and early returns; a
  panic is \<open>None\<close>.
\<close>

section \<open>Results of ParseMessage\<close>

definition get_int :: "val list \<Rightarrow> nat \<Rightarrow> int go" where
  "get_int res i = do { v \<leftarrow> index_get res i; as_int v }"

definition get_str :: "val list \<Rightarrow> nat \<Rightarrow> bytes go" where
  "get_str res i = do { v \<leftarrow> index_get res i; as_string v }"

fun map_go :: "('a \<Rightarrow> 'b go) \<Rightarrow> 'a list \<Rightarrow> 'b list go" where
  "map_go f [] = Some []"
| "map_go f (x # xs) = do { y \<leftarrow> f x; ys \<leftarrow> map_go f xs; Some (y # ys) }"

section \<open>Checking an action\<close>

text \<open>\<open>validateGameAction\<close>: the verdict, and the context with the popups it raised.\<close>

definition validateGameAction :: "ProgCtx \<Rightarrow> bytes \<Rightarrow> bytes \<Rightarrow> ProgCtx \<times> bool" where
  "validateGameAction ctx action amount =
     (if action = ''RDY1'' \<or> action = ''GMLV'' then (ctx, True)
      else if action = ''SDOK'' then (ctx, Showdown (State ctx))
      else case lookup_player ctx (nickname ctx) of
        None \<Rightarrow> (AddPopup ''Error: Player data not found'' (3 * time_Second) ctx, False)
      | Some myData \<Rightarrow>
          if \<not> IsMyTurn myData then (AddPopup ''It's not your turn!'' (2 * time_Second) ctx, False)
          else if action = ''BETT'' then
            (let (betAmt, err) = Atoi amount
             in if err \<noteq> None \<or> betAmt \<le> 0
                then (AddPopup ''Invalid bet amount'' (2 * time_Second) ctx, False)
                else if betAmt > ChipCount myData
                then (AddPopup (''You only have '' @ fmt_d (ChipCount myData) @ '' chips'') (3 * time_Second) ctx, False)
                else (ctx, True))
          else if action = ''CALL'' then
            (if HighBet (Table (State ctx)) = 0
             then (AddPopup ''There's nothing to call'' (2 * time_Second) ctx, False)
             else (ctx, True))
          else if action = ''FOLD'' \<or> action = ''CHCK'' then (ctx, True)
          else (AddPopup ''Unknown action'' (2 * time_Second) ctx, False))"

section \<open>Players\<close>

definition hidden_card :: Card where
  "hidden_card = \<lparr>card_ID = 0, Symbol = [], Hidden = True\<rparr>"

definition shown_card :: "int \<Rightarrow> Card" where
  "shown_card n = \<lparr>card_ID = n, Symbol = TranslateCardID n, Hidden = False\<rparr>"

definition player_types :: "ParseTypes list" where
  "player_types = [String, VarInt, SmallInt, SmallInt, SmallInt, SmallInt, VarInt, VarInt, VarInt]"

text \<open>The player a list of parse results describes: the nick and the data with two hidden cards.\<close>

definition player_of_results :: "val list \<Rightarrow> (bytes \<times> PlayerData) go" where
  "player_of_results res = do {
     pNick \<leftarrow> get_str res 0;
     pChips \<leftarrow> get_int res 1;
     pIsFolded \<leftarrow> get_int res 2;
     pIsReady \<leftarrow> get_int res 3;
     pIsMyTurn \<leftarrow> get_int res 4;
     pActionTaken \<leftarrow> get_int res 5;
     pActionAmount \<leftarrow> get_int res 6;
     pRoundBet \<leftarrow> get_int res 7;
     pTotalBet \<leftarrow> get_int res 8;
     Some (pNick,
       \<lparr>ChipCount = pChips, RoundBet = pRoundBet, TotalBet = pTotalBet,
        Cards = [hidden_card, hidden_card],
        IsMyTurn = (pIsMyTurn = 1), IsFolded = (pIsFolded = 1), IsReady = (pIsReady = 1),
        ActionTaken = actionIntToString pActionTaken, ActionAmount = pActionAmount\<rparr>)
   }"

definition handlePlayerJoined :: "(nat \<Rightarrow> nat) \<Rightarrow> ProgCtx \<Rightarrow> bytes \<Rightarrow> ProgCtx go" where
  "handlePlayerJoined flog ctx pl = do {
     (res, consumed, err) \<leftarrow> ParseMessage flog pl player_types;
     case err of
       Some e \<Rightarrow> Some ctx
     | None \<Rightarrow> do {
         (pNick, pData) \<leftarrow> player_of_results res;
         put_player pNick pData ctx
       }
   }"

definition handlePlayerAction :: "(nat \<Rightarrow> nat) \<Rightarrow> ProgCtx \<Rightarrow> bytes \<Rightarrow> ProgCtx go" where
  "handlePlayerAction flog ctx pl = do {
     (res, consumed, err) \<leftarrow> ParseMessage flog pl [String, SmallInt, VarInt];
     case err of
       Some e \<Rightarrow> Some ctx
     | None \<Rightarrow> do {
         pNick \<leftarrow> get_str res 0;
         pActionTaken \<leftarrow> get_int res 1;
         pActionAmount \<leftarrow> get_int res 2;
         case lookup_player ctx pNick of
           None \<Rightarrow> Some ctx
         | Some player \<Rightarrow>
             let player = player\<lparr>ActionTaken := actionIntToString pActionTaken,
                                 ActionAmount := pActionAmount\<rparr>
             in if ActionTaken player = ''BETT'' then
                  let player = player\<lparr>RoundBet := add64 (RoundBet player) (ActionAmount player)\<rparr>;
                      player = player\<lparr>ChipCount := sub64 (ChipCount player) (ActionAmount player)\<rparr>;
                      ctx = set_table (\<lambda>t. t\<lparr>HighBet := RoundBet player,
                                             Pot := add64 (Pot t) (RoundBet player)\<rparr>) ctx;
                      ctx = AddPopup (pNick @ '' bet '' @ fmt_d (ActionAmount player)) (2 * time_Second) ctx
                  in put_player pNick player ctx
                else if ActionTaken player = ''CALL'' then
                  let player = player\<lparr>RoundBet := pActionAmount\<rparr>;
                      ctx = set_table (\<lambda>t. t\<lparr>Pot := add64 (Pot t) pActionAmount\<rparr>) ctx;
                      player = player\<lparr>ChipCount := sub64 (ChipCount player) pActionAmount\<rparr>;
                      ctx = AddPopup (pNick @ '' called '' @ fmt_d pActionAmount) (2 * time_Second) ctx
                  in put_player pNick player ctx
                else if ActionTaken player = ''FOLD'' then
                  put_player pNick (player\<lparr>IsFolded := True\<rparr>)
                    (AddPopup (pNick @ '' folded'') (2 * time_Second) ctx)
                else if ActionTaken player = ''CHCK'' then
                  put_player pNick player (AddPopup (pNick @ '' checked'') (2 * time_Second) ctx)
                else if ActionTaken player = ''LEFT'' then
                  Some (delete_player pNick (AddPopup (pNick @ '' left'') (2 * time_Second) ctx))
                else put_player pNick player ctx
       }
   }"

section \<open>Showdown\<close>

text \<open>
  \<open>pData\<close> is a copy of the map's entry, but its \<open>Cards\<close> slice shares the entry's array, so
  the writes to \<open>pData.Cards[0]\<close> and \<open>[1]\<close> show in the map; every player's array is
  its own. Writing past the end of a shorter slice panics.
\<close>

definition reveal_cards :: "bytes \<Rightarrow> PlayerData \<Rightarrow> int \<Rightarrow> int \<Rightarrow> ProgCtx \<Rightarrow> ProgCtx go" where
  "reveal_cards pNick pData pC1 pC2 ctx = do {
     cs \<leftarrow> index_set (Cards pData) 0 (shown_card pC1);
     cs \<leftarrow> index_set cs 1 (shown_card pC2);
     put_player pNick (pData\<lparr>Cards := cs\<rparr>) ctx
   }"

fun showdown_players :: "(nat \<Rightarrow> nat) \<Rightarrow> nat \<Rightarrow> bytes \<Rightarrow> ProgCtx \<Rightarrow> ProgCtx go" where
  "showdown_players flog 0 nextPayload ctx = Some ctx"
| "showdown_players flog (Suc n) nextPayload ctx = do {
     (res, consumed, err) \<leftarrow> ParseMessage flog nextPayload [String, SmallInt, SmallInt];
     case err of
       Some e \<Rightarrow> showdown_players flog n nextPayload ctx
     | None \<Rightarrow> do {
         nextPayload \<leftarrow> slice_from nextPayload consumed;
         pNick \<leftarrow> get_str res 0;
         pC1 \<leftarrow> get_int res 1;
         pC2 \<leftarrow> get_int res 2;
         case lookup_player ctx pNick of
           None \<Rightarrow> showdown_players flog n nextPayload ctx
         | Some pData \<Rightarrow> do {
             ctx \<leftarrow> reveal_cards pNick pData pC1 pC2 ctx;
             showdown_players flog n nextPayload ctx
           }
       }
   }"

definition handleShowdown :: "(nat \<Rightarrow> nat) \<Rightarrow> ProgCtx \<Rightarrow> bytes \<Rightarrow> ProgCtx go" where
  "handleShowdown flog ctx pl = do {
     let pCount = (case ReadSmallInt pl of None \<Rightarrow> 0 | Some n \<Rightarrow> n);
     nextPayload \<leftarrow> slice_from pl 2;
     ctx \<leftarrow> showdown_players flog (nat pCount) nextPayload ctx;
     let ctx = set_state (\<lambda>s. s\<lparr>Showdown := True\<rparr>) ctx;
     Some (AddPopup ''Showdown! Revealing cards...'' (3 * time_Second) ctx)
   }"

section \<open>Room state\<close>

definition join_errors :: "string \<Rightarrow> string \<Rightarrow> string" where
  "join_errors a b = a @ [CHR 0x0A] @ b"

definition room_state_types :: "ParseTypes list" where
  "room_state_types = [VarInt, VarInt, SmallInt, SmallInt, SmallInt, SmallInt]"

text \<open>The loop over the players of the payload.\<close>

fun read_players ::
  "(nat \<Rightarrow> nat) \<Rightarrow> bool \<Rightarrow> int \<Rightarrow> int \<Rightarrow> nat \<Rightarrow> bytes \<Rightarrow> ProgCtx \<Rightarrow> (ProgCtx \<times> string option) go" where
  "read_players flog cardsDealt card1 card2 0 nextPayload ctx = Some (ctx, None)"
| "read_players flog cardsDealt card1 card2 (Suc n) nextPayload ctx = do {
     (res, consumed, err) \<leftarrow> ParseMessage flog nextPayload player_types;
     case err of
       Some e \<Rightarrow> Some (ctx, Some (join_errors e ''Error occured during reading player''))
     | None \<Rightarrow> do {
         nextPayload \<leftarrow> slice_from nextPayload consumed;
         (pNick, pData) \<leftarrow> player_of_results res;
         pData \<leftarrow> (if pNick = nickname ctx \<and> cardsDealt then do {
                     cs \<leftarrow> index_set (Cards pData) 0 (shown_card card1);
                     cs \<leftarrow> index_set cs 1 (shown_card card2);
                     Some (pData\<lparr>Cards := cs\<rparr>)
                   } else Some pData);
         ctx \<leftarrow> put_player pNick pData ctx;
         read_players flog cardsDealt card1 card2 n nextPayload ctx
       }
   }"

definition deserializeRoomState ::
  "(nat \<Rightarrow> nat) \<Rightarrow> ProgCtx \<Rightarrow> bytes \<Rightarrow> (ProgCtx \<times> string option) go" where
  "deserializeRoomState flog ctx pl = do {
     let ctx = (if ctx_players ctx = None then set_table (\<lambda>t. t\<lparr>Players := make_map\<rparr>) ctx else ctx);
     let ctx = set_table (\<lambda>t. t\<lparr>CommunityCards := []\<rparr>) ctx;
     (res, consumed, err) \<leftarrow> ParseMessage flog pl room_state_types;
     case err of
       Some e \<Rightarrow> Some (ctx, Some (join_errors e ''Error occured during 1st phase''))
     | None \<Rightarrow> do {
         nextPayload \<leftarrow> slice_from pl consumed;
         pot \<leftarrow> get_int res 0;
         let ctx = set_table (\<lambda>t. t\<lparr>Pot := pot\<rparr>) ctx;
         highBet \<leftarrow> get_int res 1;
         let ctx = set_table (\<lambda>t. t\<lparr>HighBet := highBet\<rparr>) ctx;
         dealt \<leftarrow> get_int res 2;
         card1 \<leftarrow> get_int res 3;
         card2 \<leftarrow> get_int res 4;
         commCount \<leftarrow> get_int res 5;
         (res, consumed, err) \<leftarrow> ParseMessage flog nextPayload (replicate (nat (commCount + 1)) SmallInt);
         case err of
           Some e \<Rightarrow>
             Some (ctx, Some (join_errors e ''Error occured during reading CommunityCards and PlayerCount''))
         | None \<Rightarrow> do {
             nextPayload \<leftarrow> slice_from nextPayload consumed;
             cards \<leftarrow> map_go (get_int res) [0..<nat commCount];
             let ctx = set_table (\<lambda>t. t\<lparr>CommunityCards := CommunityCards t @ map shown_card cards\<rparr>) ctx;
             playerCount \<leftarrow> get_int res (nat commCount);
             read_players flog (dealt = 1) card1 card2 (nat playerCount) nextPayload ctx
           }
       }
   }"

section \<open>Rooms\<close>

definition err_room :: Room where
  "err_room = \<lparr>room_ID = - 1, room_Name = ''Invalid Room Data'', CurrentPlayers = 0, MaxPlayers = 0\<rparr>"

definition deserializeRoom :: "bytes \<Rightarrow> Room go" where
  "deserializeRoom pl =
     (let byte_payload = pl in
      case ReadBigInt byte_payload of
        None \<Rightarrow> Some err_room
      | Some rid \<Rightarrow> do {
          slice \<leftarrow> slice_from byte_payload 4;
          case ReadString slice of
            None \<Rightarrow> Some err_room
          | Some name \<Rightarrow> do {
              slice \<leftarrow> slice_from byte_payload 4;
              let nameLen = (case ReadBigInt slice of None \<Rightarrow> 0 | Some n \<Rightarrow> n);
              let offset = 4 + (4 + nat nameLen);
              slice \<leftarrow> slice_from byte_payload offset;
              case ReadSmallInt slice of
                None \<Rightarrow> Some err_room
              | Some curr_players \<Rightarrow> do {
                  slice \<leftarrow> slice_from byte_payload (offset + 2);
                  case ReadSmallInt slice of
                    None \<Rightarrow> Some err_room
                  | Some max_players \<Rightarrow>
                      Some \<lparr>room_ID = rid, room_Name = name,
                            CurrentPlayers = curr_players, MaxPlayers = max_players\<rparr>
                }
            }
        })"

definition handleRoomData :: "ProgCtx \<Rightarrow> NetMsg \<Rightarrow> (ProgCtx \<times> string option) go" where
  "handleRoomData ctx msg = do {
     room \<leftarrow> deserializeRoom (msg_Payload msg);
     if room_ID room = - 1 then Some (ctx, Some ''invalid room'')
     else do {
       let ctx = (if Rooms (State ctx) = None then set_state (\<lambda>s. s\<lparr>Rooms := make_map\<rparr>) ctx else ctx);
       m \<leftarrow> map_put (Rooms (State ctx)) (room_ID room) room;
       Some (set_state (\<lambda>s. s\<lparr>Rooms := m\<rparr>) ctx, None)
     }
   }"

section \<open>Results of the right type are read without a panic\<close>

lemma get_int_VInt [simp]: "i < length res \<Longrightarrow> res ! i = VInt n \<Longrightarrow> get_int res i = Some n"
  by (simp add: get_int_def index_get_def)

lemma get_str_VStr [simp]: "i < length res \<Longrightarrow> res ! i = VStr s \<Longrightarrow> get_str res i = Some s"
  by (simp add: get_str_def index_get_def)

lemma player_results_cases:
  assumes "list_all2 val_of_type player_types res"
  shows "\<exists>nick chips fld rdy trn act amt rb tb.
    res = [VStr nick, VInt chips, VInt fld, VInt rdy, VInt trn, VInt act, VInt amt, VInt rb, VInt tb]
    \<and> in64 chips \<and> in64 amt \<and> in64 rb \<and> in64 tb \<and> small_ok act"
  using assms unfolding player_types_def
  by (auto simp: list_all2_Cons1)

lemma player_of_results_eq:
  "player_of_results [VStr nick, VInt chips, VInt fld, VInt rdy, VInt trn, VInt act, VInt amt, VInt rb, VInt tb]
   = Some (nick, \<lparr>ChipCount = chips, RoundBet = rb, TotalBet = tb, Cards = [hidden_card, hidden_card],
                  IsMyTurn = (trn = 1), IsFolded = (fld = 1), IsReady = (rdy = 1),
                  ActionTaken = actionIntToString act, ActionAmount = amt\<rparr>)"
  by (simp add: player_of_results_def get_int_def get_str_def index_get_def)

lemma player_of_results_ok:
  "list_all2 val_of_type player_types res \<Longrightarrow>
   \<exists>nick d. player_of_results res = Some (nick, d) \<and> length (Cards d) = 2"
  by (drule player_results_cases) (auto simp: player_of_results_eq)

lemma ParseMessage_cases [consumes 1]:
  assumes "log10_exact flog"
  obtains (error) res consumed e where "ParseMessage flog pl ts = Some (res, consumed, Some e)"
  | (fields) res consumed where "ParseMessage flog pl ts = Some (res, consumed, None)"
      "consumed \<le> length pl" "list_all2 val_of_type ts res"
  using ParseMessage_total [OF assms, of pl ts] by (metis option.exhaust)

section \<open>The handlers return\<close>

lemma handlePlayerJoined_returns:
  assumes "log10_exact flog" "ctx_players ctx \<noteq> None"
  shows "returns ctx (handlePlayerJoined flog ctx pl)"
using assms(1)
proof (cases rule: ParseMessage_cases [where pl = "pl" and ts = "player_types"])
  case (error res consumed e)
  then show ?thesis by (simp add: handlePlayerJoined_def)
next
  case (fields res consumed)
  then obtain nick d where "player_of_results res = Some (nick, d)" using player_of_results_ok by blast
  with fields assms(2) show ?thesis by (auto simp: handlePlayerJoined_def)
qed

lemma handlePlayerAction_returns:
  assumes "log10_exact flog" "ctx_players ctx \<noteq> None"
  shows "returns ctx (handlePlayerAction flog ctx pl)"
using assms(1)
proof (cases rule: ParseMessage_cases [where pl = "pl" and ts = "[String, SmallInt, VarInt]"])
  case (error res consumed e)
  then show ?thesis by (simp add: handlePlayerAction_def)
next
  case (fields res consumed)
  then obtain nick act amt where res: "res = [VStr nick, VInt act, VInt amt]"
    by (auto simp: list_all2_Cons1)
  have f: "get_str res 0 = Some nick" "get_int res 1 = Some act" "get_int res 2 = Some amt"
    using res by simp_all
  show ?thesis
    using fields f assms(2)
    by (auto simp: handlePlayerAction_def Let_def split: option.split)
qed

lemma index_set_ok: "i < length xs \<Longrightarrow> \<exists>ys. index_set xs i v = Some ys \<and> length ys = length xs"
  by (simp add: index_set_def)

lemma set_two_cards:
  "length cs = 2 \<Longrightarrow> do { cs \<leftarrow> index_set cs 0 a; index_set cs 1 b } = Some [a, b]"
  by (auto simp: index_set_def numeral_2_eq_2 length_Suc_conv)

lemma read_players_returns:
  assumes "log10_exact flog"
  shows "keeps ctx0 ctx \<Longrightarrow> ctx_players ctx0 \<noteq> None \<Longrightarrow>
    \<exists>ctx' err. read_players flog dealt c1 c2 n pl ctx = Some (ctx', err) \<and> keeps ctx0 ctx'"
proof (induction n arbitrary: pl ctx)
  case 0
  then show ?case by simp
next
  case (Suc n)
  show ?case
  using assms
  proof (cases rule: ParseMessage_cases [where pl = "pl" and ts = "player_types"])
    case (error res consumed e)
    with Suc.prems show ?thesis by simp
  next
    case (fields res consumed)
    obtain nick d where d: "player_of_results res = Some (nick, d)" "length (Cards d) = 2"
      using player_of_results_ok [OF fields(3)] by blast
    obtain d' where d': "(if nick = nickname ctx \<and> dealt
        then do { cs \<leftarrow> index_set (Cards d) 0 (shown_card c1); cs \<leftarrow> index_set cs 1 (shown_card c2);
                  Some (d\<lparr>Cards := cs\<rparr>) }
        else Some d) = Some d'"
      using d(2) by (cases "nick = nickname ctx \<and> dealt") (simp_all add: index_set_def)
    obtain ctx1 where c: "put_player nick d' ctx = Some ctx1" "keeps ctx0 ctx1"
      using returns_put_player [OF Suc.prems, of nick d'] by (auto simp: returns_def)
    show ?thesis
      using Suc.IH [OF c(2) Suc.prems(2), of "drop consumed pl"] fields d c d'
      by (simp add: slice_from_def)
  qed
qed

lemma map_go_ok: "(\<And>x. x \<in> set xs \<Longrightarrow> f x \<noteq> None) \<Longrightarrow> \<exists>ys. map_go f xs = Some ys \<and> length ys = length xs"
proof (induction xs)
  case (Cons x xs)
  then obtain y ys where "f x = Some y" "map_go f xs = Some ys \<and> length ys = length xs" by fastforce
  then show ?case by simp
qed simp

lemma get_int_small:
  "list_all2 val_of_type ts res \<Longrightarrow> i < length ts \<Longrightarrow> ts ! i = SmallInt \<Longrightarrow>
   \<exists>n. get_int res i = Some n \<and> small_ok n"
  by (auto simp: list_all2_conv_all_nth get_int_def index_get_def)
    (metis val_of_type.simps(2) as_int.simps(1))

lemma deserializeRoomState_returns:
  assumes fl: "log10_exact flog"
  shows "\<exists>ctx' err. deserializeRoomState flog ctx pl = Some (ctx', err) \<and> keeps ctx ctx'
    \<and> ctx_players ctx' \<noteq> None"
proof -
  define ctx1 where "ctx1 = set_table (\<lambda>t. t\<lparr>CommunityCards := []\<rparr>)
    (if ctx_players ctx = None then set_table (\<lambda>t. t\<lparr>Players := make_map\<rparr>) ctx else ctx)"
  have k1: "keeps ctx ctx1" and p1: "ctx_players ctx1 \<noteq> None"
    by (auto simp: ctx1_def ctx_players_def) (simp add: make_map_def)
  show ?thesis
  using fl
  proof (cases rule: ParseMessage_cases [where pl = "pl" and ts = "room_state_types"])
    case (error res consumed e)
    with k1 p1 show ?thesis by (simp add: deserializeRoomState_def Let_def ctx1_def)
  next
    case (fields res consumed)
    then obtain pot high dealt c1 c2 comm where
      res: "res = [VInt pot, VInt high, VInt dealt, VInt c1, VInt c2, VInt comm]" and comm: "small_ok comm"
      unfolding room_state_types_def by (auto simp: list_all2_Cons1)
    have f: "get_int res 0 = Some pot" "get_int res 1 = Some high" "get_int res 2 = Some dealt"
      "get_int res 3 = Some c1" "get_int res 4 = Some c2" "get_int res 5 = Some comm"
      using res by simp_all
    define ctx2 where "ctx2 = set_table (\<lambda>t. t\<lparr>HighBet := high\<rparr>) (set_table (\<lambda>t. t\<lparr>Pot := pot\<rparr>) ctx1)"
    have k2: "keeps ctx1 ctx2" by (simp add: ctx2_def)
    let ?pl = "drop consumed pl" and ?ts = "replicate (nat (comm + 1)) SmallInt"
    show ?thesis
    using fl
    proof (cases rule: ParseMessage_cases [where pl = "?pl" and ts = "?ts"])
      case e2: (error res2 consumed2 e)
      from fields f e2 keeps_trans [OF k1 k2] k2 p1 show ?thesis
        by (simp add: deserializeRoomState_def Let_def ctx1_def ctx2_def slice_from_def keeps_def)
    next
      case f2: (fields res2 consumed2)
      have len: "i < length ?ts" if "i \<le> nat comm" for i
        using that comm by (simp add: small_ok_def) linarith
      have ts: "?ts ! i = SmallInt" if "i \<le> nat comm" for i
        using len [OF that] by simp
      have g: "\<exists>n. get_int res2 i = Some n" if "i \<le> nat comm" for i
        using get_int_small [OF f2(3) len [OF that] ts [OF that]] by blast
      obtain cards where cards: "map_go (get_int res2) [0..<nat comm] = Some cards"
        using map_go_ok [of "[0..<nat comm]" "get_int res2"] g by fastforce
      obtain n where n: "get_int res2 (nat comm) = Some n" using g by blast
      define ctx3 where "ctx3 = set_table (\<lambda>t. t\<lparr>CommunityCards := CommunityCards t @ map shown_card cards\<rparr>) ctx2"
      have k3: "keeps ctx1 ctx3" using k2 by (simp add: ctx3_def)
      have eq: "deserializeRoomState flog ctx pl
          = read_players flog (dealt = 1) c1 c2 (nat n) (drop consumed2 ?pl) ctx3"
        using fields(1,2) f f2(1,2) cards n
        by (simp add: deserializeRoomState_def Let_def ctx1_def ctx2_def ctx3_def slice_from_def)
      obtain ctx' err where rp: "read_players flog (dealt = 1) c1 c2 (nat n) (drop consumed2 ?pl) ctx3 = Some (ctx', err)"
        "keeps ctx1 ctx'"
        using read_players_returns [OF fl k3 p1] by blast
      from rp(2) p1 have "ctx_players ctx' \<noteq> None" unfolding keeps_def by blast
      with eq rp keeps_trans [OF k1 rp(2)] show ?thesis by simp
    qed
  qed
qed

text \<open>
  The room list: \<open>deserializeRoom\<close> re-reads the length of the name to find the next field,
  and never slices past the payload.
\<close>

text \<open>A room whose fields are within the ranges of their encodings.\<close>

definition room_ok :: "Room \<Rightarrow> bool" where
  "room_ok r \<longleftrightarrow> big_ok (room_ID r) \<and> str_ok (room_Name r)
     \<and> small_ok (CurrentPlayers r) \<and> small_ok (MaxPlayers r)"

lemma deserializeRoom_returns:
  "\<exists>room. deserializeRoom pl = Some room \<and> (room = err_room \<or> room_ok room)"
proof (cases "ReadBigInt pl")
  case None
  then show ?thesis by (simp add: deserializeRoom_def)
next
  case (Some rid)
  then have 4: "slice_from pl 4 = Some (drop 4 pl)"
    by (auto simp: slice_from_def dest: ReadBigInt_bounds)
  show ?thesis
  proof (cases "ReadString (drop 4 pl)")
    case None
    with Some 4 show ?thesis by (simp add: deserializeRoom_def)
  next
    case name: (Some name)
    then obtain n where n: "ReadBigInt (drop 4 pl) = Some n" "0 \<le> n" "8 + nat n \<le> length pl"
      by (auto simp: ReadString_def split: option.splits if_splits dest: ReadBigInt_bounds)
    then have 8: "slice_from pl (4 + (4 + nat n)) = Some (drop (8 + nat n) pl)"
      by (simp add: slice_from_def)
    have nm: "str_ok name" using ReadString_length [OF name] by (simp add: str_ok_def)
    have rid: "big_ok rid" using ReadBigInt_bounds [OF Some] by (simp add: big_ok_def)
    show ?thesis
    proof (cases "ReadSmallInt (drop (8 + nat n) pl)")
      case None
      with Some 4 name n 8 show ?thesis by (simp add: deserializeRoom_def)
    next
      case cur: (Some cur)
      then have 10: "slice_from pl (4 + (4 + nat n) + 2) = Some (drop (10 + nat n) pl)"
        by (auto simp: slice_from_def dest: ReadSmallInt_bounds)
      have ok: "small_ok k" if "ReadSmallInt x = Some k" for x k
        using ReadSmallInt_bounds [OF that] by (simp add: small_ok_def)
      show ?thesis
        using Some 4 name n 8 10 cur nm rid ok [OF cur] ok
        by (cases "ReadSmallInt (drop (10 + nat n) pl)") (simp_all add: deserializeRoom_def room_ok_def)
    qed
  qed
qed

lemma handleRoomData_returns:
  "\<exists>ctx' err. handleRoomData ctx m = Some (ctx', err) \<and> keeps ctx ctx'"
proof -
  obtain room where r: "deserializeRoom (msg_Payload m) = Some room" using deserializeRoom_returns by blast
  then show ?thesis
    by (cases "Rooms (State ctx)")
      (auto simp: handleRoomData_def Let_def map_put_def make_map_def keeps_def ctx_defs)
qed

text \<open>
  The wire form of a room, as \<open>deserializeRoom\<close> expects it: id, name, current and maximal
  number of players.
\<close>

definition room_bytes :: "Room \<Rightarrow> bytes" where
  "room_bytes r = big_bytes (room_ID r) @ str_bytes (room_Name r)
     @ small_bytes (CurrentPlayers r) @ small_bytes (MaxPlayers r)"

lemma big_bytes_length [simp]: "big_ok n \<Longrightarrow> length (big_bytes n) = 4"
  using big.width_encode by force

lemma small_bytes_length [simp]: "small_ok n \<Longrightarrow> length (small_bytes n) = 2"
  using small.width_encode by force

lemma deserializeRoom_bytes:
  assumes "room_ok r"
  shows "deserializeRoom (room_bytes r @ rest) = Some r"
proof -
  let ?n = "room_Name r" and ?c = "small_bytes (CurrentPlayers r)" and ?m = "small_bytes (MaxPlayers r)"
  have ok: "big_ok (room_ID r)" "str_ok ?n" "small_ok (CurrentPlayers r)" "small_ok (MaxPlayers r)"
    using assms by (simp_all add: room_ok_def)
  let ?pl = "room_bytes r @ rest"
  have len: "big_ok (int (length ?n))" using ok(2) by (simp add: str_ok_def big_ok_def)
  have str: "str_bytes ?n = big_bytes (int (length ?n)) @ ?n" by (simp add: str_bytes_def big_bytes_def)
  have s4: "slice_from ?pl 4 = Some (str_bytes ?n @ ?c @ ?m @ rest)"
    using ok(1) by (simp add: room_bytes_def slice_from_def)
  have s8: "slice_from ?pl (4 + (4 + length ?n)) = Some (?c @ ?m @ rest)"
    using ok(1) len by (simp add: room_bytes_def slice_from_def str)
  have s10: "slice_from ?pl (4 + (4 + length ?n) + 2) = Some (?m @ rest)"
    using ok len by (simp add: room_bytes_def slice_from_def str)
  have i: "ReadBigInt ?pl = Some (room_ID r)"
    using big.decode_encode [OF ok(1)] by (simp add: room_bytes_def)
  have n: "ReadBigInt (str_bytes ?n @ ?c @ ?m @ rest) = Some (int (length ?n))"
    using big.decode_encode [OF len] by (simp add: str)
  show ?thesis
    using i n s4 s8 s10 str.decode_encode [OF ok(2)] small.decode_encode [OF ok(3)] small.decode_encode [OF ok(4)]
    by (simp add: deserializeRoom_def)
qed

text \<open>
  The showdown: a payload shorter than its count, or a named player who does not hold two
  cards, panics; with two cards for every player the handler returns.
\<close>

lemma handleShowdown_short: "length pl < 2 \<Longrightarrow> handleShowdown flog ctx pl = None"
  by (simp add: handleShowdown_def slice_from_def)

definition two_cards :: "ProgCtx \<Rightarrow> bool" where
  "two_cards ctx \<longleftrightarrow> (\<forall>nick d. lookup_player ctx nick = Some d \<longrightarrow> 2 \<le> length (Cards d))"

lemma reveal_cards_ok:
  assumes "lookup_player ctx nick = Some d" "two_cards ctx"
  shows "\<exists>ctx'. reveal_cards nick d a b ctx = Some ctx' \<and> keeps ctx ctx' \<and> two_cards ctx'"
proof -
  have len: "2 \<le> length (Cards d)" using assms by (auto simp: two_cards_def)
  then have i: "do { cs \<leftarrow> index_set (Cards d) 0 (shown_card a); cs \<leftarrow> index_set cs 1 (shown_card b);
      put_player nick (d\<lparr>Cards := cs\<rparr>) ctx }
    = put_player nick (d\<lparr>Cards := (Cards d)[0 := shown_card a, 1 := shown_card b]\<rparr>) ctx"
    by (auto simp: index_set_def)
  have "ctx_players ctx \<noteq> None" using assms(1) by (auto simp: lookup_player_def map_get_def split: option.splits)
  then obtain ctx' where p: "put_player nick (d\<lparr>Cards := (Cards d)[0 := shown_card a, 1 := shown_card b]\<rparr>) ctx = Some ctx'"
    by (meson not_Some_eq put_player_None_iff)
  have "two_cards ctx'"
    using put_player_lookup [OF p] len assms(2) by (auto simp: two_cards_def split: if_splits)
  with p i keeps_put_player [OF keeps_refl p] show ?thesis by (simp add: reveal_cards_def)
qed

lemma showdown_players_ok:
  assumes "log10_exact flog"
  shows "two_cards ctx \<Longrightarrow> \<exists>ctx'. showdown_players flog n pl ctx = Some ctx' \<and> keeps ctx ctx'"
proof (induction n arbitrary: pl ctx)
  case 0
  then show ?case by simp
next
  case (Suc n)
  show ?case
    using assms
  proof (cases rule: ParseMessage_cases [where pl = pl and ts = "[String, SmallInt, SmallInt]"])
    case (error res consumed e)
    with Suc show ?thesis by simp
  next
    case (fields res consumed)
    then obtain nick a b where res: "res = [VStr nick, VInt a, VInt b]" by (auto simp: list_all2_Cons1)
    have f: "get_str res 0 = Some nick" "get_int res 1 = Some a" "get_int res 2 = Some b"
      using res by simp_all
    show ?thesis
    proof (cases "lookup_player ctx nick")
      case None
      with fields f Suc show ?thesis by (simp add: slice_from_def)
    next
      case (Some d)
      obtain ctx' where "reveal_cards nick d a b ctx = Some ctx'" "keeps ctx ctx'" "two_cards ctx'"
        using reveal_cards_ok [OF Some Suc.prems] by blast
      with fields f Some Suc.IH [of ctx' "drop consumed pl"] keeps_trans show ?thesis
        by (auto simp: slice_from_def)
    qed
  qed
qed

lemma handleShowdown_returns:
  "log10_exact flog \<Longrightarrow> two_cards ctx \<Longrightarrow> 2 \<le> length pl \<Longrightarrow> returns ctx (handleShowdown flog ctx pl)"
  using showdown_players_ok [of flog ctx "nat (case ReadSmallInt pl of None \<Rightarrow> 0 | Some n \<Rightarrow> n)" "drop 2 pl"]
  by (auto simp: handleShowdown_def Let_def slice_from_def) (auto simp: keeps_def ctx_defs)

lemma reveal_cards_keeps: "reveal_cards nick d a b ctx = Some ctx' \<Longrightarrow> keeps ctx ctx'"
  by (auto simp: reveal_cards_def bind_Some_iff dest!: keeps_put_player [OF keeps_refl])

lemma showdown_players_keeps: "showdown_players flog n pl ctx = Some ctx' \<Longrightarrow> keeps ctx ctx'"
proof (induction n arbitrary: pl ctx)
  case (Suc n)
  obtain res consumed err where pm: "ParseMessage flog pl [String, SmallInt, SmallInt] = Some (res, consumed, err)"
    using Suc.prems by (auto simp: bind_Some_iff)
  show ?case
  proof (cases err)
    case (Some e)
    with pm Suc show ?thesis by simp
  next
    case None
    obtain nick a b where f: "get_str res 0 = Some nick" "get_int res 1 = Some a" "get_int res 2 = Some b"
      and sl: "slice_from pl consumed \<noteq> None"
      using Suc.prems pm None by (auto simp: bind_Some_iff)
    then obtain pl' where sl: "slice_from pl consumed = Some pl'" by blast
    show ?thesis
    proof (cases "lookup_player ctx nick")
      case player_None: None
      with Suc.prems pm None f sl Suc.IH [of pl' ctx] show ?thesis by simp
    next
      case (Some d)
      then obtain c where c: "reveal_cards nick d a b ctx = Some c" "showdown_players flog n pl' c = Some ctx'"
        using Suc.prems pm None f sl by (auto simp: bind_Some_iff)
      have "keeps c ctx'" using Suc.IH [OF c(2)] .
      with reveal_cards_keeps [OF c(1)] show ?thesis by (rule keeps_trans)
    qed
  qed
qed simp

lemma handleShowdown_keeps: "handleShowdown flog ctx pl = Some ctx' \<Longrightarrow> keeps ctx ctx'"
  by (auto simp: handleShowdown_def bind_Some_iff Let_def dest!: showdown_players_keeps)
    (auto simp: keeps_def ctx_defs)

section \<open>The room state on the wire\<close>

text \<open>
  What a well-formed \<open>RMST\<close> payload holds: the table, and one entry per player. The cards of
  the receiving player are meaningful when \<open>dealt\<close> is 1.
\<close>

record WirePlayer =
  w_nick :: bytes
  w_chips :: int
  w_folded :: bool
  w_ready :: bool
  w_turn :: bool
  w_action :: int
  w_amount :: int
  w_round :: int
  w_total :: int

definition flag :: "bool \<Rightarrow> int" where
  "flag b = (if b then 1 else 0)"

definition player_fields :: "WirePlayer \<Rightarrow> field list" where
  "player_fields w =
     [FStr (w_nick w), FVar (w_chips w), FSmall (flag (w_folded w)), FSmall (flag (w_ready w)),
      FSmall (flag (w_turn w)), FSmall (w_action w), FVar (w_amount w), FVar (w_round w), FVar (w_total w)]"

definition wire_data :: "WirePlayer \<Rightarrow> PlayerData" where
  "wire_data w =
     \<lparr>ChipCount = w_chips w, RoundBet = w_round w, TotalBet = w_total w, Cards = [hidden_card, hidden_card],
      IsMyTurn = w_turn w, IsFolded = w_folded w, IsReady = w_ready w,
      ActionTaken = actionIntToString (w_action w), ActionAmount = w_amount w\<rparr>"

definition state_fields ::
  "int \<Rightarrow> int \<Rightarrow> bool \<Rightarrow> int \<Rightarrow> int \<Rightarrow> int list \<Rightarrow> nat \<Rightarrow> field list" where
  "state_fields pot high dealt c1 c2 comm players =
     [FVar pot, FVar high, FSmall (flag dealt), FSmall c1, FSmall c2, FSmall (int (length comm))]"

definition state_bytes ::
  "int \<Rightarrow> int \<Rightarrow> bool \<Rightarrow> int \<Rightarrow> int \<Rightarrow> int list \<Rightarrow> WirePlayer list \<Rightarrow> bytes" where
  "state_bytes pot high dealt c1 c2 comm players =
     fields_bytes (state_fields pot high dealt c1 c2 comm (length players))
     @ fields_bytes (map FSmall comm @ [FSmall (int (length players))])
     @ concat (map (\<lambda>w. fields_bytes (player_fields w)) players)"

text \<open>The players' map after the loop.\<close>

definition reveal_own :: "bytes \<Rightarrow> bool \<Rightarrow> int \<Rightarrow> int \<Rightarrow> WirePlayer \<Rightarrow> PlayerData" where
  "reveal_own nick dealt c1 c2 w =
     (if w_nick w = nick \<and> dealt then (wire_data w)\<lparr>Cards := [shown_card c1, shown_card c2]\<rparr> else wire_data w)"

definition seat :: "(WirePlayer \<Rightarrow> PlayerData) \<Rightarrow> (bytes \<rightharpoonup> PlayerData) \<Rightarrow> WirePlayer list \<Rightarrow> (bytes \<rightharpoonup> PlayerData)" where
  "seat f m ws = foldl (\<lambda>m w. m(w_nick w \<mapsto> f w)) m ws"

definition wire_ok :: "(nat \<Rightarrow> nat) \<Rightarrow> WirePlayer \<Rightarrow> bool" where
  "wire_ok flog w \<longleftrightarrow> list_all (field_ok flog) (player_fields w)"

lemma flag_eq_1 [simp]: "(flag b = 1) = b"
  by (simp add: flag_def)

lemma flag_small [simp]: "small_ok (flag b)"
  by (simp add: flag_def small_ok_def)

lemma player_fields_types [simp]: "map field_type (player_fields w) = player_types"
  by (simp add: player_fields_def player_types_def)

lemma player_of_wire: "player_of_results (map field_val (player_fields w)) = Some (w_nick w, wire_data w)"
  by (simp add: player_fields_def player_of_results_eq wire_data_def)

lemma set_table_set_table: "set_table f (set_table g ctx) = set_table (\<lambda>t. f (g t)) ctx"
  by (simp add: ctx_defs)

lemma read_players_wire:
  "list_all (wire_ok flog) ws \<Longrightarrow> ctx_players ctx = Some m \<Longrightarrow>
   read_players flog dealt c1 c2 (length ws) (concat (map (\<lambda>w. fields_bytes (player_fields w)) ws) @ rest) ctx
   = Some (set_table (\<lambda>t. t\<lparr>Players := Some (seat (reveal_own (nickname ctx) dealt c1 c2) m ws)\<rparr>) ctx, None)"
proof (induction ws arbitrary: ctx m)
  case Nil
  then have "set_table (\<lambda>t. t\<lparr>Players := Some m\<rparr>) ctx = ctx"
    by (simp add: ctx_defs)
  then show ?case by (simp add: seat_def)
next
  case (Cons w ws)
  let ?rest = "concat (map (\<lambda>w. fields_bytes (player_fields w)) ws) @ rest"
  have "list_all (field_ok flog) (player_fields w)" using Cons.prems(1) by (simp add: wire_ok_def)
  from ParseMessage_roundtrip [OF this, of ?rest]
  have pm: "ParseMessage flog (fields_bytes (player_fields w) @ ?rest) player_types
      = Some (map field_val (player_fields w), length (fields_bytes (player_fields w)), None)"
    by simp
  let ?d = "reveal_own (nickname ctx) dealt c1 c2 w"
  have d: "(if w_nick w = nickname ctx \<and> dealt
      then do { cs \<leftarrow> index_set (Cards (wire_data w)) 0 (shown_card c1); cs \<leftarrow> index_set cs 1 (shown_card c2);
                Some ((wire_data w)\<lparr>Cards := cs\<rparr>) }
      else Some (wire_data w)) = Some ?d"
    by (simp add: reveal_own_def wire_data_def index_set_def)
  let ?ctx = "set_table (\<lambda>t. t\<lparr>Players := Some (m(w_nick w \<mapsto> ?d))\<rparr>) ctx"
  have put: "put_player (w_nick w) ?d ctx = Some ?ctx"
    using Cons.prems(2) by (simp add: put_player_def map_put_def)
  have "read_players flog dealt c1 c2 (length (w # ws)) (fields_bytes (player_fields w) @ ?rest) ctx
      = read_players flog dealt c1 c2 (length ws) ?rest ?ctx"
    using pm player_of_wire d put by simp
  also have "\<dots> = Some (set_table (\<lambda>t. t\<lparr>Players := Some (seat (reveal_own (nickname ?ctx) dealt c1 c2)
      (m(w_nick w \<mapsto> ?d)) ws)\<rparr>) ?ctx, None)"
    using Cons.prems by (intro Cons.IH) (simp_all add: fun_upd_def)
  finally show ?case by (simp add: set_table_set_table seat_def)
qed

lemma map_go_small:
  "map_go (get_int (map VInt xs @ ys)) [0..<length xs] = Some xs"
proof -
  have "map_go f js = Some (map g js)" if "\<And>i. i \<in> set js \<Longrightarrow> f i = Some (g i)" for f :: "nat \<Rightarrow> int go" and g js
    using that by (induction js) simp_all
  from this [of "[0..<length xs]" "get_int (map VInt xs @ ys)" "\<lambda>i. xs ! i"]
  show ?thesis by (simp add: get_int_def index_get_def nth_append map_nth)
qed

text \<open>The successful path of \<open>deserializeRoomState\<close> up to its loop.\<close>

definition table_read :: "int \<Rightarrow> int \<Rightarrow> int list \<Rightarrow> ProgCtx \<Rightarrow> ProgCtx" where
  "table_read pot high cards ctx =
     set_table (\<lambda>t. t\<lparr>CommunityCards := map shown_card cards, Pot := pot, HighBet := high,
       Players := Some (case ctx_players ctx of None \<Rightarrow> Map.empty | Some m \<Rightarrow> m)\<rparr>) ctx"

lemma deserializeRoomState_steps:
  assumes "ParseMessage flog pl room_state_types = Some (res, n1, None)" "slice_from pl n1 = Some pl1"
    and "get_int res 0 = Some pot" "get_int res 1 = Some high" "get_int res 2 = Some dealt"
      "get_int res 3 = Some c1" "get_int res 4 = Some c2" "get_int res 5 = Some comm"
    and "ParseMessage flog pl1 (replicate (nat (comm + 1)) SmallInt) = Some (res2, n2, None)"
      "slice_from pl1 n2 = Some pl2" "map_go (get_int res2) [0..<nat comm] = Some cards"
      "get_int res2 (nat comm) = Some n"
  shows "deserializeRoomState flog ctx pl =
    read_players flog (dealt = 1) c1 c2 (nat n) pl2 (table_read pot high cards ctx)"
proof -
  have start: "set_table (\<lambda>t. t\<lparr>CommunityCards := CommunityCards t @ map shown_card cards\<rparr>)
      (set_table (\<lambda>t. t\<lparr>HighBet := high\<rparr>) (set_table (\<lambda>t. t\<lparr>Pot := pot\<rparr>)
        (set_table (\<lambda>t. t\<lparr>CommunityCards := []\<rparr>)
          (if ctx_players ctx = None then set_table (\<lambda>t. t\<lparr>Players := make_map\<rparr>) ctx else ctx))))
      = table_read pot high cards ctx"
    by (auto simp: table_read_def ctx_defs make_map_def)
  show ?thesis
    unfolding deserializeRoomState_def Let_def start [symmetric] by (simp add: assms del: One_nat_def)
qed

lemma deserializeRoomState_wire:
  assumes head: "list_all (field_ok flog) (state_fields pot high dealt c1 c2 comm (length ws))"
    and comm: "list_all small_ok comm" and n: "length ws \<le> 99" and ws: "list_all (wire_ok flog) ws"
  shows "deserializeRoomState flog ctx (state_bytes pot high dealt c1 c2 comm ws @ rest) =
    Some (set_table (\<lambda>t. t\<lparr>CommunityCards := map shown_card comm, Pot := pot, HighBet := high,
        Players := Some (seat (reveal_own (nickname ctx) dealt c1 c2)
          (case ctx_players ctx of None \<Rightarrow> Map.empty | Some m \<Rightarrow> m) ws)\<rparr>) ctx, None)"
proof -
  let ?h = "state_fields pot high dealt c1 c2 comm (length ws)"
  let ?c = "map FSmall comm @ [FSmall (int (length ws))]"
  let ?p = "concat (map (\<lambda>w. fields_bytes (player_fields w)) ws) @ rest"
  let ?pl = "state_bytes pot high dealt c1 c2 comm ws @ rest"
  have pl: "?pl = fields_bytes ?h @ fields_bytes ?c @ ?p" by (simp add: state_bytes_def)
  have pm1: "ParseMessage flog ?pl room_state_types = Some (map field_val ?h, length (fields_bytes ?h), None)"
    unfolding pl using ParseMessage_roundtrip [OF head, of "fields_bytes ?c @ ?p"]
    by (simp add: state_fields_def room_state_types_def)
  have c_ok: "list_all (field_ok flog) ?c"
    using comm n by (auto simp: list_all_iff small_ok_def)
  have types: "replicate (nat (int (length comm) + 1)) SmallInt = map field_type ?c"
    by (simp add: map_replicate_const nat_add_distrib comp_def replicate_append_same)
  have pm2: "ParseMessage flog (fields_bytes ?c @ ?p) (replicate (nat (int (length comm) + 1)) SmallInt)
      = Some (map VInt comm @ [VInt (int (length ws))], length (fields_bytes ?c), None)"
    unfolding types using ParseMessage_roundtrip [OF c_ok, of ?p] by (simp add: comp_def)
  have vals: "map field_val ?h = [VInt pot, VInt high, VInt (flag dealt), VInt c1, VInt c2, VInt (int (length comm))]"
    by (simp add: state_fields_def)
  have g: "get_int (map field_val ?h) 0 = Some pot" "get_int (map field_val ?h) 1 = Some high"
    "get_int (map field_val ?h) 2 = Some (flag dealt)" "get_int (map field_val ?h) 3 = Some c1"
    "get_int (map field_val ?h) 4 = Some c2" "get_int (map field_val ?h) 5 = Some (int (length comm))"
    unfolding vals by simp_all
  have cnt: "get_int (map VInt comm @ [VInt (int (length ws))]) (length comm) = Some (int (length ws))"
    by (simp add: get_int_def index_get_def nth_append)
  have s1: "slice_from ?pl (length (fields_bytes ?h)) = Some (fields_bytes ?c @ ?p)"
    unfolding pl by (rule slice_from_append)
  have s2: "slice_from (fields_bytes ?c @ ?p) (length (fields_bytes ?c)) = Some ?p"
    by (rule slice_from_append)
  let ?ctx = "table_read pot high comm ctx"
  have "deserializeRoomState flog ctx ?pl = read_players flog (flag dealt = 1) c1 c2 (nat (int (length ws))) ?p ?ctx"
    by (rule deserializeRoomState_steps [OF pm1 s1 g pm2 s2])
      (use map_go_small [of comm "[VInt (int (length ws))]"] cnt in simp_all)
  also have "\<dots> = Some (set_table (\<lambda>t. t\<lparr>Players := Some (seat (reveal_own (nickname ?ctx) dealt c1 c2)
      (case ctx_players ctx of None \<Rightarrow> Map.empty | Some m \<Rightarrow> m) ws)\<rparr>) ?ctx, None)"
    using read_players_wire [OF ws, of ?ctx] by (simp add: table_read_def)
  finally show ?thesis by (simp add: table_read_def set_table_set_table)
qed

lemma seat_lookup:
  "distinct (map w_nick ws) \<Longrightarrow>
   (\<forall>w \<in> set ws. seat f m ws (w_nick w) = Some (f w)) \<and> (\<forall>k. k \<notin> w_nick ` set ws \<longrightarrow> seat f m ws k = m k)"
proof (induction ws arbitrary: m)
  case (Cons w ws)
  then have "seat f (m(w_nick w \<mapsto> f w)) ws (w_nick w) = Some (f w)" by auto
  with Cons show ?case by (auto simp: seat_def)
qed (simp add: seat_def)

section \<open>Properties\<close>

text \<open>
  C35. A room is read back from the payload that encodes it, whatever bytes follow: id, name and
  the two player counts.
\<close>

theorem deserializeRoom_roundtrip:
  assumes "room_ok r"
  shows "deserializeRoom (room_bytes r @ rest) = Some r"
  using assms by (rule deserializeRoom_bytes)

lemma deserializeRoom_roundtrip_witness:
  "deserializeRoom (''00070005Poker0304'' @ ''x'')
   = Some \<lparr>room_ID = 7, room_Name = ''Poker'', CurrentPlayers = 3, MaxPlayers = 4\<rparr>"
proof -
  let ?r = "\<lparr>room_ID = 7, room_Name = ''Poker'', CurrentPlayers = 3, MaxPlayers = 4\<rparr>"
  have "room_ok ?r" by (simp add: room_ok_def big_ok_def str_ok_def small_ok_def)
  moreover have "room_bytes ?r = ''00070005Poker0304''"
    by code_simp
  ultimately show ?thesis using deserializeRoom_roundtrip [of ?r "''x''"] by simp
qed

text \<open>
  No payload makes the room reader panic: whatever the server sends, \<open>deserializeRoom\<close>
  returns, and either the marker of an invalid room or a room whose fields are within the
  ranges of their encodings.
\<close>

theorem deserializeRoom_total:
  "\<exists>r. deserializeRoom pl = Some r \<and> (r = err_room \<or> room_ok r)"
  by (rule deserializeRoom_returns)

text \<open>
  C16. The room state the server sends is the state the client takes over: for a well-formed
  payload (at most 99 players with different nicks, and values within the ranges of their
  fields) \<open>deserializeRoomState\<close> reports no error, sets the pot, the high bet and the community
  cards, gives every listed player the data on the wire, with his own cards shown to the
  receiving player alone and only if they are dealt, and leaves other entries as they were.
\<close>

theorem deserializeRoomState_roundtrip:
  assumes "list_all (field_ok flog) (state_fields pot high dealt c1 c2 comm (length ws))"
    and "list_all small_ok comm" and "length ws \<le> 99" and "list_all (wire_ok flog) ws"
    and "distinct (map w_nick ws)"
  shows "\<exists>ctx'. deserializeRoomState flog ctx (state_bytes pot high dealt c1 c2 comm ws @ rest) = Some (ctx', None)
    \<and> Pot (Table (State ctx')) = pot \<and> HighBet (Table (State ctx')) = high
    \<and> CommunityCards (Table (State ctx')) = map shown_card comm
    \<and> (\<forall>w \<in> set ws. lookup_player ctx' (w_nick w) = Some (if w_nick w = nickname ctx \<and> dealt
          then (wire_data w)\<lparr>Cards := [shown_card c1, shown_card c2]\<rparr> else wire_data w))
    \<and> (\<forall>k. k \<notin> w_nick ` set ws \<longrightarrow> lookup_player ctx' k = lookup_player ctx k)"
proof -
  let ?m = "case ctx_players ctx of None \<Rightarrow> Map.empty | Some m \<Rightarrow> m"
  let ?ctx = "set_table (\<lambda>t. t\<lparr>CommunityCards := map shown_card comm, Pot := pot, HighBet := high,
        Players := Some (seat (reveal_own (nickname ctx) dealt c1 c2) ?m ws)\<rparr>) ctx"
  have l: "lookup_player ?ctx k = seat (reveal_own (nickname ctx) dealt c1 c2) ?m ws k" for k
    by (simp add: lookup_player_def map_get_def)
  have "lookup_player ctx k = ?m k" for k
    by (simp add: lookup_player_def map_get_def split: option.split)
  then show ?thesis
    using deserializeRoomState_wire [OF assms(1-4), of ctx rest] seat_lookup [OF assms(5)]
    by (intro exI [of _ ?ctx]) (simp add: l reveal_own_def)
qed

definition sample_player :: WirePlayer where
  "sample_player = \<lparr>w_nick = ''bob'', w_chips = 95, w_folded = False, w_ready = True, w_turn = True,
     w_action = 2, w_amount = 5, w_round = 5, w_total = 5\<rparr>"

lemma sample_player_ok: "wire_ok exact_log10 sample_player"
  by (simp add: wire_ok_def sample_player_def player_fields_def small_ok_def [of 2] str_ok_def
      log10_exact_var_ok in64_def)

lemma deserializeRoomState_roundtrip_witness:
  "\<exists>ctx'. deserializeRoomState exact_log10 (ctx_with Map.empty) (state_bytes 10 5 True 12 25 [1, 2, 3] [sample_player] @ []) = Some (ctx', None)
    \<and> Pot (Table (State ctx')) = 10 \<and> HighBet (Table (State ctx')) = 5
    \<and> CommunityCards (Table (State ctx')) = map shown_card [1, 2, 3]
    \<and> (\<forall>w \<in> set [sample_player]. lookup_player ctx' (w_nick w) = Some (if w_nick w = nickname (ctx_with Map.empty) \<and> True
          then (wire_data w)\<lparr>Cards := [shown_card 12, shown_card 25]\<rparr> else wire_data w))
    \<and> (\<forall>k. k \<notin> w_nick ` set [sample_player] \<longrightarrow> lookup_player ctx' k = lookup_player (ctx_with Map.empty) k)"
  by (rule deserializeRoomState_roundtrip)
    (simp_all add: state_fields_def sample_player_ok log10_exact_var_ok in64_def small_ok_def flag_def)

text \<open>The payload of \<open>PACT\<close>, and what the handler does with it.\<close>

definition action_bytes :: "bytes \<Rightarrow> int \<Rightarrow> int \<Rightarrow> bytes" where
  "action_bytes nick act amt = fields_bytes [FStr nick, FSmall act, FVar amt]"

definition action_ok :: "(nat \<Rightarrow> nat) \<Rightarrow> bytes \<Rightarrow> int \<Rightarrow> int \<Rightarrow> bool" where
  "action_ok flog nick act amt \<longleftrightarrow> str_ok nick \<and> small_ok act \<and> var_ok flog amt"

lemma ParseMessage_action:
  "action_ok flog nick act amt \<Longrightarrow>
   ParseMessage flog (action_bytes nick act amt @ rest) [String, SmallInt, VarInt]
   = Some ([VStr nick, VInt act, VInt amt], length (action_bytes nick act amt), None)"
  using ParseMessage_roundtrip [of flog "[FStr nick, FSmall act, FVar amt]" rest]
  by (simp add: action_ok_def action_bytes_def)

lemma action_results [simp]:
  "get_str [VStr nick, VInt act, VInt amt] 0 = Some nick" "get_int [VStr nick, VInt act, VInt amt] (Suc 0) = Some act"
  "get_int [VStr nick, VInt act, VInt amt] 2 = Some amt"
  by (simp_all add: get_str_def get_int_def index_get_def)

lemma put_player_eq:
  "lookup_player c nick = Some d \<Longrightarrow>
   put_player nick d' c = Some (set_table (\<lambda>t. t\<lparr>Players := Some ((the (ctx_players c))(nick \<mapsto> d'))\<rparr>) c)"
  by (auto simp: put_player_def map_put_def lookup_player_def map_get_def split: option.splits)

lemma lookup_set_players:
  "lookup_player (set_table (\<lambda>t. t\<lparr>Players := Some (m(nick \<mapsto> d'))\<rparr>) c) k = (if k = nick then Some d' else m k)"
  by (simp add: lookup_player_def map_get_def)

lemma lookup_the_players: "lookup_player c nick = Some d \<Longrightarrow> the (ctx_players c) k = lookup_player c k"
  by (auto simp: lookup_player_def map_get_def split: option.splits)

text \<open>
  C26. The money of another player's action: a call moves the amount from his chips to the pot,
  and the sum stays the same; a bet takes the amount from his chips too, but adds his whole
  round bet to the pot, so chips and pot together grow by what he had already bet in this round.
  The high bet becomes his round bet after a bet and stays after a call; no other player
  changes.
\<close>

theorem PACT_money:
  assumes "action_ok flog nick act amt" and "lookup_player ctx nick = Some d"
    and "0 \<le> amt" "amt < 2 ^ 60" "0 \<le> RoundBet d" "RoundBet d < 2 ^ 60"
      "0 \<le> ChipCount d" "ChipCount d < 2 ^ 60" "0 \<le> Pot (Table (State ctx))" "Pot (Table (State ctx)) < 2 ^ 60"
    and "act = 2 \<or> act = 4"
  shows "\<exists>ctx' d'. handlePlayerAction flog ctx (action_bytes nick act amt @ rest) = Some ctx'
    \<and> lookup_player ctx' nick = Some d' \<and> (\<forall>k. k \<noteq> nick \<longrightarrow> lookup_player ctx' k = lookup_player ctx k)
    \<and> ChipCount d' = ChipCount d - amt
    \<and> Pot (Table (State ctx')) + ChipCount d' =
        Pot (Table (State ctx)) + ChipCount d + (if act = 4 then RoundBet d else 0)
    \<and> RoundBet d' = (if act = 4 then RoundBet d + amt else amt)
    \<and> HighBet (Table (State ctx')) = (if act = 4 then RoundBet d + amt else HighBet (Table (State ctx)))"
proof -
  have sub: "in64 (ChipCount d - amt)" using assms(3-10) by (simp add: in64_def)
  have "in64 (RoundBet d + amt)" "in64 (Pot (Table (State ctx)) + amt)"
    "in64 (Pot (Table (State ctx)) + (RoundBet d + amt))"
    using assms(3-10) by (simp_all add: in64_def)
  note [simp] = this [THEN add64_id] sub [THEN sub64_id]
  have a: "actionIntToString 2 = ''CALL''" "actionIntToString 4 = ''BETT''"
    by (simp_all add: actionIntToString_def)
  have l: "lookup_player (set_table g ctx) nick = Some d" if "\<And>t. Players (g t) = Players t" for g
    using assms(2) that by (simp add: lookup_player_def ctx_players_def)
  show ?thesis
    using assms(11)
  proof
    assume "act = 2"
    then show ?thesis
      using assms(1,2) l a
      by (simp add: handlePlayerAction_def ParseMessage_action Let_def put_player_eq [of _ nick d]
          lookup_set_players lookup_the_players ctx_players_def [symmetric])
  next
    assume "act = 4"
    then show ?thesis
      using assms(1,2) l a
      by (simp add: handlePlayerAction_def ParseMessage_action Let_def put_player_eq [of _ nick d]
          lookup_set_players lookup_the_players ctx_players_def [symmetric])
  qed
qed

lemma sample_action_ok: "action_ok exact_log10 ''bob'' act 20" if "act \<in> {0..99}"
  using that by (simp add: action_ok_def str_ok_def small_ok_def log10_exact_var_ok in64_def)

lemma PACT_money_witness:
  "\<exists>ctx' d'. handlePlayerAction exact_log10 (ctx_with [''bob'' \<mapsto> wire_data sample_player])
      (action_bytes ''bob'' 4 20 @ []) = Some ctx'
    \<and> lookup_player ctx' ''bob'' = Some d'
    \<and> (\<forall>k. k \<noteq> ''bob'' \<longrightarrow> lookup_player ctx' k = lookup_player (ctx_with [''bob'' \<mapsto> wire_data sample_player]) k)
    \<and> ChipCount d' = ChipCount (wire_data sample_player) - 20
    \<and> Pot (Table (State ctx')) + ChipCount d' =
        Pot (Table (State (ctx_with [''bob'' \<mapsto> wire_data sample_player])))
          + ChipCount (wire_data sample_player) + (if (4 :: int) = 4 then RoundBet (wire_data sample_player) else 0)
    \<and> RoundBet d' = (if (4 :: int) = 4 then RoundBet (wire_data sample_player) + 20 else 20)
    \<and> HighBet (Table (State ctx')) = (if (4 :: int) = 4 then RoundBet (wire_data sample_player) + 20
        else HighBet (Table (State (ctx_with [''bob'' \<mapsto> wire_data sample_player]))))"
  by (rule PACT_money) (simp_all add: sample_action_ok, simp_all add: wire_data_def sample_player_def)

text \<open>
  The other actions of a player: a fold marks him folded, a check changes only his last
  action, a player who left is removed from the table; in each case the money and the other
  players stay. An action of a player who is not at the table changes nothing.
\<close>

theorem PACT_without_money:
  assumes "action_ok flog nick act amt" and "act \<in> {1, 3, 5}"
  shows "\<exists>ctx'. handlePlayerAction flog ctx (action_bytes nick act amt @ rest) = Some ctx'
    \<and> lookup_player ctx' nick =
        (if act = 5 then None
         else map_option (\<lambda>d. d\<lparr>ActionTaken := actionIntToString act, ActionAmount := amt,
                IsFolded := (IsFolded d \<or> act = 3)\<rparr>) (lookup_player ctx nick))
    \<and> (\<forall>k. k \<noteq> nick \<longrightarrow> lookup_player ctx' k = lookup_player ctx k)
    \<and> Pot (Table (State ctx')) = Pot (Table (State ctx))
    \<and> HighBet (Table (State ctx')) = HighBet (Table (State ctx))
    \<and> (lookup_player ctx nick = None \<longrightarrow> ctx' = ctx)"
proof (cases "lookup_player ctx nick")
  case None
  with assms show ?thesis
    by (simp add: handlePlayerAction_def ParseMessage_action)
next
  case (Some d)
  have a: "actionIntToString 1 = ''CHCK''" "actionIntToString 3 = ''FOLD''" "actionIntToString 5 = ''LEFT''"
    by (simp_all add: actionIntToString_def)
  note step = handlePlayerAction_def ParseMessage_action Let_def put_player_eq [of _ nick d]
    lookup_set_players lookup_the_players
  consider "act = 1" | "act = 3" | "act = 5" using assms(2) by blast
  then show ?thesis
  proof cases
    case 1
    with assms(1) Some a show ?thesis by (simp add: step)
  next
    case 2
    with assms(1) Some a show ?thesis by (simp add: step)
  next
    case 3
    with assms(1) Some a show ?thesis by (simp add: step) (simp add: delete_player_def)
  qed
qed

lemma PACT_without_money_witness:
  "\<exists>ctx'. handlePlayerAction exact_log10 (ctx_with [''bob'' \<mapsto> wire_data sample_player])
      (action_bytes ''bob'' 3 20 @ []) = Some ctx'
    \<and> lookup_player ctx' ''bob'' =
        (if (3 :: int) = 5 then None
         else map_option (\<lambda>d. d\<lparr>ActionTaken := actionIntToString 3, ActionAmount := 20,
                IsFolded := (IsFolded d \<or> (3 :: int) = 3)\<rparr>)
              (lookup_player (ctx_with [''bob'' \<mapsto> wire_data sample_player]) ''bob''))
    \<and> (\<forall>k. k \<noteq> ''bob'' \<longrightarrow> lookup_player ctx' k = lookup_player (ctx_with [''bob'' \<mapsto> wire_data sample_player]) k)
    \<and> Pot (Table (State ctx')) = Pot (Table (State (ctx_with [''bob'' \<mapsto> wire_data sample_player])))
    \<and> HighBet (Table (State ctx')) = HighBet (Table (State (ctx_with [''bob'' \<mapsto> wire_data sample_player])))
    \<and> (lookup_player (ctx_with [''bob'' \<mapsto> wire_data sample_player]) ''bob'' = None \<longrightarrow>
         ctx' = ctx_with [''bob'' \<mapsto> wire_data sample_player])"
  by (rule PACT_without_money) (simp_all add: sample_action_ok)

text \<open>The payload of \<open>SDWN\<close>: a count, then nick and two cards per player.\<close>

definition reveal_fields :: "bytes \<times> int \<times> int \<Rightarrow> field list" where
  "reveal_fields e = (case e of (nick, a, b) \<Rightarrow> [FStr nick, FSmall a, FSmall b])"

definition showdown_bytes :: "(bytes \<times> int \<times> int) list \<Rightarrow> bytes" where
  "showdown_bytes es = small_bytes (int (length es)) @ concat (map (\<lambda>e. fields_bytes (reveal_fields e)) es)"

definition reveal_ok :: "bytes \<times> int \<times> int \<Rightarrow> bool" where
  "reveal_ok e = (case e of (nick, a, b) \<Rightarrow> str_ok nick \<and> small_ok a \<and> small_ok b)"

lemma ParseMessage_reveal:
  "reveal_ok (nick, a, b) \<Longrightarrow>
   ParseMessage flog (fields_bytes (reveal_fields (nick, a, b)) @ rest) [String, SmallInt, SmallInt]
   = Some ([VStr nick, VInt a, VInt b], length (fields_bytes (reveal_fields (nick, a, b))), None)"
  using ParseMessage_roundtrip [of flog "reveal_fields (nick, a, b)" rest]
  by (simp add: reveal_ok_def reveal_fields_def)

lemma showdown_step:
  assumes "reveal_ok (nick, a, b)"
  shows "showdown_players flog (Suc n) (fields_bytes (reveal_fields (nick, a, b)) @ rest) ctx =
    (case lookup_player ctx nick of
       None \<Rightarrow> showdown_players flog n rest ctx
     | Some d \<Rightarrow> do { ctx \<leftarrow> reveal_cards nick d a b ctx; showdown_players flog n rest ctx })"
  using ParseMessage_reveal [OF assms, of flog rest] by simp

lemma reveal_cards_short: "length (Cards d) < 2 \<Longrightarrow> reveal_cards nick d a b ctx = None"
  by (auto simp: reveal_cards_def index_set_def bind_None_iff)

lemma reveal_cards_two:
  assumes "lookup_player ctx nick = Some d" "length (Cards d) = 2"
  shows "\<exists>ctx'. reveal_cards nick d a b ctx = Some ctx'
    \<and> (\<forall>k. lookup_player ctx' k = (if k = nick then Some (d\<lparr>Cards := [shown_card a, shown_card b]\<rparr>) else lookup_player ctx k))"
proof -
  have "do { cs \<leftarrow> index_set (Cards d) 0 (shown_card a); index_set cs 1 (shown_card b) } = Some [shown_card a, shown_card b]"
    using assms(2) by (rule set_two_cards)
  then have "reveal_cards nick d a b ctx = put_player nick (d\<lparr>Cards := [shown_card a, shown_card b]\<rparr>) ctx"
    by (auto simp: reveal_cards_def bind_Some_iff)
  moreover obtain ctx' where "put_player nick (d\<lparr>Cards := [shown_card a, shown_card b]\<rparr>) ctx = Some ctx'"
    using put_player_eq [OF assms(1)] by blast
  ultimately show ?thesis using put_player_lookup by fastforce
qed

lemma showdown_players_reveal:
  "list_all reveal_ok es \<Longrightarrow> distinct (map fst es) \<Longrightarrow>
   (\<forall>(nick, a, b) \<in> set es. \<forall>d. lookup_player ctx nick = Some d \<longrightarrow> length (Cards d) = 2) \<Longrightarrow>
   \<exists>ctx'. showdown_players flog (length es) (concat (map (\<lambda>e. fields_bytes (reveal_fields e)) es) @ rest) ctx = Some ctx'
     \<and> (\<forall>(nick, a, b) \<in> set es. lookup_player ctx' nick =
          map_option (\<lambda>d. d\<lparr>Cards := [shown_card a, shown_card b]\<rparr>) (lookup_player ctx nick))
     \<and> (\<forall>k. k \<notin> fst ` set es \<longrightarrow> lookup_player ctx' k = lookup_player ctx k)"
proof (induction es arbitrary: ctx)
  case (Cons e es)
  obtain nick a b where e: "e = (nick, a, b)" by (cases e)
  let ?rest = "concat (map (\<lambda>e. fields_bytes (reveal_fields e)) es) @ rest"
  have ok: "reveal_ok (nick, a, b)" using Cons.prems(1) e by simp
  have new: "nick \<notin> fst ` set es" using Cons.prems(2) e by simp
  show ?case
  proof (cases "lookup_player ctx nick")
    case None
    obtain ctx' where "showdown_players flog (length es) ?rest ctx = Some ctx'"
      "\<forall>(nick, a, b) \<in> set es. lookup_player ctx' nick =
          map_option (\<lambda>d. d\<lparr>Cards := [shown_card a, shown_card b]\<rparr>) (lookup_player ctx nick)"
      "\<forall>k. k \<notin> fst ` set es \<longrightarrow> lookup_player ctx' k = lookup_player ctx k"
      using Cons.IH [of ctx] Cons.prems by auto
    with None new e showdown_step [OF ok, of flog "length es" ?rest ctx] show ?thesis by simp
  next
    case (Some d)
    then have "length (Cards d) = 2" using Cons.prems(3) e by auto
    from reveal_cards_two [OF Some this, of a b] obtain c where c: "reveal_cards nick d a b ctx = Some c"
      "\<And>k. lookup_player c k = (if k = nick then Some (d\<lparr>Cards := [shown_card a, shown_card b]\<rparr>) else lookup_player ctx k)"
      by blast
    have tail: "list_all reveal_ok es" "distinct (map fst es)" using Cons.prems by simp_all
    have two: "\<forall>(nick, a, b) \<in> set es. \<forall>d. lookup_player c nick = Some d \<longrightarrow> length (Cards d) = 2"
      using Cons.prems(3) c(2) by (fastforce split: if_splits)
    obtain ctx' where ctx': "showdown_players flog (length es) ?rest c = Some ctx'"
      "\<forall>(nick, a, b) \<in> set es. lookup_player ctx' nick =
          map_option (\<lambda>d. d\<lparr>Cards := [shown_card a, shown_card b]\<rparr>) (lookup_player c nick)"
      "\<forall>k. k \<notin> fst ` set es \<longrightarrow> lookup_player ctx' k = lookup_player c k"
      using Cons.IH [OF tail two] by blast
    have "lookup_player c k = lookup_player ctx k" if "(k, x, y) \<in> set es" for k x y
      using that new c(2) by force
    then have "\<forall>(nick, a, b) \<in> set es. lookup_player ctx' nick =
          map_option (\<lambda>d. d\<lparr>Cards := [shown_card a, shown_card b]\<rparr>) (lookup_player ctx nick)"
      using ctx'(2) by fastforce
    with Some new e c ctx' showdown_step [OF ok, of flog "length es" ?rest ctx] show ?thesis
      by simp
  qed
qed simp

text \<open>
  C28. The showdown shows the cards: when every player named in the payload holds two cards at
  the table (or is unknown to the client), the handler gives each of them the two cards of the
  payload, face up and with their names, leaves everybody else as he was and enters the
  showdown.
\<close>

theorem showdown_reveals_cards:
  assumes "list_all reveal_ok es" and "distinct (map fst es)" and "length es \<le> 99"
    and "\<forall>(nick, a, b) \<in> set es. \<forall>d. lookup_player ctx nick = Some d \<longrightarrow> length (Cards d) = 2"
  shows "\<exists>ctx'. handleShowdown flog ctx (showdown_bytes es @ rest) = Some ctx' \<and> Showdown (State ctx')
    \<and> (\<forall>(nick, a, b) \<in> set es. lookup_player ctx' nick = map_option (\<lambda>d. d\<lparr>Cards :=
          [\<lparr>card_ID = a, Symbol = TranslateCardID a, Hidden = False\<rparr>,
           \<lparr>card_ID = b, Symbol = TranslateCardID b, Hidden = False\<rparr>]\<rparr>) (lookup_player ctx nick))
    \<and> (\<forall>k. k \<notin> fst ` set es \<longrightarrow> lookup_player ctx' k = lookup_player ctx k)"
proof -
  let ?body = "concat (map (\<lambda>e. fields_bytes (reveal_fields e)) es) @ rest"
  have n: "small_ok (int (length es))" using assms(3) by (simp add: small_ok_def)
  have count: "ReadSmallInt (showdown_bytes es @ rest) = Some (int (length es))"
    using small.decode_encode [OF n, of ?body] by (simp add: showdown_bytes_def)
  have body: "slice_from (showdown_bytes es @ rest) 2 = Some ?body"
    using n by (simp add: slice_from_def showdown_bytes_def)
  obtain c where c: "showdown_players flog (length es) ?body ctx = Some c"
    "\<forall>(nick, a, b) \<in> set es. lookup_player c nick =
          map_option (\<lambda>d. d\<lparr>Cards := [shown_card a, shown_card b]\<rparr>) (lookup_player ctx nick)"
    "\<forall>k. k \<notin> fst ` set es \<longrightarrow> lookup_player c k = lookup_player ctx k"
    using showdown_players_reveal [OF assms(1,2,4)] by blast
  let ?final = "AddPopup ''Showdown! Revealing cards...'' (3 * time_Second) (set_state (\<lambda>s. s\<lparr>Showdown := True\<rparr>) c)"
  have "handleShowdown flog ctx (showdown_bytes es @ rest) = Some ?final"
    using count body c(1) by (simp add: handleShowdown_def Let_def)
  moreover have "lookup_player ?final k = lookup_player c k" for k
    by (simp add: lookup_player_def ctx_defs)
  ultimately show ?thesis using c(2,3) by (auto simp: shown_card_def)
qed

lemma showdown_reveals_cards_witness:
  "\<exists>ctx'. handleShowdown exact_log10 (ctx_with [''bob'' \<mapsto> wire_data sample_player])
      (showdown_bytes [(''bob'', 3, 51), (''eve'', 4, 5)] @ []) = Some ctx' \<and> Showdown (State ctx')
    \<and> (\<forall>(nick, a, b) \<in> set [(''bob'', 3, 51), (''eve'', 4, 5)]. lookup_player ctx' nick = map_option (\<lambda>d. d\<lparr>Cards :=
          [\<lparr>card_ID = a, Symbol = TranslateCardID a, Hidden = False\<rparr>,
           \<lparr>card_ID = b, Symbol = TranslateCardID b, Hidden = False\<rparr>]\<rparr>)
             (lookup_player (ctx_with [''bob'' \<mapsto> wire_data sample_player]) nick))
    \<and> (\<forall>k. k \<notin> fst ` set [(''bob'', 3 :: int, 51 :: int), (''eve'', 4, 5)] \<longrightarrow>
         lookup_player ctx' k = lookup_player (ctx_with [''bob'' \<mapsto> wire_data sample_player]) k)"
  by (rule showdown_reveals_cards)
    (simp_all add: reveal_ok_def str_ok_def small_ok_def wire_data_def)

text \<open>
  C29. The showdown can crash the client: a payload of fewer than two bytes panics, and so does
  a payload whose first entry names a player who holds fewer than two cards at the table, as
  the receiving player does between \<open>GMST\<close> and \<open>CDTP\<close>.
\<close>

theorem showdown_panics:
  assumes "reveal_ok (nick, a, b)" and "lookup_player ctx nick = Some d" and "length (Cards d) < 2"
    and "1 \<le> n" and "n \<le> 99"
  shows "handleShowdown flog ctx (small_bytes n @ fields_bytes (reveal_fields (nick, a, b)) @ rest) = None
    \<and> handleShowdown flog ctx [c] = None \<and> handleShowdown flog ctx [] = None"
proof -
  have ok: "small_ok n" using assms(4,5) by (simp add: small_ok_def)
  obtain k where k: "nat n = Suc k" using assms(4) by (cases "nat n") simp_all
  have "showdown_players flog (nat n) (fields_bytes (reveal_fields (nick, a, b)) @ rest) ctx = None"
    using showdown_step [OF assms(1)] assms(2) reveal_cards_short [OF assms(3)] k by simp
  then show ?thesis
    using small.decode_encode [OF ok] ok by (simp add: handleShowdown_def Let_def slice_from_def handleShowdown_short)
qed

lemma showdown_panics_witness:
  "handleShowdown exact_log10 (ctx_with [''bob'' \<mapsto> zero_player])
     (small_bytes 1 @ fields_bytes (reveal_fields (''bob'', 3, 51)) @ []) = None
    \<and> handleShowdown exact_log10 (ctx_with [''bob'' \<mapsto> zero_player]) [CHR ''0''] = None
    \<and> handleShowdown exact_log10 (ctx_with [''bob'' \<mapsto> zero_player]) [] = None"
  by (rule showdown_panics [where d = zero_player]) (simp_all add: reveal_ok_def str_ok_def small_ok_def zero_player_def)

end
