(* ===== verification/StateMachine.thy ===== *)
theory StateMachine
  imports RoomMessages
begin

text \<open>
  The logic states of the client (\<open>sp/client/src/StateMachine.go\<close>, lines 30 to 616). Go's
  interface \<open>LogicState\<close> with its seven implementing structs is the datatype
  \<open>LogicState\<close>; a struct's field is the constructor's argument. Every method is one
  definition, named after the struct and the method, and the four interface methods dispatch
  on the constructor. A handler returns the context and the next state, \<open>None\<close> being Go's
  nil; a handler that can panic returns an option of that, and \<open>StateInGame\<close>'s handlers,
  which write the receiver's \<open>last_action\<close>, return it too. \<open>ctx.UI.SetDirty\<close>, deferred
  in \<open>StateInGame.HandleNetwork\<close>, runs on each of its returns. Printing has no effect on
  the state.
\<close>

section \<open>States and actions\<close>

datatype GameAction =
    BetAction (bet_amount: int)
  | CallAction (call_amount: int)
  | CheckAction
  | FoldAction
  | ReadyAction

datatype LogicState =
    MainMenuState
  | ConnectingState (reconnecting: bool)
  | SendingInfoState
  | RequestingRoomsState
  | LobbyState
  | JoiningRoomState
  | InGameState (last_action: "GameAction option")

type_synonym handled = "ProgCtx \<times> LogicState option"

section \<open>Main menu\<close>

definition MainMenu_Enter :: "ProgCtx \<Rightarrow> ProgCtx" where
  "MainMenu_Enter ctx = set_screen ScreenMainMenu ctx"

definition MainMenu_HandleInput :: "ProgCtx \<Rightarrow> UserInputEvent \<Rightarrow> handled" where
  "MainMenu_HandleInput ctx input =
     (case input of
        EvtConnect host port \<Rightarrow> (ctx_SendCommand (NetConnect host port) ctx, None)
      | _ \<Rightarrow> (ctx, None))"

definition MainMenu_HandleNetwork :: "ProgCtx \<Rightarrow> NetEvent \<Rightarrow> handled" where
  "MainMenu_HandleNetwork ctx msg =
     (case msg of
        NetConnecting \<Rightarrow> (set_screen ScreenConnecting ctx, Some (ConnectingState False))
      | _ \<Rightarrow> (ctx, None))"

section \<open>Connecting\<close>

definition Connecting_Enter :: "ProgCtx \<Rightarrow> ProgCtx" where
  "Connecting_Enter ctx =
     (case WriteString (nickname ctx) of
        None \<Rightarrow>
          ctx_SendNetMsg ''CONN'' []
            (AddPopup ''Failed parsing, catastrophe has happened'' (time_Second * 5)
              (ctx_SendCommand NetDisconnect ctx))
      | Some nickPayload \<Rightarrow> ctx_SendNetMsg ''CONN'' nickPayload ctx)"

definition Connecting_HandleInput :: "ProgCtx \<Rightarrow> UserInputEvent \<Rightarrow> handled" where
  "Connecting_HandleInput ctx input =
     (case input of
        EvtAcceptReconnect \<Rightarrow> (ctx_SendNetMsg ''RCON'' [] ctx, Some JoiningRoomState)
      | EvtDeclineReconnect \<Rightarrow> (set_screen ScreenConnecting ctx, Some SendingInfoState)
      | EvtCancelConnect \<Rightarrow> (ctx_SendCommand NetDisconnect ctx, Some MainMenuState)
      | _ \<Rightarrow> (ctx, None))"

definition Connecting_HandleNetwork :: "bool \<Rightarrow> ProgCtx \<Rightarrow> NetEvent \<Rightarrow> handled" where
  "Connecting_HandleNetwork isReconnecting ctx msg =
     (case msg of
        NetMessage m \<Rightarrow>
          (if msg_Code m = ''PNOK'' then (ctx, Some SendingInfoState)
           else if msg_Code m = ''FULL'' then
             (ctx_SendCommand NetDisconnect (AddPopup ''Server full'' (time_Second * 3) ctx), Some MainMenuState)
           else if msg_Code m = ''FAIL'' then (ctx_SendCommand NetDisconnect ctx, Some MainMenuState)
           else if msg_Code m = ''RCON'' then
             (if \<not> isReconnecting then (set_screen ScreenReconnecting ctx, None)
              else (set_state (\<lambda>s. s\<lparr>Reconnected := True\<rparr>) (ctx_SendNetMsg ''RCON'' [] ctx),
                    Some JoiningRoomState))
           else (ctx, None))
      | NetConnected \<Rightarrow> (ctx, Some (ConnectingState False))
      | NetReconnected \<Rightarrow> (ctx, Some (ConnectingState True))
      | NetDisconnected \<Rightarrow>
          (AddPopup ''Connection couldn't be established'' (time_Second * 2) ctx, Some MainMenuState)
      | _ \<Rightarrow> (ctx, None))"

section \<open>Sending the player's info\<close>

definition SendingInfo_Enter :: "(nat \<Rightarrow> nat) \<Rightarrow> ProgCtx \<Rightarrow> ProgCtx" where
  "SendingInfo_Enter flog ctx =
     (let data = read_player ctx (nickname ctx) in
      case WriteVarInt flog (ChipCount data) of
        None \<Rightarrow>
          AddPopup ''Failed parsing, catastrophe has happened'' (time_Second * 5)
            (ctx_SendCommand NetDisconnect ctx)
      | Some chipStr \<Rightarrow> ctx_SendNetMsg ''PINF'' chipStr ctx)"

definition SendingInfo_HandleInput :: "ProgCtx \<Rightarrow> UserInputEvent \<Rightarrow> handled" where
  "SendingInfo_HandleInput ctx input = (ctx, None)"

definition SendingInfo_HandleNetwork :: "ProgCtx \<Rightarrow> NetEvent \<Rightarrow> handled" where
  "SendingInfo_HandleNetwork ctx msg =
     (case msg of
        NetMessage m \<Rightarrow>
          (if msg_Code m = ''PIOK'' then (ctx, Some RequestingRoomsState)
           else if msg_Code m = ''FAIL'' then (ctx_SendCommand NetDisconnect ctx, Some MainMenuState)
           else (ctx, None))
      | NetReconnected \<Rightarrow> (ctx, Some (ConnectingState False))
      | NetDisconnected \<Rightarrow> (AddPopup ''Connection lost'' (time_Second * 3) ctx, Some MainMenuState)
      | _ \<Rightarrow> (ctx, None))"

section \<open>Requesting the rooms\<close>

definition RequestingRooms_Enter :: "ProgCtx \<Rightarrow> ProgCtx" where
  "RequestingRooms_Enter ctx =
     set_state (\<lambda>s. s\<lparr>Rooms := make_map\<rparr>)
       (set_screen ScreenWaitingForRooms (ctx_SendNetMsg ''RMRQ'' [] ctx))"

definition RequestingRooms_HandleInput :: "ProgCtx \<Rightarrow> UserInputEvent \<Rightarrow> handled" where
  "RequestingRooms_HandleInput ctx input = (ctx, None)"

definition RequestingRooms_HandleNetwork :: "ProgCtx \<Rightarrow> NetEvent \<Rightarrow> handled go" where
  "RequestingRooms_HandleNetwork ctx msg =
     (case msg of
        NetMessage m \<Rightarrow>
          (if msg_Code m = ''ROOM'' then do {
             (ctx, err) \<leftarrow> handleRoomData ctx m;
             Some (if err = None then ctx_SendNetMsg ''RMOK'' [] ctx else ctx_SendNetMsg ''RMFL'' [] ctx, None)
           }
           else if msg_Code m = ''DONE'' then Some (ctx_SendNetMsg ''DNOK'' [] ctx, Some LobbyState)
           else Some (ctx, None))
      | NetReconnected \<Rightarrow> Some (ctx, Some (ConnectingState False))
      | NetDisconnected \<Rightarrow>
          Some (AddPopup ''Server stopped responding'' (time_Second * 5) ctx, Some MainMenuState)
      | _ \<Rightarrow> Some (ctx, None))"

section \<open>Lobby\<close>

definition Lobby_Enter :: "ProgCtx \<Rightarrow> ProgCtx" where
  "Lobby_Enter ctx = ctx_SetDirty (set_screen ScreenRoomSelect ctx)"

definition Lobby_HandleInput :: "ProgCtx \<Rightarrow> UserInputEvent \<Rightarrow> handled" where
  "Lobby_HandleInput ctx input =
     (case input of
        EvtRoomJoin room_id \<Rightarrow>
          (let idInt = fst (Atoi room_id); p = fmt_0d 4 idInt
           in (ctx_SendNetMsg ''JOIN'' p ctx, Some JoiningRoomState))
      | EvtBackToMain \<Rightarrow> (ctx_SendCommand NetDisconnect ctx, Some MainMenuState)
      | EvtRefreshRooms \<Rightarrow> (ctx, Some RequestingRoomsState)
      | _ \<Rightarrow> (ctx, None))"

definition Lobby_HandleNetwork :: "ProgCtx \<Rightarrow> NetEvent \<Rightarrow> handled" where
  "Lobby_HandleNetwork ctx msg =
     (case msg of
        NetReconnected \<Rightarrow> (ctx, Some (ConnectingState False))
      | NetDisconnected \<Rightarrow>
          (AddPopup ''Server connection failed'' (time_Second * 5) ctx, Some MainMenuState)
      | _ \<Rightarrow> (ctx, None))"

section \<open>Joining a room\<close>

definition JoiningRoom_HandleInput :: "ProgCtx \<Rightarrow> UserInputEvent \<Rightarrow> handled" where
  "JoiningRoom_HandleInput ctx input = (ctx, None)"

definition JoiningRoom_HandleNetwork :: "(nat \<Rightarrow> nat) \<Rightarrow> ProgCtx \<Rightarrow> NetEvent \<Rightarrow> handled go" where
  "JoiningRoom_HandleNetwork flog ctx msg =
     (case msg of
        NetMessage m \<Rightarrow>
          (if msg_Code m = ''JNOK'' then Some (ctx, None)
           else if msg_Code m = ''RMST'' then do {
             (ctx, err) \<leftarrow> deserializeRoomState flog ctx (msg_Payload m);
             if err \<noteq> None then
               Some (AddPopup ''Failed to join room: invalid state'' (time_Second * 3)
                       (ctx_SendNetMsg ''STFL'' [] ctx), Some LobbyState)
             else Some (ctx_SendNetMsg ''STOK'' [] ctx, Some (InGameState None))
           }
           else if msg_Code m = ''JNFL'' then
             Some (AddPopup ''Failed to join room'' (time_Second * 3) ctx, Some LobbyState)
           else Some (ctx, None))
      | NetReconnected \<Rightarrow>
          Some (AddPopup ''Failed to join room'' (time_Second * 3) ctx, Some (ConnectingState True))
      | NetReconnecting _ _ \<Rightarrow>
          Some (AddPopup ''Server stopped responding, attempting reconnect'' (time_Second * 3) ctx, None)
      | NetDisconnected \<Rightarrow>
          Some (AddPopup ''Server connection failed'' (time_Second * 3) ctx, Some MainMenuState)
      | _ \<Rightarrow> Some (ctx, None))"

section \<open>In the game: input\<close>

definition InGame_Enter :: "ProgCtx \<Rightarrow> ProgCtx" where
  "InGame_Enter ctx = ctx_SetDirty (set_screen ScreenInGame ctx)"

text \<open>The action the client remembers while it waits for the server's verdict.\<close>

definition remember_action :: "GameAction option \<Rightarrow> ProgCtx \<Rightarrow> bytes \<Rightarrow> bytes \<Rightarrow> GameAction option" where
  "remember_action lastAct ctx action amount =
     (if action = ''BETT'' then
        Some (BetAction (case ReadVarInt amount of None \<Rightarrow> 0 | Some n \<Rightarrow> n))
      else if action = ''CALL'' then
        (let myData = read_player ctx (nickname ctx)
         in Some (CallAction (min (ChipCount myData) (HighBet (Table (State ctx))))))
      else if action = ''RDY1'' then Some ReadyAction
      else if action = ''CHCK'' then Some CheckAction
      else if action = ''FOLD'' then Some FoldAction
      else lastAct)"

definition InGame_HandleInput ::
  "GameAction option \<Rightarrow> ProgCtx \<Rightarrow> UserInputEvent \<Rightarrow> GameAction option \<times> handled" where
  "InGame_HandleInput lastAct ctx input =
     (case input of
        EvtGameAction action amount \<Rightarrow>
          (case validateGameAction ctx action amount of
             (ctx, False) \<Rightarrow> (lastAct, ctx, None)
           | (ctx, True) \<Rightarrow>
               let ctx = ctx_SendNetMsg action amount ctx
               in (remember_action lastAct ctx action amount, ctx,
                   if action = ''GMLV'' then Some LobbyState else None))
      | EvtBackToMain \<Rightarrow> (lastAct, ctx_SendNetMsg ''GMLV'' [] ctx, Some LobbyState)
      | _ \<Rightarrow> (lastAct, ctx, None))"

section \<open>In the game: the server's messages\<close>

text \<open>\<open>data, _ := Players[nick]; ...; Players[nick] = data\<close>\<close>

definition update_player :: "bytes \<Rightarrow> (PlayerData \<Rightarrow> PlayerData) \<Rightarrow> ProgCtx \<Rightarrow> ProgCtx go" where
  "update_player nick f ctx = put_player nick (f (read_player ctx nick)) ctx"

definition nick_of :: "bytes \<Rightarrow> bytes" where
  "nick_of p = (case ReadString p of None \<Rightarrow> [] | Some s \<Rightarrow> s)"

definition on_PJIN :: "(nat \<Rightarrow> nat) \<Rightarrow> ProgCtx \<Rightarrow> bytes \<Rightarrow> ProgCtx go" where
  "on_PJIN flog ctx p = do {
     ctx \<leftarrow> handlePlayerJoined flog ctx p;
     Some (AddPopup ''A player has joined'' (2 * time_Second) ctx)
   }"

definition on_PRDY :: "ProgCtx \<Rightarrow> bytes \<Rightarrow> ProgCtx go" where
  "on_PRDY ctx p = update_player (nick_of p) (\<lambda>d. d\<lparr>IsReady := True\<rparr>) ctx"

definition on_GMST :: "ProgCtx \<Rightarrow> ProgCtx go" where
  "on_GMST ctx = do {
     let ctx = set_table (\<lambda>t. t\<lparr>RoundPhase := ''PreFlop''\<rparr>) ctx;
     ctx \<leftarrow> update_player (nickname ctx) (\<lambda>d. d\<lparr>Cards := []\<rparr>) ctx;
     let ctx = set_table (\<lambda>t. t\<lparr>CommunityCards := [], Pot := 0, HighBet := 0\<rparr>) ctx;
     Some (AddPopup ''Game started!'' (2 * time_Second) ctx)
   }"

definition on_CDTP :: "(nat \<Rightarrow> nat) \<Rightarrow> ProgCtx \<Rightarrow> bytes \<Rightarrow> handled go" where
  "on_CDTP flog ctx p = do {
     let myData = (read_player ctx (nickname ctx))\<lparr>Cards := []\<rparr>;
     (results, consumed, err) \<leftarrow> ParseMessage flog p [SmallInt, SmallInt];
     case err of
       Some e \<Rightarrow>
         Some (ctx_SendCommand NetDisconnect
                 (AddPopup ''Error during parsing, disconnecting'' (time_Second * 3) ctx),
               Some MainMenuState)
     | None \<Rightarrow> do {
         c1 \<leftarrow> get_int results 0;
         c2 \<leftarrow> get_int results 1;
         let myData = myData\<lparr>Cards := Cards myData @ [shown_card c1, shown_card c2]\<rparr>;
         ctx \<leftarrow> put_player (nickname ctx) myData ctx;
         Some (ctx_SendNetMsg ''CDOK'' [] ctx, None)
       }
   }"

definition on_GMRD :: "ProgCtx \<Rightarrow> ProgCtx" where
  "on_GMRD ctx =
     each_player (\<lambda>name player. player\<lparr>TotalBet := add64 (TotalBet player) (RoundBet player),
                                        RoundBet := 0, ActionTaken := ''NONE'', ActionAmount := 0\<rparr>)
       (set_table (\<lambda>t. t\<lparr>HighBet := 0\<rparr>) ctx)"

definition on_CRVR :: "ProgCtx \<Rightarrow> bytes \<Rightarrow> ProgCtx" where
  "on_CRVR ctx p =
     (let newCard = shown_card (fst (Atoi p));
          ctx = set_table (\<lambda>t. t\<lparr>CommunityCards := CommunityCards t @ [newCard]\<rparr>) ctx
      in AddPopup (''Community card: '' @ Symbol newCard) (2 * time_Second) ctx)"

definition on_PTRN :: "ProgCtx \<Rightarrow> bytes \<Rightarrow> ProgCtx" where
  "on_PTRN ctx p =
     (let playerName = nick_of p;
          ctx = each_player (\<lambda>name d. d\<lparr>IsMyTurn := (name = playerName)\<rparr>) ctx
      in if playerName = nickname ctx
         then let d = read_player ctx playerName
              in AddPopup (''Your turn! [ '' @ fmt_t (IsMyTurn d) @ '' | '' @ fmt_t (IsFolded d) @ '' ]'')
                   (time_Second * 5) ctx
         else ctx)"

definition on_TOUT :: "ProgCtx \<Rightarrow> bytes \<Rightarrow> ProgCtx go" where
  "on_TOUT ctx p =
     (let playerName = nick_of p;
          ctx = (if playerName = nickname ctx then AddPopup ''You timed out'' (time_Second * 2) ctx
                 else AddPopup (playerName @ '' Timed Out'') (time_Second * 2) ctx)
      in update_player playerName (\<lambda>d. d\<lparr>IsMyTurn := False, IsFolded := True\<rparr>) ctx)"

definition on_ACOK :: "GameAction option \<Rightarrow> ProgCtx \<Rightarrow> ProgCtx go" where
  "on_ACOK lastAct ctx = do {
     ctx \<leftarrow> (case lastAct of
         Some (BetAction amount) \<Rightarrow>
           update_player (nickname ctx) (\<lambda>d. d\<lparr>ChipCount := sub64 (ChipCount d) amount\<rparr>)
             (set_table (\<lambda>t. t\<lparr>HighBet := amount, Pot := add64 (Pot t) amount\<rparr>) ctx)
       | Some (CallAction amount) \<Rightarrow>
           update_player (nickname ctx) (\<lambda>d. d\<lparr>ChipCount := sub64 (ChipCount d) amount\<rparr>)
             (set_table (\<lambda>t. t\<lparr>Pot := add64 (Pot t) amount\<rparr>) ctx)
       | Some ReadyAction \<Rightarrow> update_player (nickname ctx) (\<lambda>d. d\<lparr>IsReady := True\<rparr>) ctx
       | Some FoldAction \<Rightarrow> update_player (nickname ctx) (\<lambda>d. d\<lparr>IsFolded := True\<rparr>) ctx
       | _ \<Rightarrow> Some ctx);
     Some (AddPopup ''Action accepted'' (1 * time_Second) ctx)
   }"

definition on_GWIN :: "(nat \<Rightarrow> nat) \<Rightarrow> ProgCtx \<Rightarrow> bytes \<Rightarrow> ProgCtx go" where
  "on_GWIN flog ctx p = do {
     (res, consumed, err) \<leftarrow> ParseMessage flog p [String, VarInt];
     case err of
       Some e \<Rightarrow> Some ctx
     | None \<Rightarrow> do {
         winner \<leftarrow> get_str res 0;
         winnerAmount \<leftarrow> get_int res 1;
         ctx \<leftarrow> update_player winner (\<lambda>d. d\<lparr>ChipCount := add64 (ChipCount d) winnerAmount\<rparr>) ctx;
         Some (AddPopup (''Player: '' @ winner @ '' won '' @ fmt_d winnerAmount @ '' chips'')
                 (5 * time_Second) ctx)
       }
   }"

definition on_GMDN :: "ProgCtx \<Rightarrow> ProgCtx" where
  "on_GMDN ctx =
     (let ctx = set_table (\<lambda>t. t\<lparr>CommunityCards := []\<rparr>) ctx;
          ctx = set_state (\<lambda>s. s\<lparr>Showdown := False\<rparr>) ctx;
          ctx = set_table (\<lambda>t. t\<lparr>RoundPhase := [], Pot := 0, HighBet := 0\<rparr>) ctx;
          nick = nickname ctx;
          ctx = each_player (\<lambda>name player. player
                  \<lparr>IsReady := False, IsMyTurn := False, IsFolded := False,
                   Cards := (if name \<noteq> nick then [hidden_card, hidden_card] else []),
                   RoundBet := 0, TotalBet := 0, ActionAmount := 0, ActionTaken := ''NONE''\<rparr>) ctx
      in ctx_SendNetMsg ''DNOK'' []
           (AddPopup ''Round ended. Starting new round...'' (time_Second * 3) ctx))"

text \<open>The switch on the message's code.\<close>

definition InGame_message :: "(nat \<Rightarrow> nat) \<Rightarrow> GameAction option \<Rightarrow> ProgCtx \<Rightarrow> NetMsg \<Rightarrow> handled go" where
  "InGame_message flog lastAct ctx m =
     (let c = msg_Code m; p = msg_Payload m; stay = map_option (\<lambda>ctx. (ctx, None))
      in if c = ''PJIN'' then stay (on_PJIN flog ctx p)
         else if c = ''PRDY'' then stay (on_PRDY ctx p)
         else if c = ''GMST'' then stay (on_GMST ctx)
         else if c = ''CDTP'' then on_CDTP flog ctx p
         else if c = ''GMRD'' then Some (on_GMRD ctx, None)
         else if c = ''CRVR'' then Some (on_CRVR ctx p, None)
         else if c = ''PTRN'' then Some (on_PTRN ctx p, None)
         else if c = ''TOUT'' then stay (on_TOUT ctx p)
         else if c = ''ACOK'' then stay (on_ACOK lastAct ctx)
         else if c = ''ACFL'' then Some (AddPopup (''Action failed: '' @ p) (3 * time_Second) ctx, None)
         else if c = ''NYET'' then Some (AddPopup ''It's not your turn!'' (2 * time_Second) ctx, None)
         else if c = ''PACT'' then stay (handlePlayerAction flog ctx p)
         else if c = ''SDWN'' then stay (handleShowdown flog ctx p)
         else if c = ''GLOS'' then Some (AddPopup ''Everyone lost. Casino Won.'' (time_Second * 3) ctx, None)
         else if c = ''GWIN'' then stay (on_GWIN flog ctx p)
         else if c = ''GMDN'' then Some (on_GMDN ctx, None)
         else Some (ctx, None))"

definition InGame_HandleNetwork ::
  "(nat \<Rightarrow> nat) \<Rightarrow> GameAction option \<Rightarrow> ProgCtx \<Rightarrow> NetEvent \<Rightarrow> handled go" where
  "InGame_HandleNetwork flog lastAct ctx msg = do {
     (ctx, next_state) \<leftarrow> (case msg of
         NetMessage m \<Rightarrow> InGame_message flog lastAct ctx m
       | NetReconnecting _ _ \<Rightarrow>
           Some (AddPopup ''Server stopped responding, attempting reconnect.'' (time_Second * 3) ctx, None)
       | NetReconnected \<Rightarrow> Some (ctx, Some (ConnectingState True))
       | NetDisconnected \<Rightarrow>
           Some (AddPopup ''Server stopped responding.'' (time_Second * 3) ctx, Some MainMenuState)
       | _ \<Rightarrow> Some (ctx, None));
     Some (ctx_SetDirty ctx, next_state)
   }"

definition InGame_Exit :: "ProgCtx \<Rightarrow> ProgCtx go" where
  "InGame_Exit ctx = do {
     let myData = read_player ctx (nickname ctx);
     let ctx = set_table (\<lambda>t. t\<lparr>Players := None, CommunityCards := [], HighBet := 0, Pot := 0\<rparr>) ctx;
     let ctx = set_table (\<lambda>t. t\<lparr>Players := make_map\<rparr>) ctx;
     put_player (nickname ctx) myData ctx
   }"

section \<open>The interface \<open>LogicState\<close>\<close>

fun Enter :: "(nat \<Rightarrow> nat) \<Rightarrow> LogicState \<Rightarrow> ProgCtx \<Rightarrow> ProgCtx" where
  "Enter flog MainMenuState ctx = MainMenu_Enter ctx"
| "Enter flog (ConnectingState r) ctx = Connecting_Enter ctx"
| "Enter flog SendingInfoState ctx = SendingInfo_Enter flog ctx"
| "Enter flog RequestingRoomsState ctx = RequestingRooms_Enter ctx"
| "Enter flog LobbyState ctx = Lobby_Enter ctx"
| "Enter flog JoiningRoomState ctx = ctx"
| "Enter flog (InGameState a) ctx = InGame_Enter ctx"

fun HandleInput ::
  "LogicState \<Rightarrow> ProgCtx \<Rightarrow> UserInputEvent \<Rightarrow> LogicState \<times> handled" where
  "HandleInput MainMenuState ctx e = (MainMenuState, MainMenu_HandleInput ctx e)"
| "HandleInput (ConnectingState r) ctx e = (ConnectingState r, Connecting_HandleInput ctx e)"
| "HandleInput SendingInfoState ctx e = (SendingInfoState, SendingInfo_HandleInput ctx e)"
| "HandleInput RequestingRoomsState ctx e = (RequestingRoomsState, RequestingRooms_HandleInput ctx e)"
| "HandleInput LobbyState ctx e = (LobbyState, Lobby_HandleInput ctx e)"
| "HandleInput JoiningRoomState ctx e = (JoiningRoomState, JoiningRoom_HandleInput ctx e)"
| "HandleInput (InGameState a) ctx e = (case InGame_HandleInput a ctx e of (a', h) \<Rightarrow> (InGameState a', h))"

fun HandleNetwork ::
  "(nat \<Rightarrow> nat) \<Rightarrow> LogicState \<Rightarrow> ProgCtx \<Rightarrow> NetEvent \<Rightarrow> handled go" where
  "HandleNetwork flog MainMenuState ctx e = Some (MainMenu_HandleNetwork ctx e)"
| "HandleNetwork flog (ConnectingState r) ctx e = Some (Connecting_HandleNetwork r ctx e)"
| "HandleNetwork flog SendingInfoState ctx e = Some (SendingInfo_HandleNetwork ctx e)"
| "HandleNetwork flog RequestingRoomsState ctx e = RequestingRooms_HandleNetwork ctx e"
| "HandleNetwork flog LobbyState ctx e = Some (Lobby_HandleNetwork ctx e)"
| "HandleNetwork flog JoiningRoomState ctx e = JoiningRoom_HandleNetwork flog ctx e"
| "HandleNetwork flog (InGameState a) ctx e = InGame_HandleNetwork flog a ctx e"

fun Exit :: "LogicState \<Rightarrow> ProgCtx \<Rightarrow> ProgCtx go" where
  "Exit (InGameState a) ctx = InGame_Exit ctx"
| "Exit _ ctx = Some ctx"

section \<open>Facts about the game's handlers\<close>

lemma nick_of_str [simp]: "str_ok nick \<Longrightarrow> nick_of (str_bytes nick @ rest) = nick"
  by (simp add: nick_of_def str.decode_encode)

lemma read_player_Some: "lookup_player ctx k = Some d \<Longrightarrow> read_player ctx k = d"
  by (simp add: read_player_def)

lemma update_player_lookup:
  assumes "lookup_player ctx nick = Some d"
  shows "\<exists>ctx'. update_player nick f ctx = Some ctx'
    \<and> lookup_player ctx' k = (if k = nick then Some (f d) else lookup_player ctx k)
    \<and> Pot (Table (State ctx')) = Pot (Table (State ctx)) \<and> HighBet (Table (State ctx')) = HighBet (Table (State ctx))
    \<and> nickname ctx' = nickname ctx"
  using put_player_eq [OF assms, of "f d"] assms
  by (simp add: update_player_def read_player_Some lookup_set_players lookup_the_players)

section \<open>Properties\<close>

text \<open>
  After \<open>PTRN\<close> it is the turn of exactly the named player: his flag is set, everybody
  else's is cleared, nothing else of any player changes, and the client's popup appears exactly
  when it is the receiving player's own turn.
\<close>

theorem PTRN_gives_one_turn:
  assumes "str_ok nick"
  shows "lookup_player (on_PTRN ctx (str_bytes nick @ rest)) k
       = map_option (\<lambda>d. d\<lparr>IsMyTurn := (k = nick)\<rparr>) (lookup_player ctx k)
    \<and> (length (Popup (on_PTRN ctx (str_bytes nick @ rest))) = length (Popup ctx)
         + (if nick = nickname ctx then 1 else 0))"
  using assms by (simp add: on_PTRN_def Let_def) (simp add: ctx_defs)

lemma PTRN_gives_one_turn_witness:
  "lookup_player (on_PTRN (ctx_with [''bob'' \<mapsto> wire_data sample_player]) (str_bytes ''ann'' @ [])) ''bob''
       = map_option (\<lambda>d. d\<lparr>IsMyTurn := (''bob'' = ''ann'')\<rparr>) (lookup_player (ctx_with [''bob'' \<mapsto> wire_data sample_player]) ''bob'')
    \<and> (length (Popup (on_PTRN (ctx_with [''bob'' \<mapsto> wire_data sample_player]) (str_bytes ''ann'' @ [])))
       = length (Popup (ctx_with [''bob'' \<mapsto> wire_data sample_player]))
         + (if ''ann'' = nickname (ctx_with [''bob'' \<mapsto> wire_data sample_player]) then 1 else 0))"
  by (rule PTRN_gives_one_turn) (simp add: str_ok_def)

lemma on_ACOK_once:
  assumes "act = BetAction amt \<or> act = CallAction amt" and "lookup_player c (nickname c) = Some e"
    and "in64 (ChipCount e - amt)" "in64 (Pot (Table (State c)) + amt)"
  obtains ctx' d' where "on_ACOK (Some act) c = Some ctx'" "lookup_player ctx' (nickname c) = Some d'"
    "ChipCount d' = ChipCount e - amt" "Pot (Table (State ctx')) = Pot (Table (State c)) + amt"
    "HighBet (Table (State ctx')) = (if act = BetAction amt then amt else HighBet (Table (State c)))"
    "nickname ctx' = nickname c"
proof -
  let ?f = "\<lambda>d. d\<lparr>ChipCount := sub64 (ChipCount d) amt\<rparr>"
  have l: "lookup_player (set_table g c) (nickname c) = Some e" if "\<And>t. Players (g t) = Players t" for g
    using assms(2) that by (simp add: lookup_player_def ctx_players_def)
  let ?bet = "set_table (\<lambda>t. t\<lparr>HighBet := amt, Pot := add64 (Pot t) amt\<rparr>) c"
  let ?call = "set_table (\<lambda>t. t\<lparr>Pot := add64 (Pot t) amt\<rparr>) c"
  have "lookup_player ?bet (nickname c) = Some e" "lookup_player ?call (nickname c) = Some e"
    by (rule l, simp)+
  from this [THEN update_player_lookup, of ?f "nickname c"] assms(1,3,4) show thesis
    by (auto simp: on_ACOK_def add64_id sub64_id intro: that)
qed

text \<open>
  C27. The client's own accepted action: after \<open>ACOK\<close> for a remembered bet or call the amount has
  moved from his chips to the pot and their sum is unchanged, the high bet is the amount of a
  bet. The remembered action is not cleared: a second \<open>ACOK\<close> moves the amount again.
\<close>

theorem ACOK_moves_the_amount:
  assumes "lookup_player ctx (nickname ctx) = Some d" and "act = BetAction amt \<or> act = CallAction amt"
    and "0 \<le> amt" "amt < 2 ^ 60" "0 \<le> ChipCount d" "ChipCount d < 2 ^ 60"
      "0 \<le> Pot (Table (State ctx))" "Pot (Table (State ctx)) < 2 ^ 60"
  shows "\<exists>ctx1 d1 ctx2 d2. on_ACOK (Some act) ctx = Some ctx1 \<and> on_ACOK (Some act) ctx1 = Some ctx2
    \<and> lookup_player ctx1 (nickname ctx) = Some d1 \<and> lookup_player ctx2 (nickname ctx) = Some d2
    \<and> ChipCount d1 = ChipCount d - amt \<and> Pot (Table (State ctx1)) = Pot (Table (State ctx)) + amt
    \<and> HighBet (Table (State ctx1)) = (if act = BetAction amt then amt else HighBet (Table (State ctx)))
    \<and> ChipCount d2 = ChipCount d - 2 * amt \<and> Pot (Table (State ctx2)) = Pot (Table (State ctx)) + 2 * amt"
proof -
  have "in64 (ChipCount d - amt)" "in64 (Pot (Table (State ctx)) + amt)"
    using assms(3-8) by (simp_all add: in64_def)
  from on_ACOK_once [OF assms(2,1) this] obtain c1 d1 where 1: "on_ACOK (Some act) ctx = Some c1"
    "lookup_player c1 (nickname ctx) = Some d1" "ChipCount d1 = ChipCount d - amt"
    "Pot (Table (State c1)) = Pot (Table (State ctx)) + amt"
    "HighBet (Table (State c1)) = (if act = BetAction amt then amt else HighBet (Table (State ctx)))"
    "nickname c1 = nickname ctx" .
  have b: "in64 (ChipCount d1 - amt)" "in64 (Pot (Table (State c1)) + amt)"
    using assms(3-8) 1(3,4) by (simp_all add: in64_def)
  have "lookup_player c1 (nickname c1) = Some d1" using 1(2,6) by simp
  from on_ACOK_once [OF assms(2) this b] 1(6) obtain c2 d2 where 2: "on_ACOK (Some act) c1 = Some c2"
    "lookup_player c2 (nickname ctx) = Some d2" "ChipCount d2 = ChipCount d1 - amt"
    "Pot (Table (State c2)) = Pot (Table (State c1)) + amt" by metis
  show ?thesis
    by (intro exI conjI, rule 1, rule 2, rule 1, rule 2) (simp_all add: 1(3-5) 2(3,4))
qed

lemma ACOK_moves_the_amount_witness:
  "\<exists>ctx1 d1 ctx2 d2. on_ACOK (Some (BetAction 30)) (ctx_with [''Client7'' \<mapsto> wire_data sample_player]) = Some ctx1
    \<and> on_ACOK (Some (BetAction 30)) ctx1 = Some ctx2
    \<and> lookup_player ctx1 (nickname (ctx_with [''Client7'' \<mapsto> wire_data sample_player])) = Some d1
    \<and> lookup_player ctx2 (nickname (ctx_with [''Client7'' \<mapsto> wire_data sample_player])) = Some d2
    \<and> ChipCount d1 = ChipCount (wire_data sample_player) - 30
    \<and> Pot (Table (State ctx1)) = Pot (Table (State (ctx_with [''Client7'' \<mapsto> wire_data sample_player]))) + 30
    \<and> HighBet (Table (State ctx1)) = (if BetAction 30 = BetAction 30 then 30
        else HighBet (Table (State (ctx_with [''Client7'' \<mapsto> wire_data sample_player]))))
    \<and> ChipCount d2 = ChipCount (wire_data sample_player) - 2 * 30
    \<and> Pot (Table (State ctx2)) = Pot (Table (State (ctx_with [''Client7'' \<mapsto> wire_data sample_player]))) + 2 * 30"
  by (rule ACOK_moves_the_amount) (simp_all, simp_all add: wire_data_def sample_player_def)




end
