(* ===== verification/UIEvents.thy ===== *)
theory UIEvents
  imports StateMachine
begin

text \<open>
  The main thread's part of the logic (\<open>sp/client/src/Main.go\<close>): \<open>handleUIEvent\<close>, which turns the identifier of a pressed component into checks, popups and
  an event for the game thread. The send on the buffered channel waits while the channel is
  full.
\<close>

section \<open>UI events\<close>

definition send_input :: "UserInputEvent \<Rightarrow> ProgCtx \<Rightarrow> ProgCtx" where
  "send_input e ctx = ctx\<lparr>UserInputChan := chan_send (UserInputChan ctx) e\<rparr>"

definition connect_pressed :: "(nat \<Rightarrow> nat) \<Rightarrow> ProgCtx \<Rightarrow> ProgCtx go" where
  "connect_pressed flog ctx =
     (if length (nickname ctx) \<le> 0 \<or> length (nickname ctx) > 9999 then
        Some (AddPopup ''Please enter a nick within the length limits'' (time_Second * 3) ctx)
      else if length (ChipsStr (State ctx)) \<le> 0 \<or> length (ChipsStr (State ctx)) > 100 then
        Some (AddPopup ''Please enter chip value within the length limits'' (time_Second * 3) ctx)
      else
        let (amount, err) = Atoi (TrimSpace (ChipsStr (State ctx)))
        in if err \<noteq> None then
             Some (AddPopup ''Please enter a numeric chip value'' (time_Second * 3) ctx)
           else if WriteVarInt flog amount = None then
             Some (AddPopup ''Invalid value, please enter a different one'' (time_Second * 3) ctx)
           else do {
             ctx \<leftarrow> put_player (nickname ctx) (zero_player\<lparr>ChipCount := amount\<rparr>) ctx;
             Some (send_input (EvtConnect (ServerIP (State ctx)) (ServerPort (State ctx))) ctx)
           })"

definition bet_pressed :: "(nat \<Rightarrow> nat) \<Rightarrow> ProgCtx \<Rightarrow> ProgCtx" where
  "bet_pressed flog ctx =
     (let betStr = TrimSpace (BetAmount (State ctx))
      in if betStr = [] then AddPopup ''Enter bet amount'' (time_Second * 2) ctx
         else
           let (amount, err) = Atoi betStr
           in if err \<noteq> None \<or> amount \<le> 0 then
                AddPopup ''Invalid amount (use numbers only)'' (time_Second * 2) ctx
              else
                case lookup_player ctx (nickname ctx) of
                  None \<Rightarrow> AddPopup ''Error: Player data not found'' (time_Second * 3) ctx
                | Some myData \<Rightarrow>
                    if amount > ChipCount myData then
                      AddPopup (''You only have '' @ fmt_d (ChipCount myData) @ '' chips'') (time_Second * 3) ctx
                    else
                      case WriteVarInt flog amount of
                        None \<Rightarrow> AddPopup ''Bet amount is invalid'' (time_Second * 2) ctx
                      | Some netStr \<Rightarrow>
                          send_input (EvtGameAction ''BETT'' netStr)
                            (set_state (\<lambda>s. s\<lparr>BetAmount := []\<rparr>) ctx))"

definition handleUIEvent :: "(nat \<Rightarrow> nat) \<Rightarrow> ProgCtx \<Rightarrow> bytes \<Rightarrow> ProgCtx go" where
  "handleUIEvent flog ctx SourceID =
     (if SourceID = ''MainMenu_ConnectBtn'' then connect_pressed flog ctx
      else Some
       (if SourceID = ''MainMenu_CloseBtn'' then send_input EvtQuit ctx
        else if SourceID = ''Server_ConfirmBtn'' then
          send_input (EvtConnect (ServerIP (State ctx)) (ServerPort (State ctx))) ctx
        else if SourceID = ''Connecting_CancelBtn'' then send_input EvtCancelConnect ctx
        else if SourceID = ''Reconnect_Accept'' then send_input EvtAcceptReconnect ctx
        else if SourceID = ''Reconnect_Decline'' then send_input EvtDeclineReconnect ctx
        else if SourceID = ''RoomSelect_BackBtn'' then send_input EvtBackToMain ctx
        else if SourceID = ''RoomSelect_RefreshBtn'' then send_input EvtRefreshRooms ctx
        else if SourceID = ''Game_Bet'' then bet_pressed flog ctx
        else if SourceID = ''Game_Ready'' then send_input (EvtGameAction ''RDY1'' []) ctx
        else if SourceID = ''Game_Check'' then send_input (EvtGameAction ''CHCK'' []) ctx
        else if SourceID = ''Game_Leave'' then send_input (EvtGameAction ''GMLV'' []) ctx
        else if SourceID = ''Game_Fold'' then send_input (EvtGameAction ''FOLD'' []) ctx
        else if SourceID = ''Game_Call'' then send_input (EvtGameAction ''CALL'' []) ctx
        else if SourceID = ''Game_ShowOK'' then send_input (EvtGameAction ''SDOK'' []) ctx
        else (case CutPrefix SourceID ''join_'' of
                (after, True) \<Rightarrow> send_input (EvtRoomJoin after) ctx
              | (after, False) \<Rightarrow> ctx)))"

text \<open>\<open>main\<close> when its drawing loop ends: it asks the game thread to stop.\<close>

definition main_shutdown :: "ProgCtx \<Rightarrow> ProgCtx" where
  "main_shutdown ctx = send_input EvtQuit (ctx\<lparr>ShouldClose := True\<rparr>)"

section \<open>Facts\<close>

text \<open>What a UI event leaves alone.\<close>

lemma send_input_frame [simp]:
  "State (send_input e ctx) = State ctx" "ctx_players (send_input e ctx) = ctx_players ctx"
  "net_handler (send_input e ctx) = net_handler ctx" "ShouldClose (send_input e ctx) = ShouldClose ctx"
  "lookup_player (send_input e ctx) k = lookup_player ctx k"
  by (simp_all add: send_input_def ctx_players_def lookup_player_def)

lemma handler_frame [simp]:
  "net_handler (AddPopup txt d ctx) = net_handler ctx" "net_handler (set_state f ctx) = net_handler ctx"
  "net_handler (set_table g ctx) = net_handler ctx" "net_handler (set_screen scr ctx) = net_handler ctx"
  "ShouldClose (AddPopup txt d ctx) = ShouldClose ctx" "ShouldClose (set_state f ctx) = ShouldClose ctx"
  "ShouldClose (set_table g ctx) = ShouldClose ctx" "ShouldClose (set_screen scr ctx) = ShouldClose ctx"
  by (simp_all add: ctx_defs)

text \<open>The frame of a UI event.\<close>

definition ui_keeps :: "ProgCtx \<Rightarrow> ProgCtx \<Rightarrow> bool" where
  "ui_keeps ctx ctx' \<longleftrightarrow>
     net_handler ctx' = net_handler ctx \<and> ShouldClose ctx' = ShouldClose ctx
     \<and> Screen (State ctx') = Screen (State ctx) \<and> Rooms (State ctx') = Rooms (State ctx)
     \<and> UI ctx' = UI ctx \<and> (ctx_players ctx \<noteq> None \<longrightarrow> ctx_players ctx' \<noteq> None)"

lemma UI_frame [simp]:
  "UI (set_state f ctx) = UI ctx" "UI (set_table g ctx) = UI ctx" "UI (set_screen scr ctx) = UI ctx"
  "UI (AddPopup txt d ctx) = UI ctx" "UI (ctx_SendCommand cmd ctx) = UI ctx" "UI (ctx_SendNetMsg k p ctx) = UI ctx"
  "UI (ctx_SetDirty ctx) = SetDirty (UI ctx)" "UI (send_input e ctx) = UI ctx"
  by (simp_all add: ctx_defs send_input_def)

lemma ui_keeps_simps [simp]:
  "ui_keeps ctx ctx" "ui_keeps ctx (AddPopup txt d c) = ui_keeps ctx c"
  "ui_keeps ctx (send_input e c) = ui_keeps ctx c"
  "ui_keeps ctx (set_state (\<lambda>s. s\<lparr>BetAmount := b\<rparr>) c) = ui_keeps ctx c"
  by (simp_all add: ui_keeps_def) (simp add: ctx_defs)

lemma put_player_ui: "put_player nick d ctx = Some ctx' \<Longrightarrow> ui_keeps ctx ctx'"
  by (drule put_player_Some) (auto simp: ui_keeps_def map_put_def split: option.splits)

lemma bet_pressed_ui: "ui_keeps ctx (bet_pressed flog ctx)"
  by (auto simp: bet_pressed_def Let_def split: prod.split option.split)

lemma connect_pressed_ui:
  "ctx_players ctx \<noteq> None \<Longrightarrow> \<exists>ctx'. connect_pressed flog ctx = Some ctx' \<and> ui_keeps ctx ctx'"
proof -
  assume p: "ctx_players ctx \<noteq> None"
  obtain amount err where a: "Atoi (TrimSpace (ChipsStr (State ctx))) = (amount, err)"
    by (cases "Atoi (TrimSpace (ChipsStr (State ctx)))")
  obtain c where "put_player (nickname ctx) (zero_player\<lparr>ChipCount := amount\<rparr>) ctx = Some c"
    using p by (meson not_Some_eq put_player_None_iff)
  then show ?thesis using a put_player_ui by (auto simp: connect_pressed_def)
qed

lemma if_intro: "P x \<Longrightarrow> P y \<Longrightarrow> P (if b then x else y)"
  by simp

lemma join_ui: "ui_keeps ctx (case r of (after, True) \<Rightarrow> send_input (EvtRoomJoin after) ctx | (after, False) \<Rightarrow> ctx)"
  by (auto split: prod.split bool.split)

lemma handleUIEvent_returns:
  assumes "ctx_players ctx \<noteq> None"
  shows "\<exists>ctx'. handleUIEvent flog ctx src = Some ctx' \<and> ui_keeps ctx ctx'"
proof (cases "src = ''MainMenu_ConnectBtn''")
  case True
  with assms show ?thesis by (simp add: handleUIEvent_def connect_pressed_ui)
next
  case False
  then obtain c where c: "handleUIEvent flog ctx src = Some c" by (simp add: handleUIEvent_def)
  have "ui_keeps ctx (the (handleUIEvent flog ctx src))"
    unfolding handleUIEvent_def if_not_P [OF False] option.sel
    by (intro if_intro [of "ui_keeps ctx"] join_ui) (simp_all only: ui_keeps_simps bet_pressed_ui)
  with c show ?thesis by simp
qed

section \<open>Properties\<close>

lemma Atoi_var_bytes:
  assumes "0 < n" and "n < 10 ^ 15"
  shows "Atoi (var_bytes n) = (int (length (fmt_d n)) * 10 ^ length (fmt_d n) + n, None)"
proof -
  let ?k = "length (dec (nat n))"
  have k: "?k \<le> 15" using assms by (intro dec_length_le) simp_all
  have f: "fmt_d n = dec (nat n)" using assms(1) by (simp add: fmt_d_def)
  have v: "var_bytes n = pad0 2 (dec ?k) @ dec (nat n)"
    by (simp add: var_bytes_def f fmt_0d_def)
  have val: "dec_val 0 (var_bytes n) = ?k * 10 ^ ?k + nat n"
    by (simp add: v dec_val_append dec_val_acc [of ?k] dec_val_dec)
  have "?k * 10 ^ ?k \<le> 15 * 10 ^ (15 :: nat)"
    using k by (intro mult_le_mono power_increasing) simp_all
  then have "dec_val 0 (var_bytes n) < 2 ^ 63"
    using assms(2) by (simp add: val)
  moreover have "list_all is_digit (var_bytes n)" "var_bytes n \<noteq> []"
    by (simp_all add: v dec_digits)
  ultimately have "Atoi (var_bytes n) = (int (dec_val 0 (var_bytes n)), None)" by (intro ParseInt_digits)
  with assms(1) show ?thesis by (simp add: val f)
qed

lemma Atoi_fmt_d: "in64 n \<Longrightarrow> Atoi (fmt_d n) = (n, None)"
  by (rule ParseInt_fmt_d)


definition betting_ctx :: ProgCtx where
  "betting_ctx = set_state (\<lambda>s. s\<lparr>BetAmount := '' 50''\<rparr>) (ctx_with [''Client7'' \<mapsto> zero_player\<lparr>ChipCount := 100, IsMyTurn := True\<rparr>])"




end
