(* ===== verification/GameThread.thy ===== *)
theory GameThread
  imports UIEvents
begin

text \<open>
  The game thread (\<open>sp/client/src/Gamethread.go\<close>) and the client as a whole: the loop that
  feeds input and network events to the current state and performs the transitions, and the
  step relation \<open>client_step\<close> of the game thread, the network goroutines and the main
  thread together.

  Lemmas: the graph of the transitions; the client's invariant, kept by every step of every
  thread; what a run of events does.
\<close>

section \<open>The loop\<close>

definition gameThread_start :: "(nat \<Rightarrow> nat) \<Rightarrow> ProgCtx \<Rightarrow> LogicState \<times> ProgCtx" where
  "gameThread_start flog ctx = (MainMenuState, Enter flog MainMenuState ctx)"

definition handle_transition ::
  "(nat \<Rightarrow> nat) \<Rightarrow> LogicState \<Rightarrow> handled \<Rightarrow> (LogicState \<times> ProgCtx) go" where
  "handle_transition flog currentState h =
     (case h of
        (ctx, None) \<Rightarrow> Some (currentState, ctx)
      | (ctx, Some nextState) \<Rightarrow> do {
          ctx \<leftarrow> Exit currentState ctx;
          Some (nextState, ctx_SetDirty (Enter flog nextState ctx))
        })"

text \<open>One pass of the loop, by the branch the \<open>select\<close> takes.\<close>

definition loop_input ::
  "(nat \<Rightarrow> nat) \<Rightarrow> LogicState \<Rightarrow> ProgCtx \<Rightarrow> UserInputEvent \<Rightarrow> (LogicState \<times> ProgCtx) go" where
  "loop_input flog currentState ctx input =
     (if input = EvtQuit then Some (currentState, ctx\<lparr>ShouldClose := True\<rparr>)
      else case HandleInput currentState ctx input of
        (currentState, h) \<Rightarrow> handle_transition flog currentState h)"

definition loop_event ::
  "(nat \<Rightarrow> nat) \<Rightarrow> LogicState \<Rightarrow> ProgCtx \<Rightarrow> NetEvent \<Rightarrow> (LogicState \<times> ProgCtx) go" where
  "loop_event flog currentState ctx netEvt = do {
     h \<leftarrow> HandleNetwork flog currentState ctx netEvt;
     handle_transition flog currentState h
   }"

text \<open>After the loop.\<close>

definition gameThread_end :: "ProgCtx \<Rightarrow> ProgCtx" where
  "gameThread_end ctx = (ctx_SendCommand NetShutdown ctx)\<lparr>DoneChan := chan_send (DoneChan ctx) True\<rparr>"

text \<open>The loop over the events of a run, given in the order the thread takes them.\<close>

datatype loop_pick = PickInput UserInputEvent | PickEvent NetEvent

fun loop_pass :: "(nat \<Rightarrow> nat) \<Rightarrow> LogicState \<times> ProgCtx \<Rightarrow> loop_pick \<Rightarrow> (LogicState \<times> ProgCtx) go" where
  "loop_pass flog (s, ctx) (PickInput e) = loop_input flog s ctx e"
| "loop_pass flog (s, ctx) (PickEvent e) = loop_event flog s ctx e"

fun gameThread_loop ::
  "(nat \<Rightarrow> nat) \<Rightarrow> LogicState \<times> ProgCtx \<Rightarrow> loop_pick list \<Rightarrow> (LogicState \<times> ProgCtx) go" where
  "gameThread_loop flog sc [] = Some sc"
| "gameThread_loop flog sc (e # es) =
     (if ShouldClose (snd sc) then Some sc
      else do { sc \<leftarrow> loop_pass flog sc e; gameThread_loop flog sc es })"

section \<open>The client\<close>

text \<open>
  The game thread is in its loop with a current state, past it, or has panicked; a panic
  ends the process, so nothing steps after it. \<open>thread_step\<close> is a step of the game thread or of a
  goroutine of the network handler, or time passing.

  \<open>client_step\<close> adds the main thread as the others see it: it may handle the event of any
  component, write any strings into the fields of the text boxes, replace the components and
  the popups, wait for the end of the game thread and close the program. When it does which of
  these is the frame loop's matter (\<open>MainLoop\<close>), which refines this relation.
\<close>

datatype thread = Looping LogicState | Ended | Panicked

definition edit_boxes :: "bytes \<Rightarrow> bytes \<Rightarrow> bytes \<Rightarrow> bytes \<Rightarrow> bytes \<Rightarrow> ProgCtx \<Rightarrow> ProgCtx" where
  "edit_boxes nick chips ip port bet ctx =
     set_state (\<lambda>s. s\<lparr>Nickname := nick, ChipsStr := chips, ServerIP := ip, ServerPort := port,
                      BetAmount := bet\<rparr>) ctx"

definition after_pass :: "(LogicState \<times> ProgCtx) go \<Rightarrow> ProgCtx \<Rightarrow> thread \<times> ProgCtx" where
  "after_pass r ctx = (case r of None \<Rightarrow> (Panicked, ctx) | Some (s, ctx') \<Rightarrow> (Looping s, ctx'))"

inductive thread_step ::
  "(nat \<Rightarrow> nat) \<Rightarrow> (nat \<Rightarrow> bool) \<Rightarrow> thread \<times> ProgCtx \<Rightarrow> thread \<times> ProgCtx \<Rightarrow> bool"
  for flog wr where
  game_input: "\<not> ShouldClose ctx \<Longrightarrow> chan_recv (UserInputChan ctx) = Some (e, q) \<Longrightarrow>
    thread_step flog wr (Looping s, ctx) (after_pass (loop_input flog s (ctx\<lparr>UserInputChan := q\<rparr>) e) ctx)"
| game_net: "\<not> ShouldClose ctx \<Longrightarrow> chan_recv (eventChan (net_handler ctx)) = Some (e, q) \<Longrightarrow>
    thread_step flog wr (Looping s, ctx)
      (after_pass (loop_event flog s (ctx\<lparr>net_handler := (net_handler ctx)\<lparr>eventChan := q\<rparr>\<rparr>) e) ctx)"
| game_end: "ShouldClose ctx \<Longrightarrow> thread_step flog wr (Looping s, ctx) (Ended, gameThread_end ctx)"
| net_goroutine: "t \<noteq> Panicked \<Longrightarrow> net_step wr (net_handler ctx) nh \<Longrightarrow>
    thread_step flog wr (t, ctx) (t, ctx\<lparr>net_handler := nh\<rparr>)"
| time_passes: "t \<noteq> Panicked \<Longrightarrow> clock ctx \<le> now \<Longrightarrow> thread_step flog wr (t, ctx) (t, ctx\<lparr>clock := now\<rparr>)"

inductive client_step ::
  "(nat \<Rightarrow> nat) \<Rightarrow> (nat \<Rightarrow> bool) \<Rightarrow> thread \<times> ProgCtx \<Rightarrow> thread \<times> ProgCtx \<Rightarrow> bool"
  for flog wr where
  other_threads: "thread_step flog wr s s' \<Longrightarrow> client_step flog wr s s'"
| ui_event: "t \<noteq> Panicked \<Longrightarrow> handleUIEvent flog ctx src = Some ctx' \<Longrightarrow>
    client_step flog wr (t, ctx) (t, ctx')"
| ui_event_panic: "t \<noteq> Panicked \<Longrightarrow> handleUIEvent flog ctx src = None \<Longrightarrow>
    client_step flog wr (t, ctx) (Panicked, ctx)"
| ui_edit: "t \<noteq> Panicked \<Longrightarrow>
    client_step flog wr (t, ctx) (t, edit_boxes nick chips ip port bet ctx)"
| ui_own: "t \<noteq> Panicked \<Longrightarrow>
    client_step flog wr (t, ctx) (t, ctx\<lparr>UI := ui, Popup := ps, DoneChan := q\<rparr>)"
| ui_close: "t \<noteq> Panicked \<Longrightarrow> client_step flog wr (t, ctx) (t, main_shutdown ctx)"

definition client_start :: "(nat \<Rightarrow> nat) \<Rightarrow> nat \<Rightarrow> nat \<Rightarrow> int \<Rightarrow> thread \<times> ProgCtx" where
  "client_start flog r c now =
     (case gameThread_start flog (initProgCtx r c now) of (s, ctx) \<Rightarrow> (Looping s, ctx))"

section \<open>The graph of the transitions\<close>

text \<open>
  The intended automaton, by the kind of a state: this is the contract the handlers implement.
\<close>

datatype phase_kind = Menu | Connecting | Info | RoomList | LobbyK | Joining | Playing

fun kind :: "LogicState \<Rightarrow> phase_kind" where
  "kind MainMenuState = Menu"
| "kind (ConnectingState r) = Connecting"
| "kind SendingInfoState = Info"
| "kind RequestingRoomsState = RoomList"
| "kind LobbyState = LobbyK"
| "kind JoiningRoomState = Joining"
| "kind (InGameState a) = Playing"

fun successors :: "phase_kind \<Rightarrow> phase_kind list" where
  "successors Menu = [Connecting]"
| "successors Connecting = [Connecting, Info, Joining, Menu]"
| "successors Info = [RoomList, Connecting, Menu]"
| "successors RoomList = [LobbyK, Connecting, Menu]"
| "successors LobbyK = [Joining, RoomList, Connecting, Menu]"
| "successors Joining = [Playing, LobbyK, Connecting, Menu]"
| "successors Playing = [LobbyK, Connecting, Menu]"

lemma HandleInput_successor:
  "HandleInput s ctx e = (s', ctx', Some t) \<Longrightarrow> kind t \<in> set (successors (kind s))"
  by (cases s; cases e)
    (auto simp: MainMenu_HandleInput_def Connecting_HandleInput_def SendingInfo_HandleInput_def
      RequestingRooms_HandleInput_def Lobby_HandleInput_def JoiningRoom_HandleInput_def
      InGame_HandleInput_def Let_def split: prod.splits bool.splits if_splits)

lemma InGame_message_next:
  "InGame_message flog a ctx m = Some (ctx', Some t) \<Longrightarrow> t = MainMenuState"
  unfolding InGame_message_def Let_def
  by (simp only: split: if_splits; (auto simp: on_CDTP_def bind_Some_iff split: option.splits)?)

lemma HandleNetwork_successor:
  "HandleNetwork flog s ctx e = Some (ctx', Some t) \<Longrightarrow> kind t \<in> set (successors (kind s))"
  by (cases s; cases e)
    (auto simp: MainMenu_HandleNetwork_def Connecting_HandleNetwork_def SendingInfo_HandleNetwork_def
      RequestingRooms_HandleNetwork_def Lobby_HandleNetwork_def JoiningRoom_HandleNetwork_def
      InGame_HandleNetwork_def bind_Some_iff split: if_splits dest: InGame_message_next)

section \<open>What every handler preserves\<close>

text \<open>
  \<open>sound\<close> is the part of the client's invariant that does not depend on the current state:
  the two maps are made and the network handler is in order. \<open>screen_of\<close> is the screen a
  state shows; the states in between keep the screen they were entered with.
\<close>

definition sound :: "ProgCtx \<Rightarrow> bool" where
  "sound ctx \<longleftrightarrow> ctx_players ctx \<noteq> None \<and> Rooms (State ctx) \<noteq> None \<and> net_inv (net_handler ctx)"

fun screen_of :: "LogicState \<Rightarrow> UIScreen option" where
  "screen_of MainMenuState = Some ScreenMainMenu"
| "screen_of RequestingRoomsState = Some ScreenWaitingForRooms"
| "screen_of LobbyState = Some ScreenRoomSelect"
| "screen_of (InGameState a) = Some ScreenInGame"
| "screen_of _ = None"

definition on_screen :: "LogicState \<Rightarrow> ProgCtx \<Rightarrow> bool" where
  "on_screen s ctx \<longleftrightarrow> (\<forall>scr. screen_of s = Some scr \<longrightarrow> Screen (State ctx) = scr)"

lemma keeps_sound: "keeps a b \<Longrightarrow> sound a \<Longrightarrow> sound b"
  by (simp add: keeps_def sound_def)

lemma keeps_on_screen: "keeps a b \<Longrightarrow> on_screen s a \<Longrightarrow> on_screen s b"
  by (simp add: keeps_def on_screen_def)

lemma sound_players: "sound ctx \<Longrightarrow> ctx_players ctx \<noteq> None"
  by (simp add: sound_def)

lemma sound_simps [simp]:
  "sound (set_screen scr ctx) = sound ctx" "sound (AddPopup txt d ctx) = sound ctx"
  "sound (ctx_SetDirty ctx) = sound ctx"
  "sound ctx \<Longrightarrow> sound (ctx_SendCommand cmd ctx)" "sound ctx \<Longrightarrow> sound (ctx_SendNetMsg k p ctx)"
  "sound (set_state (\<lambda>s. s\<lparr>Reconnected := b\<rparr>) ctx) = sound ctx"
  by (simp_all add: sound_def ctx_defs)

lemma sound_make_rooms [simp]: "sound ctx \<Longrightarrow> sound (set_state (\<lambda>s. s\<lparr>Rooms := make_map\<rparr>) ctx)"
  by (simp add: sound_def ctx_defs make_map_def)

lemma Enter_sound: "sound ctx \<Longrightarrow> sound (Enter flog s ctx) \<and> on_screen s (Enter flog s ctx)"
  by (cases s)
    (auto simp: on_screen_def MainMenu_Enter_def Connecting_Enter_def SendingInfo_Enter_def Let_def
      RequestingRooms_Enter_def Lobby_Enter_def InGame_Enter_def split: option.split)

lemma Exit_sound: "sound ctx \<Longrightarrow> \<exists>ctx'. Exit s ctx = Some ctx' \<and> sound ctx'"
  by (cases s)
    (auto simp: InGame_Exit_def Let_def put_player_def map_put_def make_map_def sound_def ctx_defs)

lemma validate_keeps: "keeps ctx (fst (validateGameAction ctx action amount))"
  by (auto simp: validateGameAction_def Let_def split: option.split prod.split)

lemma InGame_input_keeps: "InGame_HandleInput a ctx e = (a', ctx', n) \<Longrightarrow> keeps ctx ctx'"
proof -
  have v: "validateGameAction ctx x y = (c, b) \<Longrightarrow> keeps ctx c" for x y c b
    using validate_keeps [of ctx x y] by simp
  assume "InGame_HandleInput a ctx e = (a', ctx', n)"
  then show ?thesis
    by (cases e) (auto simp: InGame_HandleInput_def Let_def split: prod.splits bool.splits dest: v)
qed

lemma HandleInput_sound:
  assumes "HandleInput s ctx e = (s', ctx', n)" and "sound ctx"
  shows "sound ctx' \<and> kind s' = kind s \<and> screen_of s' = screen_of s \<and> (n = None \<longrightarrow> on_screen s ctx \<longrightarrow> on_screen s' ctx')"
proof (cases s)
  case (InGameState a)
  then obtain a' where i: "InGame_HandleInput a ctx e = (a', ctx', n)" and s': "s' = InGameState a'"
    using assms(1) by (auto split: prod.splits)
  have k: "keeps ctx ctx'" using InGame_input_keeps [OF i] .
  have "on_screen s ctx \<Longrightarrow> on_screen s' ctx'"
    using keeps_on_screen [OF k, of s] InGameState s' by (simp add: on_screen_def)
  with keeps_sound [OF k assms(2)] InGameState s' show ?thesis by simp
qed (use assms in \<open>cases e; auto simp: on_screen_def MainMenu_HandleInput_def Connecting_HandleInput_def
      SendingInfo_HandleInput_def RequestingRooms_HandleInput_def Lobby_HandleInput_def
      JoiningRoom_HandleInput_def Let_def\<close>)+

text \<open>The handlers of the game's messages return, the showdown apart.\<close>

lemma update_player_returns [simp]: "ctx_players ctx \<noteq> None \<Longrightarrow> keeps ctx c \<Longrightarrow> returns ctx (update_player nick f c)"
  by (simp add: update_player_def)

lemma map_option_returns: "returns ctx m \<Longrightarrow> (\<And>c. keeps ctx c \<Longrightarrow> keeps ctx (f c)) \<Longrightarrow> returns ctx (map_option f m)"
  by (auto simp: returns_def)

lemma on_PJIN_returns: "log10_exact flog \<Longrightarrow> ctx_players ctx \<noteq> None \<Longrightarrow> returns ctx (on_PJIN flog ctx p)"
  unfolding on_PJIN_def
  by (rule returns_bind [OF handlePlayerJoined_returns]) simp_all

lemma on_PRDY_returns: "ctx_players ctx \<noteq> None \<Longrightarrow> returns ctx (on_PRDY ctx p)"
  by (simp add: on_PRDY_def)

lemma on_GMST_returns: "ctx_players ctx \<noteq> None \<Longrightarrow> returns ctx (on_GMST ctx)"
  unfolding on_GMST_def Let_def by (rule returns_bind) simp_all

lemma on_TOUT_returns: "ctx_players ctx \<noteq> None \<Longrightarrow> returns ctx (on_TOUT ctx p)"
  by (simp add: on_TOUT_def Let_def)

lemma on_ACOK_returns: "ctx_players ctx \<noteq> None \<Longrightarrow> returns ctx (on_ACOK act ctx)"
  unfolding on_ACOK_def by (rule returns_bind) (auto split: option.split GameAction.split)

lemma on_GWIN_returns:
  assumes "log10_exact flog" and pl: "ctx_players ctx \<noteq> None"
  shows "returns ctx (on_GWIN flog ctx p)"
  using assms(1)
proof (cases rule: ParseMessage_cases [where pl = p and ts = "[String, VarInt]"])
  case (error res consumed e)
  then show ?thesis by (simp add: on_GWIN_def)
next
  case (fields res consumed)
  then obtain w n where res: "res = [VStr w, VInt n]" by (auto simp: list_all2_Cons1)
  have f: "get_str res 0 = Some w" "get_int res 1 = Some n" using res by simp_all
  have "returns ctx (Option.bind (update_player w (\<lambda>d. d\<lparr>ChipCount := add64 (ChipCount d) n\<rparr>) ctx)
      (\<lambda>c. Some (AddPopup (''Player: '' @ w @ '' won '' @ fmt_d n @ '' chips'') (5 * time_Second) c)))"
    using pl by (intro returns_bind) simp_all
  with fields f show ?thesis by (simp add: on_GWIN_def)
qed

lemma on_CDTP_returns:
  assumes "log10_exact flog" and pl: "ctx_players ctx \<noteq> None"
  shows "\<exists>c n. on_CDTP flog ctx p = Some (c, n) \<and> keeps ctx c"
  using assms(1)
proof (cases rule: ParseMessage_cases [where pl = p and ts = "[SmallInt, SmallInt]"])
  case (error res consumed e)
  then show ?thesis by (simp add: on_CDTP_def)
next
  case (fields res consumed)
  then obtain a b where res: "res = [VInt a, VInt b]" by (auto simp: list_all2_Cons1)
  have f: "get_int res 0 = Some a" "get_int res 1 = Some b" using res by simp_all
  let ?d = "(read_player ctx (nickname ctx))\<lparr>Cards := [shown_card a, shown_card b]\<rparr>"
  have "returns ctx (put_player (nickname ctx) ?d ctx)" using pl by simp
  then obtain c where "put_player (nickname ctx) ?d ctx = Some c" "keeps ctx c" by (auto simp: returns_def)
  with fields f show ?thesis by (simp add: on_CDTP_def Let_def)
qed

lemmas message_returns = on_PJIN_returns on_PRDY_returns on_GMST_returns on_TOUT_returns
  on_ACOK_returns on_GWIN_returns handlePlayerAction_returns

lemma keeps_on_GMRD [simp]: "keeps ctx (on_GMRD ctx)"
  by (simp add: on_GMRD_def)

lemma keeps_on_CRVR [simp]: "keeps ctx (on_CRVR ctx p)"
  by (simp add: on_CRVR_def Let_def)

lemma keeps_on_PTRN [simp]: "keeps ctx (on_PTRN ctx p)"
  by (simp add: on_PTRN_def Let_def)

lemma keeps_Showdown [simp]: "keeps ctx (set_state (\<lambda>s. s\<lparr>Showdown := b\<rparr>) c) = keeps ctx c"
  by (simp add: keeps_def ctx_defs)

lemma keeps_on_GMDN [simp]: "keeps ctx (on_GMDN ctx)"
  by (simp add: on_GMDN_def Let_def)

text \<open>A message handler's outcome: it returns and keeps, or it was a showdown.\<close>

definition message_ok :: "ProgCtx \<Rightarrow> handled go \<Rightarrow> bool" where
  "message_ok ctx r \<longleftrightarrow> (\<exists>c n. r = Some (c, n) \<and> keeps ctx c)"

lemma message_ok_stay: "returns ctx m \<Longrightarrow> message_ok ctx (map_option (\<lambda>c. (c, None)) m)"
  by (auto simp: returns_def message_ok_def)

lemma message_ok_Some [simp]: "message_ok ctx (Some (c, n)) = keeps ctx c"
  by (simp add: message_ok_def)

lemma InGame_message_ok:
  assumes "log10_exact flog" "ctx_players ctx \<noteq> None" and "msg_Code m \<noteq> ''SDWN''"
  shows "message_ok ctx (InGame_message flog a ctx m)"
proof -
  note r = message_returns [THEN message_ok_stay]
  have cdtp: "message_ok ctx (on_CDTP flog ctx (msg_Payload m))"
    using on_CDTP_returns [OF assms(1,2)] by (simp add: message_ok_def)
  show ?thesis
    unfolding InGame_message_def Let_def if_not_P [OF assms(3)]
    by (intro if_intro [of "message_ok ctx"] r cdtp assms(1,2)) simp_all
qed

lemma InGame_message_keeps:
  assumes "log10_exact flog" "ctx_players ctx \<noteq> None" and "InGame_message flog a ctx m = Some (c, n)"
  shows "keeps ctx c"
proof (cases "msg_Code m = ''SDWN''")
  case True
  then have "map_option (\<lambda>c. (c, None)) (handleShowdown flog ctx (msg_Payload m)) = Some (c, n)"
    using assms(3) by (simp add: InGame_message_def)
  then show ?thesis by (auto dest: handleShowdown_keeps)
next
  case False
  with InGame_message_ok [OF assms(1,2), of m a] assms(3) show ?thesis by (simp add: message_ok_def)
qed

text \<open>A state's reaction to a network event: sound, and on its own screen unless it leaves.\<close>

definition event_result_ok :: "LogicState \<Rightarrow> ProgCtx \<Rightarrow> handled \<Rightarrow> bool" where
  "event_result_ok s ctx h \<longleftrightarrow>
     sound (fst h) \<and> (snd h = None \<longrightarrow> on_screen s ctx \<longrightarrow> on_screen s (fst h))"

lemma keeps_event_result_ok: "keeps ctx c \<Longrightarrow> sound ctx \<Longrightarrow> event_result_ok s ctx (c, n)"
  using keeps_sound keeps_on_screen by (simp add: event_result_ok_def)

lemma RequestingRooms_HandleNetwork_ok:
  assumes "sound ctx"
  shows "\<exists>h. RequestingRooms_HandleNetwork ctx e = Some h \<and> event_result_ok s ctx h"
proof -
  have room: "\<exists>c err. handleRoomData ctx m = Some (c, err) \<and> keeps ctx c" for m
    by (rule handleRoomData_returns)
  show ?thesis
  proof (cases e)
    case (NetMessage m)
    obtain c err where "handleRoomData ctx m = Some (c, err)" "keeps ctx c" using room by blast
    with NetMessage assms show ?thesis
      by (simp add: RequestingRooms_HandleNetwork_def keeps_event_result_ok)
  qed (use assms in \<open>simp_all add: RequestingRooms_HandleNetwork_def keeps_event_result_ok\<close>)
qed

lemma JoiningRoom_HandleNetwork_ok:
  assumes "log10_exact flog" "sound ctx"
  shows "\<exists>h. JoiningRoom_HandleNetwork flog ctx e = Some h \<and> event_result_ok s ctx h"
proof (cases e)
  case (NetMessage m)
  obtain c err where "deserializeRoomState flog ctx (msg_Payload m) = Some (c, err)" "keeps ctx c"
    using deserializeRoomState_returns [OF assms(1)] by blast
  with NetMessage assms show ?thesis
    by (simp add: JoiningRoom_HandleNetwork_def keeps_event_result_ok)
qed (use assms in \<open>simp_all add: JoiningRoom_HandleNetwork_def keeps_event_result_ok\<close>)

definition showdown_danger :: "LogicState \<Rightarrow> ProgCtx \<Rightarrow> NetEvent \<Rightarrow> bool" where
  "showdown_danger s ctx e \<longleftrightarrow>
     (\<exists>a m. s = InGameState a \<and> e = NetMessage m \<and> msg_Code m = ''SDWN''
        \<and> \<not> (two_cards ctx \<and> 2 \<le> length (msg_Payload m)))"

lemma InGame_HandleNetwork_ok:
  assumes fl: "log10_exact flog" and snd: "sound ctx"
  shows "(\<exists>h. InGame_HandleNetwork flog a ctx e = Some h) \<or> showdown_danger (InGameState a) ctx e"
    and "InGame_HandleNetwork flog a ctx e = Some h \<Longrightarrow> event_result_ok s ctx h"
proof -
  have p: "ctx_players ctx \<noteq> None" using snd by (simp add: sound_def)
  show "(\<exists>h. InGame_HandleNetwork flog a ctx e = Some h) \<or> showdown_danger (InGameState a) ctx e"
  proof (cases e)
    case (NetMessage m)
    have "(\<exists>c n. InGame_message flog a ctx m = Some (c, n)) \<or> showdown_danger (InGameState a) ctx e"
    proof (cases "msg_Code m = ''SDWN''")
      case True
      then show ?thesis
        using NetMessage handleShowdown_returns [OF fl, of ctx "msg_Payload m"]
        by (auto simp: InGame_message_def showdown_danger_def returns_def)
    next
      case False
      then show ?thesis using InGame_message_ok [OF fl p False, of a] by (auto simp: message_ok_def)
    qed
    with NetMessage show ?thesis by (auto simp: InGame_HandleNetwork_def)
  qed (simp_all add: InGame_HandleNetwork_def)
  show "event_result_ok s ctx h" if "InGame_HandleNetwork flog a ctx e = Some h"
  proof -
    obtain c n where h: "h = (c, n)" by (cases h)
    have "keeps ctx c"
      using that h InGame_message_keeps [OF fl p]
      by (auto simp: InGame_HandleNetwork_def bind_Some_iff split: NetEvent.splits)
    with h snd show ?thesis by (simp add: keeps_event_result_ok)
  qed
qed

lemma HandleNetwork_ok:
  assumes "log10_exact flog" "sound ctx"
  shows "(\<exists>h. HandleNetwork flog s ctx e = Some h) \<or> showdown_danger s ctx e"
    and "HandleNetwork flog s ctx e = Some h \<Longrightarrow> event_result_ok s ctx h"
proof -
  show "(\<exists>h. HandleNetwork flog s ctx e = Some h) \<or> showdown_danger s ctx e"
    using assms RequestingRooms_HandleNetwork_ok JoiningRoom_HandleNetwork_ok InGame_HandleNetwork_ok(1)
    by (cases s) fastforce+
  show "event_result_ok s ctx h" if "HandleNetwork flog s ctx e = Some h"
  proof (cases s)
    case RequestingRoomsState
    with that RequestingRooms_HandleNetwork_ok [OF assms(2), of e s] show ?thesis by auto
  next
    case JoiningRoomState
    with that JoiningRoom_HandleNetwork_ok [OF assms, of e s] show ?thesis by auto
  next
    case (InGameState a)
    with that InGame_HandleNetwork_ok(2) [OF assms] show ?thesis by auto
  qed (use that assms in \<open>cases e; auto simp: event_result_ok_def on_screen_def MainMenu_HandleNetwork_def
      Connecting_HandleNetwork_def SendingInfo_HandleNetwork_def Lobby_HandleNetwork_def\<close>)+
qed

section \<open>The client's invariant\<close>

text \<open>
  While the client runs, the maps are made, the network handler is in order and the screen is
  the current state's.
\<close>

definition client_inv :: "thread \<times> ProgCtx \<Rightarrow> bool" where
  "client_inv tc =
     (case fst tc of
        Looping s \<Rightarrow> sound (snd tc) \<and> on_screen s (snd tc)
      | Ended \<Rightarrow> sound (snd tc)
      | Panicked \<Rightarrow> True)"

lemma client_inv_simps [simp]:
  "client_inv (Looping s, ctx) \<longleftrightarrow> sound ctx \<and> on_screen s ctx"
  "client_inv (Ended, ctx) \<longleftrightarrow> sound ctx"
  "client_inv (Panicked, ctx)"
  by (simp_all add: client_inv_def)

text \<open>
  What the game thread asks of Go's interface \<open>LogicState\<close>: leaving a state never panics and
  keeps the context in order, entering one keeps it and puts the state's screen up. Every
  transition is then safe.
\<close>

locale logic_state =
  fixes enter :: "'s \<Rightarrow> 'c \<Rightarrow> 'c"
    and exit :: "'s \<Rightarrow> 'c \<Rightarrow> 'c go"
    and redraw :: "'c \<Rightarrow> 'c"
    and ok :: "'c \<Rightarrow> bool"
    and shown :: "'s \<Rightarrow> 'c \<Rightarrow> bool"
  assumes exit_ok: "ok c \<Longrightarrow> \<exists>c'. exit s c = Some c' \<and> ok c'"
    and enter_ok: "ok c \<Longrightarrow> ok (enter s c)"
    and enter_shown: "ok c \<Longrightarrow> shown s (enter s c)"
    and redraw_ok: "ok c \<Longrightarrow> ok (redraw c)"
    and redraw_shown: "shown s c \<Longrightarrow> shown s (redraw c)"
begin

lemma switch_ok:
  "ok c \<Longrightarrow> \<exists>c'. Option.bind (exit s c) (\<lambda>c. Some (redraw (enter t c))) = Some c' \<and> ok c' \<and> shown t c'"
proof -
  assume "ok c"
  then obtain c' where c': "exit s c = Some c'" "ok c'" using exit_ok by blast
  from c'(2) have "ok (redraw (enter t c'))" "shown t (redraw (enter t c'))"
    by (rule redraw_ok [OF enter_ok], rule redraw_shown [OF enter_shown])
  with c'(1) show ?thesis by simp
qed

end

interpretation states: logic_state "Enter flog" Exit ctx_SetDirty sound on_screen for flog
  using Enter_sound Exit_sound by unfold_locales (auto simp: on_screen_def)

lemma handle_transition_ok:
  assumes "sound ctx" "n = None \<Longrightarrow> on_screen s ctx"
  shows "\<exists>s' ctx'. handle_transition flog s (ctx, n) = Some (s', ctx') \<and> sound ctx' \<and> on_screen s' ctx'"
proof (cases n)
  case None
  with assms show ?thesis by (simp add: handle_transition_def)
next
  case (Some t)
  with states.switch_ok [OF assms(1), of s flog t] show ?thesis
    by (auto simp: handle_transition_def bind_Some_iff)
qed

lemma loop_input_ok:
  assumes "sound ctx" "on_screen s ctx"
  shows "\<exists>s' ctx'. loop_input flog s ctx e = Some (s', ctx') \<and> sound ctx' \<and> on_screen s' ctx'"
proof (cases "e = EvtQuit")
  case True
  with assms show ?thesis by (simp add: loop_input_def sound_def on_screen_def ctx_players_def)
next
  case False
  obtain s' c n where h: "HandleInput s ctx e = (s', c, n)" by (cases "HandleInput s ctx e") auto
  with assms HandleInput_sound [OF h assms(1)] handle_transition_ok [of c n s' flog] False
  show ?thesis by (simp add: loop_input_def)
qed

lemma loop_event_ok:
  assumes fl: "log10_exact flog" and ok: "sound ctx" "on_screen s ctx"
  shows "(\<exists>s' ctx'. loop_event flog s ctx e = Some (s', ctx') \<and> sound ctx' \<and> on_screen s' ctx')
       \<or> loop_event flog s ctx e = None \<and> showdown_danger s ctx e"
proof (cases "HandleNetwork flog s ctx e")
  case None
  with HandleNetwork_ok(1) [OF fl ok(1), of s e] show ?thesis by (simp add: loop_event_def)
next
  case (Some h)
  have "sound (fst h)" "snd h = None \<Longrightarrow> on_screen s (fst h)"
    using HandleNetwork_ok(2) [OF fl ok(1) Some] ok(2) by (simp_all add: event_result_ok_def)
  with Some handle_transition_ok [of "fst h" "snd h" s flog] show ?thesis by (simp add: loop_event_def)
qed

lemma sound_take_input: "sound (ctx\<lparr>UserInputChan := q\<rparr>) = sound ctx"
  and on_screen_take_input: "on_screen s (ctx\<lparr>UserInputChan := q\<rparr>) = on_screen s ctx"
  by (simp_all add: sound_def on_screen_def ctx_players_def)

lemma sound_net: "sound ctx \<Longrightarrow> net_step wr (net_handler ctx) nh \<Longrightarrow> sound (ctx\<lparr>net_handler := nh\<rparr>)"
  and on_screen_net: "on_screen s (ctx\<lparr>net_handler := nh\<rparr>) = on_screen s ctx"
  by (auto simp: sound_def on_screen_def ctx_players_def intro: net_step_inv)

lemma after_pass_inv:
  "\<exists>s' ctx'. r = Some (s', ctx') \<and> sound ctx' \<and> on_screen s' ctx' \<Longrightarrow> client_inv (after_pass r ctx)"
  by (auto simp: after_pass_def)

lemma client_inv_frame:
  "client_inv (t, ctx) \<Longrightarrow> t \<noteq> Panicked \<Longrightarrow> (sound ctx \<Longrightarrow> sound ctx') \<Longrightarrow>
   Screen (State ctx') = Screen (State ctx) \<Longrightarrow> client_inv (t, ctx')"
  by (cases t) (simp_all add: on_screen_def)

lemma thread_step_inv:
  assumes fl: "log10_exact flog"
  shows "thread_step flog wr s t \<Longrightarrow> client_inv s \<Longrightarrow> client_inv t"
proof (induction rule: thread_step.induct)
  case (game_input ctx e q s)
  then show ?case
    using loop_input_ok [of "ctx\<lparr>UserInputChan := q\<rparr>" s flog e]
    by (intro after_pass_inv) (simp add: sound_take_input on_screen_take_input)
next
  case (game_net ctx e q s)
  let ?c = "ctx\<lparr>net_handler := (net_handler ctx)\<lparr>eventChan := q\<rparr>\<rparr>"
  have "sound ?c" "on_screen s ?c"
    using game_net sound_net [OF _ net_step.game_event] by (simp_all add: on_screen_net)
  with loop_event_ok [OF fl, of ?c s e] show ?case by (auto simp: after_pass_def)
next
  case (game_end ctx s)
  then show ?case by (simp add: gameThread_end_def sound_def ctx_defs)
next
  case (net_goroutine t ctx nh)
  from net_goroutine(3) net_goroutine(1) show ?case
    by (rule client_inv_frame) (use net_goroutine(2) in \<open>simp_all add: sound_net\<close>)
next
  case (time_passes t ctx now)
  from time_passes(3) time_passes(1) show ?case
    by (rule client_inv_frame) (simp_all add: sound_def ctx_defs)
qed

lemma client_step_inv:
  assumes fl: "log10_exact flog"
  shows "client_step flog wr s t \<Longrightarrow> client_inv s \<Longrightarrow> client_inv t"
proof (induction rule: client_step.induct)
  case (other_threads s s')
  then show ?case by (rule thread_step_inv [OF fl])
next
  case (ui_event t ctx src ctx')
  show ?case
  proof (rule client_inv_frame [OF ui_event(3,1)])
    obtain c where c: "sound ctx \<Longrightarrow> handleUIEvent flog ctx src = Some c \<and> ui_keeps ctx c"
      using handleUIEvent_returns sound_players by blast
    then have "sound ctx \<Longrightarrow> ui_keeps ctx ctx'" using ui_event(2) by simp
    then show "sound ctx \<Longrightarrow> sound ctx'" by (simp add: sound_def ui_keeps_def)
    have "sound ctx" using ui_event(1,3) by (cases t) simp_all
    then show "Screen (State ctx') = Screen (State ctx)"
      using \<open>sound ctx \<Longrightarrow> ui_keeps ctx ctx'\<close> by (simp add: ui_keeps_def)
  qed
next
  case (ui_event_panic t ctx src)
  then show ?case by simp
next
  case (ui_edit t ctx nick chips ip port bet)
  from ui_edit(2) ui_edit(1) show ?case
    by (rule client_inv_frame) (simp_all add: edit_boxes_def sound_def ctx_defs)
next
  case (ui_own t ctx ui ps q)
  from ui_own(2) ui_own(1) show ?case
    by (rule client_inv_frame) (simp_all add: sound_def ctx_defs)
next
  case (ui_close t ctx)
  from ui_close(2) ui_close(1) show ?case
    by (rule client_inv_frame) (simp_all add: main_shutdown_def sound_def ctx_defs send_input_def)
qed

lemma client_start_inv: "client_inv (client_start flog r c now)"
  by (simp add: client_start_def gameThread_start_def MainMenu_Enter_def initProgCtx_def sound_def
      on_screen_def ctx_defs make_map_def net_inv_Init)

text \<open>The client with an exact logarithm is an invariant system.\<close>

interpretation client: invariant_system "client_step exact_log10 wr" client_inv for wr
  by unfold_locales (rule client_step_inv [OF exact_log10_exact])

section \<open>Runs of the game thread\<close>

lemma gameThread_loop_append:
  "gameThread_loop flog sc (xs @ ys) = do { sc \<leftarrow> gameThread_loop flog sc xs; gameThread_loop flog sc ys }"
proof (induction xs arbitrary: sc)
  case (Cons x xs)
  show ?case
  proof (cases "ShouldClose (snd sc)")
    case True
    then show ?thesis by (cases ys) simp_all
  next
    case False
    with Cons show ?thesis by (cases "loop_pass flog sc x") simp_all
  qed
qed simp

text \<open>The outgoing queue, while it has room.\<close>

definition outgoing :: "ProgCtx \<Rightarrow> NetMsg list" where
  "outgoing ctx = msgOutChan (net_handler ctx)"

lemma outgoing_simps [simp]:
  "outgoing (AddPopup txt d ctx) = outgoing ctx" "outgoing (set_screen scr ctx) = outgoing ctx"
  "outgoing (ctx_SetDirty ctx) = outgoing ctx" "outgoing (set_state f ctx) = outgoing ctx"
  "outgoing (set_table g ctx) = outgoing ctx" "outgoing (ctx_SendCommand cmd ctx) = outgoing ctx"
  by (simp_all add: outgoing_def ctx_defs SendCommand_def)

lemma outgoing_send [simp]:
  "length (outgoing ctx) < 100 \<Longrightarrow> outgoing (ctx_SendNetMsg c p ctx) = outgoing ctx @ [net_msg c p]"
  by (simp add: outgoing_def ctx_SendNetMsg_def SendNetMsg_def chan_try_send_def chanBufSize_def)

lemma close_simps [simp]:
  "ShouldClose (ctx_SendNetMsg c p ctx) = ShouldClose ctx" "ShouldClose (ctx_SendCommand cmd ctx) = ShouldClose ctx"
  "ShouldClose (ctx_SetDirty ctx) = ShouldClose ctx"
  by (simp_all add: ctx_defs)

abbreviation server_says :: "bytes \<Rightarrow> bytes \<Rightarrow> loop_pick" where
  "server_says c p \<equiv> PickEvent (NetMessage (net_msg c p))"

lemma room_event:
  assumes "room_ok r" and "Rooms (State ctx) = Some m"
  shows "loop_event flog RequestingRoomsState ctx (NetMessage (net_msg ''ROOM'' (room_bytes r)))
    = Some (RequestingRoomsState, ctx_SendNetMsg ''RMOK'' [] (set_state (\<lambda>s. s\<lparr>Rooms := Some (m(room_ID r \<mapsto> r))\<rparr>) ctx))"
proof -
  have "deserializeRoom (room_bytes r) = Some r"
    using deserializeRoom_bytes [OF assms(1), of "[]"] by simp
  moreover have "room_ID r \<noteq> - 1" using assms(1) by (simp add: room_ok_def big_ok_def)
  ultimately show ?thesis
    using assms(2) by (simp add: loop_event_def RequestingRooms_HandleNetwork_def handleRoomData_def
        handle_transition_def map_put_def)
qed

definition add_rooms :: "(int \<rightharpoonup> Room) \<Rightarrow> Room list \<Rightarrow> (int \<rightharpoonup> Room)" where
  "add_rooms m rs = foldl (\<lambda>m r. m(room_ID r \<mapsto> r)) m rs"

lemma rooms_run:
  "list_all room_ok rs \<Longrightarrow> \<not> ShouldClose ctx \<Longrightarrow> Rooms (State ctx) = Some m \<Longrightarrow>
   length (outgoing ctx) + length rs < 100 \<Longrightarrow>
   \<exists>ctx'. gameThread_loop flog (RequestingRoomsState, ctx) (map (\<lambda>r. server_says ''ROOM'' (room_bytes r)) rs)
       = Some (RequestingRoomsState, ctx')
     \<and> \<not> ShouldClose ctx' \<and> Rooms (State ctx') = Some (add_rooms m rs)
     \<and> outgoing ctx' = outgoing ctx @ replicate (length rs) (net_msg ''RMOK'' [])
     \<and> ctx_players ctx' = ctx_players ctx \<and> nickname ctx' = nickname ctx"
proof (induction rs arbitrary: ctx m)
  case (Cons r rs)
  let ?c = "ctx_SendNetMsg ''RMOK'' [] (set_state (\<lambda>s. s\<lparr>Rooms := Some (m(room_ID r \<mapsto> r))\<rparr>) ctx)"
  have c: "\<not> ShouldClose ?c" "Rooms (State ?c) = Some (m(room_ID r \<mapsto> r))"
    "outgoing ?c = outgoing ctx @ [net_msg ''RMOK'' []]" "ctx_players ?c = ctx_players ctx" "nickname ?c = nickname ctx"
    using Cons.prems by (simp_all, simp add: ctx_defs)
  have tail: "list_all room_ok rs" and room: "length (outgoing ?c) + length rs < 100"
    using Cons.prems c(3) by simp_all
  obtain ctx' where "gameThread_loop flog (RequestingRoomsState, ?c) (map (\<lambda>r. server_says ''ROOM'' (room_bytes r)) rs)
       = Some (RequestingRoomsState, ctx')
     \<and> \<not> ShouldClose ctx' \<and> Rooms (State ctx') = Some (add_rooms (m(room_ID r \<mapsto> r)) rs)
     \<and> outgoing ctx' = outgoing ?c @ replicate (length rs) (net_msg ''RMOK'' [])
     \<and> ctx_players ctx' = ctx_players ?c \<and> nickname ctx' = nickname ?c"
    using Cons.IH [OF tail c(1,2) room] by blast
  with Cons.prems c room_event [of r ctx m flog] show ?case by (simp add: add_rooms_def)
qed (simp add: add_rooms_def)

text \<open>From the main menu to the request of the rooms.\<close>

definition login_events :: "loop_pick list" where
  "login_events = [PickEvent NetConnecting, PickEvent NetConnected, server_says ''PNOK'' [], server_says ''PIOK'' []]"

lemma login_run:
  assumes "\<not> ShouldClose ctx" and "outgoing ctx = []" and "str_ok (nickname ctx)"
    and "var_ok flog (ChipCount (read_player ctx (nickname ctx)))"
  shows "\<exists>ctx'. gameThread_loop flog (MainMenuState, ctx) login_events = Some (RequestingRoomsState, ctx')
    \<and> \<not> ShouldClose ctx' \<and> Rooms (State ctx') = Some Map.empty
    \<and> outgoing ctx' = [net_msg ''CONN'' (str_bytes (nickname ctx)), net_msg ''CONN'' (str_bytes (nickname ctx)),
         net_msg ''PINF'' (var_bytes (ChipCount (read_player ctx (nickname ctx)))), net_msg ''RMRQ'' []]"
proof -
  let ?n = "str_bytes (nickname ctx)" and ?v = "var_bytes (ChipCount (read_player ctx (nickname ctx)))"
  define c1 where "c1 = ctx_SetDirty (ctx_SendNetMsg ''CONN'' ?n (set_screen ScreenConnecting ctx))"
  define c2 where "c2 = ctx_SetDirty (ctx_SendNetMsg ''CONN'' ?n c1)"
  define c3 where "c3 = ctx_SetDirty (ctx_SendNetMsg ''PINF'' ?v c2)"
  define c4 where "c4 = ctx_SetDirty (RequestingRooms_Enter c3)"
  have n: "nickname c1 = nickname ctx" "nickname c2 = nickname ctx" by (simp_all add: c1_def c2_def)
  have r: "read_player c2 (nickname ctx) = read_player ctx (nickname ctx)"
    by (simp add: c1_def c2_def read_player_def)
  have s: "\<not> ShouldClose c1" "\<not> ShouldClose c2" "\<not> ShouldClose c3" "\<not> ShouldClose c4"
    using assms(1) by (simp_all add: c1_def c2_def c3_def c4_def RequestingRooms_Enter_def)
  have o: "outgoing c1 = [net_msg ''CONN'' ?n]" "outgoing c2 = [net_msg ''CONN'' ?n, net_msg ''CONN'' ?n]"
    "outgoing c3 = [net_msg ''CONN'' ?n, net_msg ''CONN'' ?n, net_msg ''PINF'' ?v]"
    "outgoing c4 = [net_msg ''CONN'' ?n, net_msg ''CONN'' ?n, net_msg ''PINF'' ?v, net_msg ''RMRQ'' []]"
    using assms(2) by (simp_all add: c1_def c2_def c3_def c4_def RequestingRooms_Enter_def)
  have e1: "loop_event flog MainMenuState ctx NetConnecting = Some (ConnectingState False, c1)"
    using assms(3) by (simp add: loop_event_def MainMenu_HandleNetwork_def handle_transition_def
        Connecting_Enter_def WriteString_str c1_def)
  have e2: "loop_event flog (ConnectingState False) c1 NetConnected = Some (ConnectingState False, c2)"
    using assms(3) n by (simp add: loop_event_def Connecting_HandleNetwork_def handle_transition_def
        Connecting_Enter_def WriteString_str c2_def)
  have e3: "loop_event flog (ConnectingState False) c2 (NetMessage (net_msg ''PNOK'' [])) = Some (SendingInfoState, c3)"
    using assms(4) n r by (simp add: loop_event_def Connecting_HandleNetwork_def handle_transition_def
        SendingInfo_Enter_def WriteVarInt_var Let_def c3_def)
  have e4: "loop_event flog SendingInfoState c3 (NetMessage (net_msg ''PIOK'' [])) = Some (RequestingRoomsState, c4)"
    by (simp add: loop_event_def SendingInfo_HandleNetwork_def handle_transition_def c4_def)
  have "Rooms (State c4) = Some Map.empty" by (simp add: c4_def RequestingRooms_Enter_def make_map_def)
  moreover have "gameThread_loop flog (MainMenuState, ctx) login_events = Some (RequestingRoomsState, c4)"
    using assms(1) s e1 e2 e3 e4 by (simp add: login_events_def)
  ultimately show ?thesis using s(4) o(4) by blast
qed

section \<open>Properties\<close>

text \<open>
  C10. Logging in: when the connection comes up and the server accepts the nickname and the
  player's info and then lists its rooms, the client ends in the lobby, on its screen, with
  exactly the listed rooms (the last one of a repeated id), and has sent, in this order, its
  nickname, its chips, the request for the rooms, one confirmation per room and the confirmation
  of the list. The nickname is sent twice, once for \<open>NetConnecting\<close> and once for
  \<open>NetConnected\<close>.
\<close>

theorem login_reaches_the_lobby:
  assumes "\<not> ShouldClose ctx" and "outgoing ctx = []" and "str_ok (nickname ctx)"
    and "var_ok flog (ChipCount (read_player ctx (nickname ctx)))"
    and "list_all room_ok rs" and "length rs \<le> 90"
  shows "\<exists>ctx'. gameThread_loop flog (MainMenuState, ctx)
        (login_events @ map (\<lambda>r. server_says ''ROOM'' (room_bytes r)) rs @ [server_says ''DONE'' []])
      = Some (LobbyState, ctx')
    \<and> Screen (State ctx') = ScreenRoomSelect
    \<and> Rooms (State ctx') = Some (map_of (rev (map (\<lambda>r. (room_ID r, r)) rs)))
    \<and> outgoing ctx' = [net_msg ''CONN'' (str_bytes (nickname ctx)), net_msg ''CONN'' (str_bytes (nickname ctx)),
         net_msg ''PINF'' (var_bytes (ChipCount (read_player ctx (nickname ctx)))), net_msg ''RMRQ'' []]
         @ replicate (length rs) (net_msg ''RMOK'' []) @ [net_msg ''DNOK'' []]"
proof -
  obtain c where c: "gameThread_loop flog (MainMenuState, ctx) login_events = Some (RequestingRoomsState, c)"
    "\<not> ShouldClose c" "Rooms (State c) = Some Map.empty"
    "outgoing c = [net_msg ''CONN'' (str_bytes (nickname ctx)), net_msg ''CONN'' (str_bytes (nickname ctx)),
         net_msg ''PINF'' (var_bytes (ChipCount (read_player ctx (nickname ctx)))), net_msg ''RMRQ'' []]"
    using login_run [OF assms(1-4)] by blast
  have "length (outgoing c) + length rs < 100" using assms(6) c(4) by simp
  from rooms_run [OF assms(5) c(2,3) this, of flog] obtain d where d:
    "gameThread_loop flog (RequestingRoomsState, c) (map (\<lambda>r. server_says ''ROOM'' (room_bytes r)) rs)
       = Some (RequestingRoomsState, d)"
    "\<not> ShouldClose d" "Rooms (State d) = Some (add_rooms Map.empty rs)"
    "outgoing d = outgoing c @ replicate (length rs) (net_msg ''RMOK'' [])" by blast
  let ?final = "ctx_SetDirty (Lobby_Enter (ctx_SendNetMsg ''DNOK'' [] d))"
  have fin: "gameThread_loop flog (RequestingRoomsState, d) [server_says ''DONE'' []] = Some (LobbyState, ?final)"
    using d(2) by (simp add: loop_event_def RequestingRooms_HandleNetwork_def handle_transition_def)
  have rooms: "add_rooms m rs = m ++ map_of (rev (map (\<lambda>r. (room_ID r, r)) rs))" for m
    by (induction rs arbitrary: m) (simp_all add: add_rooms_def map_of_append)
  have "outgoing ?final = outgoing d @ [net_msg ''DNOK'' []]"
    using d(4) c(4) assms(6) by (simp add: Lobby_Enter_def)
  moreover have "Rooms (State ?final) = Some (map_of (rev (map (\<lambda>r. (room_ID r, r)) rs)))"
    using d(3) rooms [of Map.empty] by (simp add: Lobby_Enter_def)
  moreover have "Screen (State ?final) = ScreenRoomSelect" by (simp add: Lobby_Enter_def)
  moreover have "gameThread_loop flog (MainMenuState, ctx)
        (login_events @ map (\<lambda>r. server_says ''ROOM'' (room_bytes r)) rs @ [server_says ''DONE'' []])
      = Some (LobbyState, ?final)"
    using c(1) d(1) fin by (simp add: gameThread_loop_append)
  ultimately show ?thesis using d(4) c(4) by auto
qed

lemma login_reaches_the_lobby_witness:
  "\<exists>ctx'. gameThread_loop exact_log10 (MainMenuState, ctx_with [''Client7'' \<mapsto> zero_player\<lparr>ChipCount := 100\<rparr>])
        (login_events @ map (\<lambda>r. server_says ''ROOM'' (room_bytes r))
             [\<lparr>room_ID = 1, room_Name = ''A'', CurrentPlayers = 0, MaxPlayers = 4\<rparr>] @ [server_says ''DONE'' []])
      = Some (LobbyState, ctx')
    \<and> Screen (State ctx') = ScreenRoomSelect
    \<and> Rooms (State ctx') = Some (map_of (rev (map (\<lambda>r. (room_ID r, r))
         [\<lparr>room_ID = 1, room_Name = ''A'', CurrentPlayers = 0, MaxPlayers = 4\<rparr>])))
    \<and> outgoing ctx' = [net_msg ''CONN'' (str_bytes (nickname (ctx_with [''Client7'' \<mapsto> zero_player\<lparr>ChipCount := 100\<rparr>]))),
         net_msg ''CONN'' (str_bytes (nickname (ctx_with [''Client7'' \<mapsto> zero_player\<lparr>ChipCount := 100\<rparr>]))),
         net_msg ''PINF'' (var_bytes (ChipCount (read_player (ctx_with [''Client7'' \<mapsto> zero_player\<lparr>ChipCount := 100\<rparr>])
            (nickname (ctx_with [''Client7'' \<mapsto> zero_player\<lparr>ChipCount := 100\<rparr>]))))), net_msg ''RMRQ'' []]
         @ replicate (length [\<lparr>room_ID = 1, room_Name = ''A'', CurrentPlayers = 0, MaxPlayers = 4\<rparr>]) (net_msg ''RMOK'' [])
         @ [net_msg ''DNOK'' []]"
proof (rule login_reaches_the_lobby)
  let ?ctx = "ctx_with [''Client7'' \<mapsto> zero_player\<lparr>ChipCount := 100\<rparr>]"
  show "\<not> ShouldClose ?ctx" "outgoing ?ctx = []"
    by (simp_all add: ctx_with_def initProgCtx_def outgoing_def Net_Init_def set_table_def set_state_def)
  show "str_ok (nickname ?ctx)" by (simp add: str_ok_def)
  show "var_ok exact_log10 (ChipCount (read_player ?ctx (nickname ?ctx)))"
    by (simp add: read_player_def log10_exact_var_ok in64_def)
qed (simp_all add: room_ok_def big_ok_def str_ok_def small_ok_def)



lemma client_run_inv:
  assumes "log10_exact flog" and "(client_step flog wr)\<^sup>*\<^sup>* (client_start flog r c now) tc"
  shows "client_inv tc"
proof -
  have "invariant_system (client_step flog wr) client_inv"
    by unfold_locales (rule client_step_inv [OF assms(1)])
  then show ?thesis using assms(2) client_start_inv by (rule invariant_system.run_inv)
qed





text \<open>
  C21. Losing the server ends every state: whatever the client is doing, the event
  \<open>NetDisconnected\<close> never panics and leads to the main menu, on its screen; the client's own
  data survive, the other players' are forgotten when a game was left.
\<close>

theorem disconnect_leads_to_the_menu:
  assumes "ctx_players ctx \<noteq> None" and "on_screen s ctx"
  shows "\<exists>ctx'. loop_event flog s ctx NetDisconnected = Some (MainMenuState, ctx')
    \<and> Screen (State ctx') = ScreenMainMenu
    \<and> read_player ctx' (nickname ctx) = read_player ctx (nickname ctx)
    \<and> (kind s = Playing \<longrightarrow> (\<forall>k. k \<noteq> nickname ctx \<longrightarrow> lookup_player ctx' k = None))"
proof (cases s)
  case MainMenuState
  with assms(2) show ?thesis
    by (simp add: loop_event_def MainMenu_HandleNetwork_def handle_transition_def on_screen_def)
next
  case (InGameState a)
  let ?c = "AddPopup ''Server stopped responding.'' (time_Second * 3) ctx"
  have "\<exists>c. InGame_Exit (ctx_SetDirty ?c) = Some c
      \<and> (\<forall>k. lookup_player c k = (if k = nickname ctx then Some (read_player ctx (nickname ctx)) else None))"
    by (simp add: InGame_Exit_def Let_def put_player_def map_put_def make_map_def lookup_player_def map_get_def
        read_player_def)
  then obtain c where "InGame_Exit (ctx_SetDirty ?c) = Some c"
    "\<And>k. lookup_player c k = (if k = nickname ctx then Some (read_player ctx (nickname ctx)) else None)" by blast
  with InGameState show ?thesis
    by (simp add: loop_event_def InGame_HandleNetwork_def handle_transition_def MainMenu_Enter_def read_player_def)
qed (simp_all add: loop_event_def handle_transition_def MainMenu_Enter_def read_player_def
    Connecting_HandleNetwork_def SendingInfo_HandleNetwork_def RequestingRooms_HandleNetwork_def
    Lobby_HandleNetwork_def JoiningRoom_HandleNetwork_def)

lemma disconnect_leads_to_the_menu_witness:
  "\<exists>ctx'. loop_event exact_log10 JoiningRoomState (ctx_with Map.empty) NetDisconnected = Some (MainMenuState, ctx')
    \<and> Screen (State ctx') = ScreenMainMenu
    \<and> read_player ctx' (nickname (ctx_with Map.empty)) = read_player (ctx_with Map.empty) (nickname (ctx_with Map.empty))
    \<and> (kind JoiningRoomState = Playing \<longrightarrow>
         (\<forall>k. k \<noteq> nickname (ctx_with Map.empty) \<longrightarrow> lookup_player ctx' k = None))"
  by (rule disconnect_leads_to_the_menu) (simp_all add: on_screen_def)

end
