(* ===== verification/MainLoop.thy ===== *)
theory MainLoop
  imports GameThread
begin

text \<open>
  The main thread (\<open>main\<close> in \<open>sp/client/src/Main.go\<close>): its self test, and the frame loop that lays
  out and draws the current screen, collects the events of its components, handles them, and
  waits for the game thread at the end. \<open>program_step\<close> is the whole program, the frame loop
  interleaved with the other threads; it refines \<open>client_step\<close>.

  What the user does in a frame and the size of the window are free choices of a step.
\<close>

section \<open>The self test\<close>

text \<open>Two messages in one buffer, of which the second is parsed with a reset parser.\<close>

definition test_msg :: bytes where
  "test_msg = ''PKRNGMST'' @ [CHR 0x0A] @ ''PKRPCDTP00043322'' @ [CHR 0x0A]"

definition zero_parser :: Parser where
  "zero_parser = Parser_Init\<lparr>msg_type := CHR 0x00\<rparr>"

definition self_test :: ParseResults where
  "self_test =
     (let (parser, results) = ParseBytes zero_parser test_msg;
          parser = ResetParser parser
      in snd (ParseBytes parser (drop (res_BytesParsed results) test_msg)))"

section \<open>A frame\<close>

text \<open>
  An element to draw is a copy of a \<open>UIElement\<close>: a dirty flag of its own and the pointer to a
  component that the store holds too, here the name of the store's field. What drawing does to
  the component is seen in the store; clearing the copy's flag is not.
\<close>

type_synonym draw_element = "ui_slot \<times> bool"

definition element_of :: "ProgCtx \<Rightarrow> ui_slot \<Rightarrow> draw_element" where
  "element_of ctx sl = (sl, elem_dirty (slot_element sl (UI ctx)))"

fun set_component :: "ui_slot \<Rightarrow> RGComponent \<Rightarrow> UIStore \<Rightarrow> UIStore" where
  "set_component Slot_MainMenu c ui = ui\<lparr>ui_MainMenu := (ui_MainMenu ui)\<lparr>elem_component := Some c\<rparr>\<rparr>"
| "set_component Slot_Connecting c ui = ui\<lparr>ui_Connecting := (ui_Connecting ui)\<lparr>elem_component := Some c\<rparr>\<rparr>"
| "set_component Slot_Reconnecting c ui = ui\<lparr>ui_Reconnecting := (ui_Reconnecting ui)\<lparr>elem_component := Some c\<rparr>\<rparr>"
| "set_component Slot_RoomSelect c ui = ui\<lparr>ui_RoomSelect := (ui_RoomSelect ui)\<lparr>elem_component := Some c\<rparr>\<rparr>"
| "set_component Slot_Game c ui = ui\<lparr>ui_Game := (ui_Game ui)\<lparr>elem_component := Some c\<rparr>\<rparr>"

text \<open>The size of the window, compared with the constants it was opened with.\<close>

definition screenWidth :: int where "screenWidth = 1600"
definition screenHeight :: int where "screenHeight = 1000"

definition frame_size :: "int \<Rightarrow> int \<Rightarrow> Rectangle \<times> ProgCtx \<Rightarrow> Rectangle \<times> ProgCtx" where
  "frame_size tmpScreenHeight tmpScreenWidth bc =
     (let bc = (if tmpScreenHeight \<noteq> screenHeight
                then ((fst bc)\<lparr>rect_Height := float32_of_int tmpScreenHeight\<rparr>, ctx_SetDirty (snd bc)) else bc)
      in if tmpScreenWidth \<noteq> screenWidth
         then ((fst bc)\<lparr>rect_Width := float32_of_int tmpScreenWidth\<rparr>, ctx_SetDirty (snd bc)) else bc)"

text \<open>A screen that is built anew takes over from the one before; the method call needs a new component.\<close>

definition rebuilt :: "UIElement \<Rightarrow> UIElement \<Rightarrow> UIElement" where
  "rebuilt new old = new\<lparr>elem_component := map_option (\<lambda>c. Rebuild c (elem_component old)) (elem_component new)\<rparr>"

definition frame_elements :: "UIScreen \<Rightarrow> ProgCtx \<Rightarrow> ProgCtx \<times> draw_element list" where
  "frame_elements currentScreen ctx =
     (case currentScreen of
        ScreenMainMenu \<Rightarrow> (ctx, map (element_of ctx) [Slot_MainMenu])
      | ScreenConnecting \<Rightarrow> (ctx, map (element_of ctx) [Slot_MainMenu, Slot_Connecting])
      | ScreenWaitingForRooms \<Rightarrow> (ctx, map (element_of ctx) [Slot_MainMenu, Slot_Connecting])
      | ScreenReconnecting \<Rightarrow> (ctx, map (element_of ctx) [Slot_Reconnecting])
      | ScreenRoomSelect \<Rightarrow>
          (let ctx = ctx\<lparr>UI := (UI ctx)\<lparr>ui_RoomSelect := rebuilt (buildRoomSelectUI ctx) (ui_RoomSelect (UI ctx))\<rparr>\<rparr>
           in (ctx, map (element_of ctx) [Slot_RoomSelect]))
      | ScreenInGame \<Rightarrow>
          (let ctx = ctx\<lparr>UI := (UI ctx)\<lparr>ui_Game := rebuilt (buildGameScreen ctx) (ui_Game (UI ctx))\<rparr>\<rparr>
           in (ctx, map (element_of ctx) [Slot_Game])))"

text \<open>The strings the text boxes point to.\<close>

definition load_strings :: "GameState \<Rightarrow> StrRef \<Rightarrow> bytes" where
  "load_strings s ref =
     (case ref of Ref_Nickname \<Rightarrow> Nickname s | Ref_ChipsStr \<Rightarrow> ChipsStr s | Ref_ServerIP \<Rightarrow> ServerIP s
      | Ref_ServerPort \<Rightarrow> ServerPort s | Ref_BetAmount \<Rightarrow> BetAmount s)"

definition store_strings :: "(StrRef \<Rightarrow> bytes) \<Rightarrow> ProgCtx \<Rightarrow> ProgCtx" where
  "store_strings m ctx =
     edit_boxes (m Ref_Nickname) (m Ref_ChipsStr) (m Ref_ServerIP) (m Ref_ServerPort) (m Ref_BetAmount) ctx"

fun draw_elements ::
  "Raylib \<Rightarrow> Rectangle \<Rightarrow> draw_element list \<Rightarrow> UIStore \<times> Frame \<Rightarrow> (UIStore \<times> Frame) go" where
  "draw_elements rl bounds [] uf = Some uf"
| "draw_elements rl bounds ((sl, dirty) # es) (ui, fr) = do {
     c \<leftarrow> elem_component (slot_element sl ui);
     let c = (if dirty then Calculate bounds c else c);
     let (c, fr) = Draw rl c fr;
     draw_elements rl bounds es (set_component sl c ui, fr)
   }"

definition draw_frame ::
  "Raylib \<Rightarrow> Rectangle \<Rightarrow> draw_element list \<Rightarrow> ProgCtx \<Rightarrow> (ProgCtx \<times> Frame) go" where
  "draw_frame rl bounds es ctx = do {
     let ps = PopupManager_Calculate rl bounds (Popup ctx);
     let fr = \<lparr>draw_calls = [DrawFPS 0 0, ClearBackground rl_Black], eventChannel = [],
               model_strings = load_strings (State ctx)\<rparr>;
     (ui, fr) \<leftarrow> draw_elements rl bounds es (UI ctx, fr);
     let fr = PopupManager_Draw ps fr;
     Some (store_strings (model_strings fr)
             (ctx\<lparr>UI := ui, Popup := PopupManager_Update (clock ctx) ps\<rparr>), fr)
   }"

section \<open>The loop and the program\<close>

text \<open>
  Where the main thread is: at the head of the loop, before the choice of the elements with the
  screen it has read, before drawing, handling the events of the frame, waiting for the game
  thread, or past the end. A frame's channel has room for ten events and is read after the
  frame only: a drawing that sends an eleventh waits for ever.
\<close>

datatype main_pc =
    LoopHead
  | Choosing UIScreen
  | Drawing "draw_element list"
  | Handling "UIEvent list"
  | WaitingForGame
  | Exited
  | Stuck

record MainThread =
  main_pc :: main_pc
  screenBounds :: Rectangle

definition uiEventCap :: nat where "uiEventCap = 10"

inductive program_step ::
  "(nat \<Rightarrow> nat) \<Rightarrow> (nat \<Rightarrow> bool) \<Rightarrow> MainThread \<times> thread \<times> ProgCtx \<Rightarrow> MainThread \<times> thread \<times> ProgCtx \<Rightarrow> bool"
  for flog wr where
  threads: "main_pc m \<noteq> Exited \<Longrightarrow> thread_step flog wr (t, ctx) (t', ctx') \<Longrightarrow>
    program_step flog wr (m, t, ctx) (m, t', ctx')"
| frame_begin: "t \<noteq> Panicked \<Longrightarrow> main_pc m = LoopHead \<Longrightarrow> \<not> ShouldClose ctx \<Longrightarrow>
    frame_size h w (screenBounds m, ctx) = (b, ctx') \<Longrightarrow>
    program_step flog wr (m, t, ctx) (\<lparr>main_pc = Choosing (Screen (State ctx')), screenBounds = b\<rparr>, t, ctx')"
| frame_choose: "t \<noteq> Panicked \<Longrightarrow> main_pc m = Choosing scr \<Longrightarrow> frame_elements scr ctx = (ctx', es) \<Longrightarrow>
    program_step flog wr (m, t, ctx) (m\<lparr>main_pc := Drawing es\<rparr>, t, ctx')"
| frame_draw: "t \<noteq> Panicked \<Longrightarrow> main_pc m = Drawing es \<Longrightarrow>
    draw_frame rl (screenBounds m) es ctx = Some (ctx', fr) \<Longrightarrow>
    program_step flog wr (m, t, ctx)
      (m\<lparr>main_pc := if length (eventChannel fr) \<le> uiEventCap then Handling (eventChannel fr) else Stuck\<rparr>, t, ctx')"
| frame_draw_panic: "t \<noteq> Panicked \<Longrightarrow> main_pc m = Drawing es \<Longrightarrow>
    draw_frame rl (screenBounds m) es ctx = None \<Longrightarrow>
    program_step flog wr (m, t, ctx) (m, Panicked, ctx)"
| frame_event: "t \<noteq> Panicked \<Longrightarrow> main_pc m = Handling (e # es) \<Longrightarrow>
    handleUIEvent flog ctx (event_SourceID e) = Some ctx' \<Longrightarrow>
    program_step flog wr (m, t, ctx) (m\<lparr>main_pc := Handling es\<rparr>, t, ctx')"
| frame_event_panic: "t \<noteq> Panicked \<Longrightarrow> main_pc m = Handling (e # es) \<Longrightarrow>
    handleUIEvent flog ctx (event_SourceID e) = None \<Longrightarrow>
    program_step flog wr (m, t, ctx) (m, Panicked, ctx)"
| frame_end: "t \<noteq> Panicked \<Longrightarrow> main_pc m = Handling [] \<Longrightarrow>
    program_step flog wr (m, t, ctx) (m\<lparr>main_pc := LoopHead\<rparr>, t, ctx)"
| loop_end: "t \<noteq> Panicked \<Longrightarrow> main_pc m = LoopHead \<Longrightarrow> WindowShouldClose \<or> ShouldClose ctx \<Longrightarrow>
    program_step flog wr (m, t, ctx) (m\<lparr>main_pc := WaitingForGame\<rparr>, t, main_shutdown ctx)"
| main_done: "t \<noteq> Panicked \<Longrightarrow> main_pc m = WaitingForGame \<Longrightarrow> chan_recv (DoneChan ctx) = Some (d, q) \<Longrightarrow>
    program_step flog wr (m, t, ctx) (m\<lparr>main_pc := Exited\<rparr>, t, ctx\<lparr>DoneChan := q\<rparr>)"

text \<open>\<open>main\<close> up to the loop; it gives up when its self test fails.\<close>

definition program_start ::
  "(nat \<Rightarrow> nat) \<Rightarrow> nat \<Rightarrow> nat \<Rightarrow> int \<Rightarrow> (MainThread \<times> thread \<times> ProgCtx) option" where
  "program_start flog r c now =
     (if res_Error self_test then None
      else Some (\<lparr>main_pc = LoopHead,
                  screenBounds = Rect 0 0 (float32_of_int screenWidth) (float32_of_int screenHeight)\<rparr>,
                 client_start flog r c now))"

section \<open>What the other threads leave alone\<close>

text \<open>No thread but the main thread replaces a component or clears a dirty flag.\<close>

lemma keeps_ui: "keeps ctx ctx' \<Longrightarrow> ui_grows (UI ctx) (UI ctx')"
  by (simp add: keeps_def)

lemma put_player_UI: "put_player nick d ctx = Some ctx' \<Longrightarrow> UI ctx' = UI ctx"
  by (drule put_player_Some) auto

lemma Enter_ui: "ui_grows (UI ctx) (UI (Enter flog s ctx))"
  by (cases s)
    (auto simp: MainMenu_Enter_def Connecting_Enter_def SendingInfo_Enter_def Let_def
      RequestingRooms_Enter_def Lobby_Enter_def InGame_Enter_def split: option.split)

lemma Exit_ui: "Exit s ctx = Some ctx' \<Longrightarrow> UI ctx' = UI ctx"
  by (cases s) (auto simp: InGame_Exit_def Let_def dest: put_player_UI)

lemma HandleInput_ui: "HandleInput s ctx e = (s', ctx', n) \<Longrightarrow> ui_grows (UI ctx) (UI ctx')"
  by (cases s; cases e)
    (auto simp: MainMenu_HandleInput_def Connecting_HandleInput_def SendingInfo_HandleInput_def
      RequestingRooms_HandleInput_def Lobby_HandleInput_def JoiningRoom_HandleInput_def Let_def
      split: prod.splits dest: InGame_input_keeps keeps_ui)

lemma HandleNetwork_ui:
  assumes fl: "log10_exact flog" and "ctx_players ctx \<noteq> None" and "HandleNetwork flog s ctx e = Some (ctx', n)"
  shows "ui_grows (UI ctx) (UI ctx')"
proof (cases s)
  case RequestingRoomsState
  show ?thesis
  proof (cases e)
    case (NetMessage m)
    obtain c err where "handleRoomData ctx m = Some (c, err)" "keeps ctx c" using handleRoomData_returns by blast
    with NetMessage RequestingRoomsState assms(3) show ?thesis
      by (auto simp: RequestingRooms_HandleNetwork_def keeps_ui split: if_splits)
  qed (use RequestingRoomsState assms(3) in \<open>auto simp: RequestingRooms_HandleNetwork_def\<close>)
next
  case JoiningRoomState
  show ?thesis
  proof (cases e)
    case (NetMessage m)
    obtain c err where "deserializeRoomState flog ctx (msg_Payload m) = Some (c, err)" "keeps ctx c"
      using deserializeRoomState_returns [OF fl] by blast
    with NetMessage JoiningRoomState assms(3) show ?thesis
      by (auto simp: JoiningRoom_HandleNetwork_def keeps_ui split: if_splits option.splits)
  qed (use JoiningRoomState assms(3) in \<open>auto simp: JoiningRoom_HandleNetwork_def\<close>)
next
  case (InGameState a)
  with assms(3) show ?thesis
    by (auto simp: InGame_HandleNetwork_def bind_Some_iff split: NetEvent.splits
        dest!: InGame_message_keeps [OF fl assms(2)] keeps_ui)
qed (use assms(3) in \<open>cases e; auto simp: MainMenu_HandleNetwork_def Connecting_HandleNetwork_def
      SendingInfo_HandleNetwork_def Lobby_HandleNetwork_def split: if_splits\<close>)+

lemma handle_transition_ui:
  "handle_transition flog s (ctx, n) = Some (s', ctx') \<Longrightarrow> ui_grows (UI ctx) (UI ctx')"
  by (auto simp: handle_transition_def bind_Some_iff dest!: Exit_ui split: option.splits)
    (metis Enter_ui ui_grows_SetDirty)

lemma loop_input_ui: "loop_input flog s ctx e = Some (s', ctx') \<Longrightarrow> ui_grows (UI ctx) (UI ctx')"
  by (auto simp: loop_input_def split: if_splits prod.splits
      intro: ui_grows_trans dest!: HandleInput_ui handle_transition_ui)

lemma loop_event_ui:
  "log10_exact flog \<Longrightarrow> ctx_players ctx \<noteq> None \<Longrightarrow> loop_event flog s ctx e = Some (s', ctx') \<Longrightarrow>
   ui_grows (UI ctx) (UI ctx')"
  by (auto simp: loop_event_def bind_Some_iff intro: ui_grows_trans dest!: HandleNetwork_ui handle_transition_ui)

lemma thread_step_ui:
  assumes "log10_exact flog" and "thread_step flog wr (t, ctx) (t', ctx')" and "client_inv (t, ctx)"
  shows "ui_grows (UI ctx) (UI ctx')"
  using assms(2)
proof cases
  case (game_input e q s)
  then show ?thesis using loop_input_ui [of flog s "ctx\<lparr>UserInputChan := q\<rparr>" e]
    by (auto simp: after_pass_def split: option.splits)
next
  case (game_net e q s)
  let ?c = "ctx\<lparr>net_handler := (net_handler ctx)\<lparr>eventChan := q\<rparr>\<rparr>"
  have "ctx_players ?c \<noteq> None" using assms(3) game_net by (simp add: sound_def ctx_players_def)
  then show ?thesis using game_net loop_event_ui [OF assms(1), of ?c s e]
    by (auto simp: after_pass_def split: option.splits)
qed (simp_all add: gameThread_end_def ctx_defs)

lemma handleUIEvent_UI:
  assumes "ctx_players ctx \<noteq> None" and "handleUIEvent flog ctx src = Some ctx'"
  shows "UI ctx' = UI ctx"
  using handleUIEvent_returns [OF assms(1), of flog src] assms(2) by (auto simp: ui_keeps_def)

section \<open>The invariant of the program\<close>

text \<open>The identifiers the components of a slot may carry, and how many of them the fixed screens have.\<close>

fun slot_ids :: "ui_slot \<Rightarrow> bytes set" where
  "slot_ids Slot_MainMenu =
     {''MainMenu_NickBox'', ''Server_IPBox'', ''Server_PortBox'', ''MainMenu_ConnectBtn'', ''MainMenu_CloseBtn''}"
| "slot_ids Slot_Connecting = {''Connecting_CancelBtn''}"
| "slot_ids Slot_Reconnecting = {''Reconnect_Accept'', ''Reconnect_Decline''}"
| "slot_ids Slot_RoomSelect = {''RoomSelect_BackBtn'', ''RoomSelect_RefreshBtn''} \<union> range (\<lambda>s. ''join_'' @ s)"
| "slot_ids Slot_Game =
     {''Game_Ready'', ''Game_ShowOK'', ''Game_Check'', ''Game_Bet'', ''Game_BetAmount'', ''Game_Call'',
      ''Game_Fold'', ''Game_Leave''}"

fun slot_limit :: "ui_slot \<Rightarrow> nat option" where
  "slot_limit Slot_MainMenu = Some 6"
| "slot_limit Slot_Connecting = Some 1"
| "slot_limit Slot_Reconnecting = Some 2"
| "slot_limit Slot_RoomSelect = None"
| "slot_limit Slot_Game = Some 6"

definition fits :: "ui_slot \<Rightarrow> RGComponent \<Rightarrow> bool" where
  "fits sl c \<longleftrightarrow> set (widget_ids c) \<subseteq> slot_ids sl \<and> (\<forall>n. slot_limit sl = Some n \<longrightarrow> length (widgets c) \<le> n)"

definition slot_ready :: "ui_slot \<Rightarrow> UIStore \<Rightarrow> bool" where
  "slot_ready sl ui \<longleftrightarrow>
     elem_dirty (slot_element sl ui) \<and> (\<exists>c. elem_component (slot_element sl ui) = Some c \<and> fits sl c)"

definition ui_ready :: "UIStore \<Rightarrow> bool" where
  "ui_ready ui \<longleftrightarrow> (\<forall>sl. sl \<noteq> Slot_RoomSelect \<or> elem_component (ui_RoomSelect ui) \<noteq> None \<longrightarrow> slot_ready sl ui)"

definition drawn_slots :: "ui_slot list list" where
  "drawn_slots = [[Slot_MainMenu], [Slot_MainMenu, Slot_Connecting], [Slot_Reconnecting], [Slot_RoomSelect], [Slot_Game]]"

definition pc_ok :: "main_pc \<Rightarrow> UIStore \<Rightarrow> bool" where
  "pc_ok pc ui \<longleftrightarrow>
     (case pc of
        Drawing es \<Rightarrow> map fst es \<in> set drawn_slots \<and> (\<forall>(sl, d) \<in> set es. d \<and> slot_ready sl ui)
      | Handling evs \<Rightarrow> length evs \<le> uiEventCap \<and> event_SourceID ` set evs \<subseteq> \<Union> (range slot_ids)
      | _ \<Rightarrow> True)"

definition prog_inv :: "MainThread \<times> thread \<times> ProgCtx \<Rightarrow> bool" where
  "prog_inv s \<longleftrightarrow>
     (case s of (m, t, ctx) \<Rightarrow> client_inv (t, ctx) \<and> ui_ready (UI ctx) \<and> pc_ok (main_pc m) (UI ctx))"

lemma slot_ready_grows: "ui_grows u v \<Longrightarrow> slot_ready sl u \<Longrightarrow> slot_ready sl v"
  by (simp add: slot_ready_def ui_grows_def)

lemma ui_ready_grows: "ui_grows u v \<Longrightarrow> ui_ready u \<Longrightarrow> ui_ready v"
  using slot_ready_grows [of u v] by (simp add: ui_ready_def ui_grows_def) (metis slot_element.simps(4))

lemma pc_ok_grows: "ui_grows u v \<Longrightarrow> pc_ok pc u \<Longrightarrow> pc_ok pc v"
  using slot_ready_grows [of u v] by (cases pc) (fastforce simp: pc_ok_def)+

text \<open>Drawing and \<open>Rebuild\<close> keep the widgets and the bounds.\<close>

lemma strip_modes_widgets: "widget_ids (strip_modes c) = widget_ids c"
  by (induction c) (auto simp: map_concat o_def split: option.split intro!: arg_cong [of _ _ concat])

lemma widgets_cong: "strip_modes c = strip_modes d \<Longrightarrow> widget_ids c = widget_ids d"
  by (metis strip_modes_widgets)

lemma fits_cong: "widget_ids c = widget_ids d \<Longrightarrow> fits sl c = fits sl d"
  unfolding fits_def by (metis length_map)

lemma fits_draw: "fits sl (fst (Draw rl (if d then Calculate b c else c) fr)) = fits sl c"
  by (rule fits_cong) (simp add: widgets_cong [OF strip_modes_Draw(1)] Calculate_widget_ids)

lemma fits_Rebuild: "fits sl (Rebuild c old) = fits sl c"
  by (rule fits_cong) (rule Rebuild_widget_ids)

lemma slot_set_component [simp]:
  "elem_component (slot_element sl' (set_component sl c ui)) = (if sl' = sl then Some c else elem_component (slot_element sl' ui))"
  "elem_dirty (slot_element sl' (set_component sl c ui)) = elem_dirty (slot_element sl' ui)"
  by (cases sl; cases sl'; simp)+

lemma fits_built:
  "fits Slot_MainMenu (component_of buildMainMenu)" "fits Slot_Connecting (component_of buildConnectingScreen)"
  "fits Slot_Reconnecting (component_of buildReconnectingMenu)"
  "fits Slot_RoomSelect (component_of (buildRoomSelectUI ctx))" "fits Slot_Game (component_of (buildGameScreen ctx))"
proof -
  have len: "length (widgets c) = length (widget_ids c)" for c by simp
  show "fits Slot_MainMenu (component_of buildMainMenu)" "fits Slot_Connecting (component_of buildConnectingScreen)"
    "fits Slot_Reconnecting (component_of buildReconnectingMenu)"
    "fits Slot_RoomSelect (component_of (buildRoomSelectUI ctx))" "fits Slot_Game (component_of (buildGameScreen ctx))"
    unfolding fits_def len main_menu_ids connecting_ids reconnecting_ids room_select_ids game_ids
    by (auto simp: action_ids_def Let_def)
qed

text \<open>What drawing a list of elements does.\<close>

definition widget_count :: "UIStore \<Rightarrow> ui_slot \<Rightarrow> nat" where
  "widget_count ui sl = (case elem_component (slot_element sl ui) of None \<Rightarrow> 0 | Some c \<Rightarrow> length (widgets c))"

lemma draw_elements_Cons:
  "draw_elements rl b ((sl, d) # es) (ui, fr) =
     (case elem_component (slot_element sl ui) of
        None \<Rightarrow> None
      | Some c \<Rightarrow>
          let r = Draw rl (if d then Calculate b c else c) fr
          in draw_elements rl b es (set_component sl (fst r) ui, snd r))"
  by (simp add: Let_def split: option.split prod.split)

declare draw_elements.simps(2) [simp del]

lemma draw_elements_returns:
  "\<forall>sl \<in> fst ` set es. elem_component (slot_element sl ui) \<noteq> None \<Longrightarrow>
     \<exists>ui' fr'. draw_elements rl b es (ui, fr) = Some (ui', fr')"
proof (induction es arbitrary: ui fr)
  case (Cons e es)
  obtain sl d where e: "e = (sl, d)" by (cases e)
  then obtain c where c: "elem_component (slot_element sl ui) = Some c" using Cons.prems by auto
  have "\<exists>ui' fr'. draw_elements rl b es (set_component sl x ui, y) = Some (ui', fr')" for x y
    using Cons.prems by (intro Cons.IH) simp
  with e c show ?case by (simp add: draw_elements_Cons Let_def)
qed simp

lemma draw_elements_dirty:
  "draw_elements rl b es (ui, fr) = Some (ui', fr') \<Longrightarrow> elem_dirty (slot_element sl ui') = elem_dirty (slot_element sl ui)"
proof (induction es arbitrary: ui fr)
  case (Cons e es)
  then obtain sl1 x y where "draw_elements rl b es (set_component sl1 x ui, y) = Some (ui', fr')"
    by (cases e) (auto simp: draw_elements_Cons Let_def split: option.splits)
  from Cons.IH [OF this] show ?case by simp
qed simp

lemma draw_elements_other:
  "draw_elements rl b es (ui, fr) = Some (ui', fr') \<Longrightarrow> sl \<notin> fst ` set es \<Longrightarrow>
     elem_component (slot_element sl ui') = elem_component (slot_element sl ui)"
  by (induction es arbitrary: ui fr) (auto simp: draw_elements_Cons Let_def split: option.splits)

lemma draw_elements_drawn:
  "draw_elements rl b es (ui, fr) = Some (ui', fr') \<Longrightarrow> distinct (map fst es) \<Longrightarrow> (sl, d) \<in> set es \<Longrightarrow>
     \<exists>c c'. elem_component (slot_element sl ui) = Some c \<and> elem_component (slot_element sl ui') = Some c'
       \<and> strip_modes c' = strip_modes (if d then Calculate b c else c)"
proof (induction es arbitrary: ui fr)
  case (Cons e es)
  obtain sl1 d1 c1 r where e: "e = (sl1, d1)" "elem_component (slot_element sl1 ui) = Some c1"
    "r = Draw rl (if d1 then Calculate b c1 else c1) fr"
    and rest: "draw_elements rl b es (set_component sl1 (fst r) ui, snd r) = Some (ui', fr')"
    using Cons.prems(1) by (cases e) (auto simp: draw_elements_Cons Let_def split: option.splits)
  show ?case
  proof (cases "(sl, d) = e")
    case True
    then have "elem_component (slot_element sl ui') = Some (fst r)"
      using draw_elements_other [OF rest, of sl] e Cons.prems(2) by auto
    with True e show ?thesis by (simp add: strip_modes_Draw)
  next
    case False
    then have "(sl, d) \<in> set es" "sl \<noteq> sl1" using Cons.prems(2,3) e by force+
    with Cons.IH [OF rest] Cons.prems(2) show ?thesis by simp
  qed
qed simp

lemma draw_elements_events:
  "draw_elements rl b es (ui, fr) = Some (ui', fr') \<Longrightarrow> distinct (map fst es) \<Longrightarrow>
   \<forall>sl c. sl \<in> fst ` set es \<longrightarrow> elem_component (slot_element sl ui) = Some c \<longrightarrow> set (widget_ids c) \<subseteq> ids \<Longrightarrow>
     \<exists>new. eventChannel fr' = eventChannel fr @ new \<and> event_SourceID ` set new \<subseteq> ids
       \<and> length new \<le> sum_list (map (widget_count ui) (map fst es))"
proof (induction es arbitrary: ui fr)
  case (Cons e es)
  obtain sl d c r where e: "e = (sl, d)" "elem_component (slot_element sl ui) = Some c"
    "r = Draw rl (if d then Calculate b c else c) fr"
    and rest: "draw_elements rl b es (set_component sl (fst r) ui, snd r) = Some (ui', fr')"
    using Cons.prems(1) by (cases e) (auto simp: draw_elements_Cons Let_def split: option.splits)
  let ?c = "if d then Calculate b c else c" and ?ui = "set_component sl (fst r) ui"
  have w: "widget_ids ?c = widget_ids c" by (simp add: Calculate_widget_ids)
  then have len: "length (widgets ?c) = widget_count ui sl"
    using e(2) by (metis length_map option.simps(5) widget_count_def)
  obtain new1 where new1: "eventChannel (snd r) = eventChannel fr @ new1" "length new1 \<le> widget_count ui sl"
    "event_SourceID ` set new1 \<subseteq> set (widget_ids c)"
    using Draw_events [of rl ?c fr] e(3) len w by metis
  have "map (widget_count ?ui) (map fst es) = map (widget_count ui) (map fst es)"
    using Cons.prems(2) e(1) by (auto simp: widget_count_def)
  moreover have "\<exists>new. eventChannel fr' = eventChannel (snd r) @ new \<and> event_SourceID ` set new \<subseteq> ids
      \<and> length new \<le> sum_list (map (widget_count ?ui) (map fst es))"
    using Cons.prems(2,3) e(1) by (intro Cons.IH [OF rest]) (auto split: if_splits)
  ultimately obtain new2 where "eventChannel fr' = eventChannel (snd r) @ new2" "event_SourceID ` set new2 \<subseteq> ids"
    "length new2 \<le> sum_list (map (widget_count ui) (map fst es))" by metis
  moreover have "set (widget_ids c) \<subseteq> ids" using Cons.prems(3) e by auto
  with new1(3) have "event_SourceID ` set new1 \<subseteq> ids" by (rule subset_trans)
  ultimately show ?case using new1(1,2) e(1) by (intro exI [of _ "new1 @ new2"]) (auto simp: image_Un)
qed simp

text \<open>What drawing a whole frame does.\<close>

lemma store_strings_frame [simp]:
  "UI (store_strings m ctx) = UI ctx" "ShouldClose (store_strings m ctx) = ShouldClose ctx"
  "Screen (State (store_strings m ctx)) = Screen (State ctx)"
  by (simp_all add: store_strings_def edit_boxes_def)

lemma PopupManager_Draw_events [simp]:
  "eventChannel (PopupManager_Draw ps fr) = eventChannel fr" "model_strings (PopupManager_Draw ps fr) = model_strings fr"
  unfolding PopupManager_Draw_def by (induction ps arbitrary: fr) (simp_all add: TimedPopup_Draw_def Let_def)

definition frame0 :: "ProgCtx \<Rightarrow> Frame" where
  "frame0 ctx = \<lparr>draw_calls = [DrawFPS 0 0, ClearBackground rl_Black], eventChannel = [],
                 model_strings = load_strings (State ctx)\<rparr>"

lemma draw_frame_cases:
  assumes "draw_frame rl b es ctx = Some (ctx', fr)"
  obtains ui fr1 where "draw_elements rl b es (UI ctx, frame0 ctx) = Some (ui, fr1)" "UI ctx' = ui"
    "eventChannel fr = eventChannel fr1"
    "ctx' = store_strings (model_strings fr1)
       (ctx\<lparr>UI := ui, Popup := PopupManager_Update (clock ctx) (PopupManager_Calculate rl b (Popup ctx))\<rparr>)"
  using assms by (auto simp: draw_frame_def Let_def frame0_def bind_Some_iff)

lemma draw_frame_None:
  "draw_frame rl b es ctx = None \<longleftrightarrow> draw_elements rl b es (UI ctx, frame0 ctx) = None"
  by (auto simp: draw_frame_def Let_def frame0_def bind_None_iff split: prod.splits)

lemma drawn_slots_distinct: "sls \<in> set drawn_slots \<Longrightarrow> distinct sls"
  by (auto simp: drawn_slots_def)

lemma draw_frame_pc:
  assumes "pc_ok (Drawing es) (UI ctx)"
  shows "\<exists>ctx' fr. draw_frame rl b es ctx = Some (ctx', fr)"
    and "draw_frame rl b es ctx = Some (ctx', fr) \<Longrightarrow> ui_ready (UI ctx) \<Longrightarrow> ui_ready (UI ctx')"
    and "draw_frame rl b es ctx = Some (ctx', fr) \<Longrightarrow> event_SourceID ` set (eventChannel fr) \<subseteq> \<Union> (range slot_ids)"
    and "draw_frame rl b es ctx = Some (ctx', fr) \<Longrightarrow>
      length (eventChannel fr) \<le> sum_list (map (widget_count (UI ctx)) (map fst es))"
proof -
  have rdy: "\<forall>(sl, d) \<in> set es. d \<and> slot_ready sl (UI ctx)" and dist: "distinct (map fst es)"
    using assms drawn_slots_distinct by (auto simp: pc_ok_def)
  have "\<forall>sl \<in> fst ` set es. elem_component (slot_element sl (UI ctx)) \<noteq> None"
    using rdy by (auto simp: slot_ready_def)
  from draw_elements_returns [OF this, of rl b "frame0 ctx"] have "draw_frame rl b es ctx \<noteq> None"
    by (auto simp: draw_frame_None)
  then show "\<exists>ctx' fr. draw_frame rl b es ctx = Some (ctx', fr)" by auto
  assume "draw_frame rl b es ctx = Some (ctx', fr)"
  then obtain ui fr1 where dr: "draw_elements rl b es (UI ctx, frame0 ctx) = Some (ui, fr1)" "UI ctx' = ui"
    "eventChannel fr = eventChannel fr1" by (rule draw_frame_cases)
  have "\<forall>sl c. sl \<in> fst ` set es \<longrightarrow> elem_component (slot_element sl (UI ctx)) = Some c \<longrightarrow>
      set (widget_ids c) \<subseteq> \<Union> (range slot_ids)"
    using rdy by (fastforce simp: slot_ready_def fits_def)
  from draw_elements_events [OF dr(1) dist this]
  show "event_SourceID ` set (eventChannel fr) \<subseteq> \<Union> (range slot_ids)"
    "length (eventChannel fr) \<le> sum_list (map (widget_count (UI ctx)) (map fst es))"
    by (auto simp: dr(3) frame0_def)
  have same: "slot_ready sl ui = slot_ready sl (UI ctx) \<and>
      (elem_component (slot_element sl ui) = None) = (elem_component (slot_element sl (UI ctx)) = None)" for sl
  proof (cases "sl \<in> fst ` set es")
    case True
    then obtain d where "(sl, d) \<in> set es" by auto
    from draw_elements_drawn [OF dr(1) dist this] obtain c c' where
      c: "elem_component (slot_element sl (UI ctx)) = Some c" "elem_component (slot_element sl ui) = Some c'"
        "strip_modes c' = strip_modes (if d then Calculate b c else c)" by blast
    have "widget_ids c' = widget_ids c" using widgets_cong [OF c(3)] by (simp add: Calculate_widget_ids)
    then have "fits sl c' = fits sl c" by (rule fits_cong)
    with c(1,2) show ?thesis by (simp add: slot_ready_def draw_elements_dirty [OF dr(1)])
  next
    case False
    then show ?thesis
      by (simp add: slot_ready_def draw_elements_dirty [OF dr(1)] draw_elements_other [OF dr(1)])
  qed
  then have "(elem_component (ui_RoomSelect ui) = None) = (elem_component (ui_RoomSelect (UI ctx)) = None)"
    using slot_element.simps(4) by metis
  with same show "ui_ready (UI ctx')" if "ui_ready (UI ctx)"
    using that dr(2) by (simp add: ui_ready_def)
qed

section \<open>Refinement\<close>

lemma ui_own_step:
  "t \<noteq> Panicked \<Longrightarrow> client_step flog wr (t, ctx) (t, ctx\<lparr>UI := ui\<rparr>)"
  "t \<noteq> Panicked \<Longrightarrow> client_step flog wr (t, ctx) (t, ctx\<lparr>UI := ui, Popup := ps\<rparr>)"
  "t \<noteq> Panicked \<Longrightarrow> client_step flog wr (t, ctx) (t, ctx\<lparr>DoneChan := q\<rparr>)"
  using client_step.ui_own [where t = t and ctx = ctx and ui = ui and ps = "Popup ctx" and q = "DoneChan ctx"]
    client_step.ui_own [where t = t and ctx = ctx and ui = ui and ps = ps and q = "DoneChan ctx"]
    client_step.ui_own [where t = t and ctx = ctx and ui = "UI ctx" and ps = "Popup ctx" and q = q]
  by (cases ctx; simp)+

lemma frame_size_ctx: "\<exists>ui. snd (frame_size h w bc) = (snd bc)\<lparr>UI := ui\<rparr> \<and> ui_grows (UI (snd bc)) ui"
proof -
  have d: "\<exists>ui. snd bc = (snd bc)\<lparr>UI := ui\<rparr> \<and> ui_grows (UI (snd bc)) ui"
    by (rule exI [of _ "UI (snd bc)"]) simp
  show ?thesis
    by (cases "h = screenHeight"; cases "w = screenWidth")
      (auto simp: frame_size_def ctx_SetDirty_def d Let_def intro: exI [of _ "SetDirty (UI (snd bc))"]
        exI [of _ "SetDirty (SetDirty (UI (snd bc)))"])
qed

lemma frame_elements_ctx: "\<exists>ui. fst (frame_elements scr ctx) = ctx\<lparr>UI := ui\<rparr>"
proof -
  have "\<exists>ui. ctx = ctx\<lparr>UI := ui\<rparr>" by (rule exI [of _ "UI ctx"]) simp
  then show ?thesis by (cases scr) (auto simp: frame_elements_def Let_def)
qed

text \<open>A step of the program is a step of the client as the other threads see it, or none.\<close>

lemma program_step_refines:
  assumes "program_step flog wr (m, t, ctx) (m', t', ctx')" and "prog_inv (m, t, ctx)"
  shows "(client_step flog wr)\<^sup>*\<^sup>* (t, ctx) (t', ctx')"
  using assms(1)
proof cases
  case threads
  then show ?thesis by (blast intro: client_step.other_threads)
next
  case (frame_begin h w b)
  obtain ui where "ctx' = ctx\<lparr>UI := ui\<rparr>" using frame_size_ctx [of h w "(screenBounds m, ctx)"] frame_begin by auto
  with frame_begin ui_own_step(1) show ?thesis by auto
next
  case (frame_choose scr es)
  obtain ui where "ctx' = ctx\<lparr>UI := ui\<rparr>" using frame_elements_ctx [of scr ctx] frame_choose by auto
  with frame_choose ui_own_step(1) show ?thesis by auto
next
  case (frame_draw es rl fr)
  from frame_draw(5) show ?thesis
  proof (rule draw_frame_cases)
    fix ui fr1
    assume "ctx' = store_strings (model_strings fr1)
      (ctx\<lparr>UI := ui, Popup := PopupManager_Update (clock ctx) (PopupManager_Calculate rl (screenBounds m) (Popup ctx))\<rparr>)"
    then show ?thesis
      using frame_draw ui_own_step(2) client_step.ui_edit unfolding store_strings_def
      by (meson converse_rtranclp_into_rtranclp r_into_rtranclp)
  qed
next
  case (frame_draw_panic es rl)
  have "pc_ok (Drawing es) (UI ctx)" using assms(2) frame_draw_panic(5) by (simp add: prog_inv_def)
  from draw_frame_pc(1) [OF this, of rl "screenBounds m"] frame_draw_panic(6) show ?thesis by simp
next
  case (frame_event e es)
  then show ?thesis by (auto intro: client_step.ui_event)
next
  case (frame_event_panic e es)
  then show ?thesis by (auto intro: client_step.ui_event_panic)
next
  case (loop_end WindowShouldClose)
  then show ?thesis by (auto intro: client_step.ui_close)
next
  case (main_done d q)
  then show ?thesis by (auto intro: ui_own_step(3))
qed simp

lemma client_steps_inv:
  assumes "log10_exact flog" and "(client_step flog wr)\<^sup>*\<^sup>* s s'" and "client_inv s"
  shows "client_inv s'"
  using assms(2,3) by (induction rule: rtranclp_induct) (auto intro: client_step_inv [OF assms(1)])

lemma slot_ready_cong:
  "slot_element sl v = slot_element sl u \<Longrightarrow> slot_ready sl v = slot_ready sl u"
  by (simp add: slot_ready_def)

lemma pc_ok_elements:
  "sls \<in> set drawn_slots \<Longrightarrow> \<forall>sl \<in> set sls. slot_ready sl (UI ctx) \<Longrightarrow>
   pc_ok (Drawing (map (element_of ctx) sls)) (UI ctx)"
  by (auto simp: pc_ok_def element_of_def slot_ready_def o_def)

lemma frame_elements_ready:
  assumes "frame_elements scr ctx = (ctx', es)" and "ui_ready (UI ctx)"
  shows "ui_ready (UI ctx')" and "pc_ok (Drawing es) (UI ctx')"
proof -
  have other: "slot_ready sl (UI ctx)" if "sl \<noteq> Slot_RoomSelect" for sl using assms(2) that by (simp add: ui_ready_def)
  have rebuilt: "elem_dirty (rebuilt e old) = elem_dirty e"
    "elem_component (rebuilt e old) = map_option (\<lambda>c. Rebuild c (elem_component old)) (elem_component e)" for e old
    by (simp_all add: rebuilt_def)
  have room: "slot_ready Slot_RoomSelect (ui\<lparr>ui_RoomSelect := rebuilt (buildRoomSelectUI ctx) old\<rparr>)" for ui old
    by (simp add: slot_ready_def rebuilt fits_Rebuild fits_built)
  have game: "slot_ready Slot_Game (ui\<lparr>ui_Game := rebuilt (buildGameScreen ctx) old\<rparr>)" for ui old
    by (simp add: slot_ready_def rebuilt fits_Rebuild fits_built)
  have room_other: "slot_ready sl (ui\<lparr>ui_RoomSelect := x\<rparr>) = slot_ready sl ui" if "sl \<noteq> Slot_RoomSelect" for sl ui x
    using that by (intro slot_ready_cong) (cases sl; simp)
  have game_other: "slot_ready sl (ui\<lparr>ui_Game := x\<rparr>) = slot_ready sl ui" if "sl \<noteq> Slot_Game" for sl ui x
    using that by (intro slot_ready_cong) (cases sl; simp)
  show "ui_ready (UI ctx')"
  proof (cases "scr = ScreenRoomSelect \<or> scr = ScreenInGame")
    case False
    with assms show ?thesis by (cases scr) (auto simp: frame_elements_def)
  next
    case True
    have "slot_ready sl (UI ctx')" if "sl \<noteq> Slot_RoomSelect \<or> elem_component (ui_RoomSelect (UI ctx')) \<noteq> None" for sl
      using True assms that other room game room_other game_other
      by (cases "sl = Slot_RoomSelect"; cases "sl = Slot_Game") (auto simp: frame_elements_def Let_def ui_ready_def)
    then show ?thesis by (simp add: ui_ready_def)
  qed
  have drawn: "pc_ok (Drawing (map (element_of c) sls)) (UI c)"
    if "sls \<in> set drawn_slots" "\<And>sl. sl \<in> set sls \<Longrightarrow> slot_ready sl (UI c)" for sls c
    using that by (intro pc_ok_elements) simp_all
  show "pc_ok (Drawing es) (UI ctx')"
    using assms(1) other room game
    by (cases scr) (auto simp: frame_elements_def Let_def drawn_slots_def simp del: list.map intro!: drawn)
qed

lemma program_step_inv:
  assumes fl: "log10_exact flog"
    and "program_step flog wr (m, t, ctx) (m', t', ctx')" and inv: "prog_inv (m, t, ctx)"
  shows "prog_inv (m', t', ctx')"
proof -
  have client: "client_inv (t', ctx')"
    using client_steps_inv [OF fl program_step_refines [OF assms(2) inv]] inv by (simp add: prog_inv_def)
  have rdy: "ui_ready (UI ctx)" "pc_ok (main_pc m) (UI ctx)" "client_inv (t, ctx)"
    using inv by (simp_all add: prog_inv_def)
  have "ui_ready (UI ctx') \<and> pc_ok (main_pc m') (UI ctx')"
    using assms(2)
  proof cases
    case threads
    with thread_step_ui [OF fl _ rdy(3)] ui_ready_grows pc_ok_grows rdy show ?thesis by blast
  next
    case (frame_begin h w b)
    then have "ui_grows (UI ctx) (UI ctx')" using frame_size_ctx [of h w "(screenBounds m, ctx)"] by auto
    with frame_begin rdy ui_ready_grows show ?thesis by (auto simp: pc_ok_def)
  next
    case (frame_choose scr es)
    with frame_elements_ready rdy(1) show ?thesis by simp
  next
    case (frame_draw es rl fr)
    then have p: "pc_ok (Drawing es) (UI ctx)" using rdy(2) by simp
    from draw_frame_pc(2,3) [OF p frame_draw(5)] rdy(1) frame_draw show ?thesis by (auto simp: pc_ok_def)
  next
    case (frame_event e es)
    have "ctx_players ctx \<noteq> None" using rdy(3) frame_event by (cases t) (simp_all add: sound_def)
    then have "UI ctx' = UI ctx" using handleUIEvent_UI frame_event by blast
    with frame_event rdy show ?thesis by (auto simp: pc_ok_def)
  qed (use rdy in \<open>auto simp: pc_ok_def main_shutdown_def\<close>)
  with client show ?thesis by (simp add: prog_inv_def)
qed

lemma self_test_ok: "\<not> res_Error self_test"
  by code_simp

lemma program_start_inv: "program_start flog r c now = Some s \<Longrightarrow> prog_inv s"
proof -
  assume "program_start flog r c now = Some s"
  then obtain m where s: "s = (m, client_start flog r c now)" "main_pc m = LoopHead"
    by (auto simp: program_start_def self_test_ok)
  obtain t ctx where c: "client_start flog r c now = (t, ctx)" by (cases "client_start flog r c now")
  have "UI ctx = UI (initProgCtx r c now)"
    using c by (auto simp: client_start_def gameThread_start_def MainMenu_Enter_def)
  then have ui: "elem_component (ui_RoomSelect (UI ctx)) = None"
    "sl \<noteq> Slot_RoomSelect \<Longrightarrow> slot_ready sl (UI ctx)" for sl
    using fits_built by (cases sl; simp add: initProgCtx_def buildUI_def zero_element_def slot_ready_def)+
  then have "ui_ready (UI ctx)" by (simp add: ui_ready_def)
  with s c client_start_inv [of flog r c now] show ?thesis by (simp add: prog_inv_def pc_ok_def)
qed


section \<open>Properties\<close>

lemma program_run_inv:
  assumes "log10_exact flog" and "program_start flog r c now = Some s0" and "(program_step flog wr)\<^sup>*\<^sup>* s0 s"
  shows "prog_inv s"
  using assms(3) program_start_inv [OF assms(2)]
proof (induction rule: rtranclp_induct)
  case (step s s')
  then show ?case using program_step_inv [OF assms(1)] by (cases s; cases s') blast
qed

lemma program_start_client: "program_start flog r c now = Some (m, t, ctx) \<Longrightarrow> (t, ctx) = client_start flog r c now"
  by (auto simp: program_start_def split: if_splits)







text \<open>
  The size of the window is not always followed: in every dimension that differs from the
  constants the window was opened with the frame takes the current size, but when the window is
  brought back to its original size, the layout stays with the size before.
\<close>

theorem original_size_is_not_followed:
  "(let (b, ctx') = frame_size h w (old, ctx) in
      rect_Height b = (if h = 1000 then rect_Height old else float32_of_int h)
      \<and> rect_Width b = (if w = 1600 then rect_Width old else float32_of_int w)
      \<and> rect_X b = rect_X old \<and> rect_Y b = rect_Y old
      \<and> fst (frame_size 1000 1600 (b, ctx')) = b)"
  by (simp add: frame_size_def screenHeight_def screenWidth_def Let_def)


end
