(* ===== verification/Offers.thy ===== *)
theory Offers
  imports MainLoop
begin

text \<open>
  What the screens offer the user and what becomes of it: the buttons of every screen against
  \<open>handleUIEvent\<close> (\<open>Main.go\<close>), the game's actions against the check before they are sent, the rooms
  against the request that joins them (\<open>StateMachine.go\<close>).
\<close>

section \<open>Facts\<close>

text \<open>The identifiers of the text boxes; their events are not handled.\<close>

definition text_box_ids :: "bytes set" where
  "text_box_ids = {''MainMenu_NickBox'', ''Server_IPBox'', ''Server_PortBox'', ''Game_BetAmount''}"

text \<open>Something happens: one event is queued or one popup is raised.\<close>

definition reacts :: "ProgCtx \<Rightarrow> ProgCtx \<Rightarrow> bool" where
  "reacts ctx ctx' \<longleftrightarrow>
     (\<exists>e. UserInputChan ctx' = UserInputChan ctx @ [e]) \<or> (\<exists>p. Popup ctx' = Popup ctx @ [p])"

lemma reacts_simps [simp]: "reacts ctx (AddPopup txt d ctx)" "reacts ctx (send_input e ctx)"
  by (auto simp: reacts_def AddPopup_def send_input_def chan_send_def)

lemma reacts_send: "UserInputChan c = UserInputChan ctx \<Longrightarrow> reacts ctx (send_input e c)"
  by (simp add: reacts_def send_input_def chan_send_def)

lemma inputs_frame [simp]:
  "UserInputChan (set_state f ctx) = UserInputChan ctx" "UserInputChan (set_table g ctx) = UserInputChan ctx"
  by (simp_all add: ctx_defs)

lemma bet_reacts: "reacts ctx (bet_pressed flog ctx)"
  by (simp add: bet_pressed_def Let_def reacts_send split: prod.split option.split)

lemma connect_reacts:
  assumes "ctx_players ctx \<noteq> None"
  shows "\<exists>ctx'. handleUIEvent flog ctx ''MainMenu_ConnectBtn'' = Some ctx' \<and> reacts ctx ctx'"
proof -
  obtain amount err where at: "Atoi (TrimSpace (ChipsStr (State ctx))) = (amount, err)"
    by (cases "Atoi (TrimSpace (ChipsStr (State ctx)))")
  obtain m where "put_player (nickname ctx) (zero_player\<lparr>ChipCount := amount\<rparr>) ctx = Some (set_table (\<lambda>t. t\<lparr>Players := Some m\<rparr>) ctx)"
    using put_player_nonnil [OF assms] by blast
  with at show ?thesis
    by (simp add: handleUIEvent_def connect_pressed_def reacts_send)
qed

lemma join_event: "handleUIEvent flog ctx (''join_'' @ s) = Some (send_input (EvtRoomJoin s) ctx)"
  by (simp add: handleUIEvent_def CutPrefix_def)

definition plain_ids :: "bytes set" where
  "plain_ids =
     {''MainMenu_CloseBtn'', ''Connecting_CancelBtn'', ''Reconnect_Accept'', ''Reconnect_Decline'',
      ''RoomSelect_BackBtn'', ''RoomSelect_RefreshBtn'', ''Game_Ready'', ''Game_ShowOK'', ''Game_Check'',
      ''Game_Bet'', ''Game_Call'', ''Game_Fold'', ''Game_Leave''}"

lemma slot_ids_sorts: "slot_ids sl \<subseteq> {''MainMenu_ConnectBtn''} \<union> range (\<lambda>s. ''join_'' @ s) \<union> text_box_ids \<union> plain_ids"
proof (cases "sl = Slot_RoomSelect")
  case True
  have "{''RoomSelect_BackBtn'', ''RoomSelect_RefreshBtn''} \<subseteq> plain_ids" by (simp add: plain_ids_def)
  with True show ?thesis unfolding True slot_ids.simps by blast
next
  case False
  then show ?thesis by (cases sl) (simp_all add: text_box_ids_def plain_ids_def)
qed

lemma plain_reacts: "i \<in> plain_ids \<Longrightarrow> \<exists>ctx'. handleUIEvent flog ctx i = Some ctx' \<and> reacts ctx ctx' \<and> i \<notin> text_box_ids"
  unfolding plain_ids_def
  by (elim insertE emptyE) (simp_all add: handleUIEvent_def text_box_ids_def bet_reacts)

lemma text_box_ignored: "i \<in> text_box_ids \<Longrightarrow> handleUIEvent flog ctx i = Some ctx"
  unfolding text_box_ids_def
  by (elim insertE emptyE) (simp_all add: handleUIEvent_def CutPrefix_def)

text \<open>The action a button of the game stands for, and that the game thread lets it pass.\<close>

fun action_code :: "bytes \<Rightarrow> bytes option" where
  "action_code i =
     (if i = ''Game_Ready'' then Some ''RDY1'' else if i = ''Game_ShowOK'' then Some ''SDOK''
      else if i = ''Game_Check'' then Some ''CHCK'' else if i = ''Game_Call'' then Some ''CALL''
      else if i = ''Game_Fold'' then Some ''FOLD'' else if i = ''Game_Leave'' then Some ''GMLV'' else None)"

definition passes :: "(nat \<Rightarrow> nat) \<Rightarrow> ProgCtx \<Rightarrow> bytes \<Rightarrow> bool" where
  "passes flog ctx i \<longleftrightarrow>
     (case action_code i of
        None \<Rightarrow> i \<in> {''Game_Bet'', ''Game_BetAmount''}
      | Some action \<Rightarrow> handleUIEvent flog ctx i = Some (send_input (EvtGameAction action []) ctx)
          \<and> validateGameAction ctx action [] = (ctx, True))"

lemma always_pass: "passes flog ctx ''Game_Ready''" "passes flog ctx ''Game_Leave''"
    "passes flog ctx ''Game_Bet''" "passes flog ctx ''Game_BetAmount''"
  by (simp_all add: passes_def handleUIEvent_def validateGameAction_def)

lemma showdown_passes: "Showdown (State ctx) \<Longrightarrow> passes flog ctx ''Game_ShowOK''"
  by (simp add: passes_def handleUIEvent_def validateGameAction_def)

lemma turn_passes:
  assumes "IsMyTurn (read_player ctx (nickname ctx))"
  shows "passes flog ctx ''Game_Check''" "passes flog ctx ''Game_Fold''"
    "HighBet (Table (State ctx)) \<noteq> 0 \<Longrightarrow> passes flog ctx ''Game_Call''"
proof -
  obtain d where "lookup_player ctx (nickname ctx) = Some d" "IsMyTurn d"
    using assms by (auto simp: read_player_def zero_player_def split: option.splits)
  then show "passes flog ctx ''Game_Check''" "passes flog ctx ''Game_Fold''"
    "HighBet (Table (State ctx)) \<noteq> 0 \<Longrightarrow> passes flog ctx ''Game_Call''"
    by (simp_all add: passes_def handleUIEvent_def validateGameAction_def)
qed

section \<open>Properties\<close>

text \<open>
  C8. No button of a screen is dead and no text box is taken for a button: pressing any button
  that one of the five screens shows queues an event for the game thread or raises a popup,
  never panics, and an event of a text box changes nothing.
\<close>

theorem every_button_reacts:
  assumes "ctx_players ctx \<noteq> None"
    and "i \<in> set (concat (map (\<lambda>e. widget_ids (component_of e))
          [buildMainMenu, buildConnectingScreen, buildReconnectingMenu, buildGameScreen ctx, buildRoomSelectUI ctx]))"
  shows "\<exists>ctx'. handleUIEvent flog ctx i = Some ctx' \<and> (if i \<in> text_box_ids then ctx' = ctx else reacts ctx ctx')"
proof -
  let ?es = "[buildMainMenu, buildConnectingScreen, buildReconnectingMenu, buildGameScreen ctx, buildRoomSelectUI ctx]"
  obtain e where e: "e \<in> set ?es" "i \<in> set (widget_ids (component_of e))" using assms(2) by (auto simp del: list.set_map)
  then obtain sl where "fits sl (component_of e)" using fits_built by (auto simp del: list.set_map)
  with e(2) have "i \<in> slot_ids sl" by (auto simp: fits_def)
  with slot_ids_sorts consider "i = ''MainMenu_ConnectBtn''" | s where "i = ''join_'' @ s" | "i \<in> text_box_ids" | "i \<in> plain_ids"
    by blast
  then show ?thesis
  proof cases
    case 1
    with connect_reacts [OF assms(1)] show ?thesis by (simp add: text_box_ids_def)
  next
    case 2
    show ?thesis unfolding 2 join_event by (simp add: text_box_ids_def)
  next
    case 3
    with text_box_ignored show ?thesis by simp
  next
    case 4
    from plain_reacts [OF this] obtain ctx' where
      "handleUIEvent flog ctx i = Some ctx'" "reacts ctx ctx'" "i \<notin> text_box_ids" by blast
    then show ?thesis by (intro exI [of _ ctx']) simp
  qed
qed

lemma every_button_reacts_witness:
  "\<exists>ctx'. handleUIEvent exact_log10 (ctx_with Map.empty) ''Game_Leave'' = Some ctx'
     \<and> (if ''Game_Leave'' \<in> text_box_ids then ctx' = ctx_with Map.empty else reacts (ctx_with Map.empty) ctx')"
  by (rule every_button_reacts)
    (simp_all add: game_ids action_ids_def Let_def del: list.set_map)


text \<open>
  C22. The list of rooms joins what it shows: the rooms stand in the order of their numbers, each
  once, and pressing the button of a room makes the lobby ask the server for that room, in the
  protocol's four digits, from which the number is read back.
\<close>

theorem room_buttons_join:
  assumes "Rooms (State ctx) = Some m" and "finite (dom m)" and "\<forall>k r. m k = Some r \<longrightarrow> room_ID r = k \<and> big_ok k"
  shows "widget_ids (component_of (buildRoomSelectUI ctx)) =
      map (\<lambda>k. ''join_'' @ fmt_d k) (sorted_list_of_set (dom m)) @ [''RoomSelect_BackBtn'', ''RoomSelect_RefreshBtn'']
    \<and> (\<forall>k \<in> dom m. handleUIEvent flog ctx (''join_'' @ fmt_d k) = Some (send_input (EvtRoomJoin (fmt_d k)) ctx)
        \<and> loop_input flog LobbyState ctx (EvtRoomJoin (fmt_d k)) =
            Some (JoiningRoomState, ctx_SetDirty (ctx_SendNetMsg ''JOIN'' (big_bytes k) ctx))
        \<and> ReadBigInt (big_bytes k) = Some k)"
proof (intro conjI ballI)
  let ?ks = "sorted_list_of_set (dom m)" and ?j = "\<lambda>k. ''join_'' @ fmt_d k"
  have ids: "map (room_ID \<circ> (the \<circ> m)) ?ks = ?ks"
    using assms(2,3) by (intro map_idI) auto
  have "map_get (Some m) = m" by (rule ext) (simp add: map_get_def)
  then have "map (\<lambda>r. ?j (room_ID r)) (sorted_rooms ctx) = map ?j (map (room_ID \<circ> (the \<circ> m)) ?ks)"
    by (simp add: sorted_rooms_def assms(1))
  also have "\<dots> = map ?j ?ks" by (simp only: ids)
  finally have "map (\<lambda>r. ?j (room_ID r)) (sorted_rooms ctx) = map ?j ?ks" .
  then show "widget_ids (component_of (buildRoomSelectUI ctx)) =
      map (\<lambda>k. ''join_'' @ fmt_d k) (sorted_list_of_set (dom m)) @ [''RoomSelect_BackBtn'', ''RoomSelect_RefreshBtn'']"
    by (simp only: room_select_ids)
  fix k assume "k \<in> dom m"
  then have k: "big_ok k" using assms(3) by auto
  then have "Atoi (fmt_d k) = (k, None)" by (intro Atoi_fmt_d) (simp add: big_ok_def in64_def)
  then show "loop_input flog LobbyState ctx (EvtRoomJoin (fmt_d k)) =
      Some (JoiningRoomState, ctx_SetDirty (ctx_SendNetMsg ''JOIN'' (big_bytes k) ctx))"
    by (simp add: loop_input_def Lobby_HandleInput_def handle_transition_def big_bytes_def)
  show "handleUIEvent flog ctx (''join_'' @ fmt_d k) = Some (send_input (EvtRoomJoin (fmt_d k)) ctx)"
    by (rule join_event)
  show "ReadBigInt (big_bytes k) = Some k" using big.decode_encode [OF k, of "[]"] by simp
qed

lemma room_buttons_join_witness:
  "\<exists>ctx. widget_ids (component_of (buildRoomSelectUI ctx)) =
      map (\<lambda>k. ''join_'' @ fmt_d k) (sorted_list_of_set (dom [3 \<mapsto> \<lparr>room_ID = 3, room_Name = ''R'', CurrentPlayers = 1, MaxPlayers = 4\<rparr>]))
        @ [''RoomSelect_BackBtn'', ''RoomSelect_RefreshBtn'']
    \<and> (\<forall>k \<in> dom [3 \<mapsto> \<lparr>room_ID = 3, room_Name = ''R'', CurrentPlayers = 1, MaxPlayers = 4\<rparr>].
        handleUIEvent exact_log10 ctx (''join_'' @ fmt_d k) = Some (send_input (EvtRoomJoin (fmt_d k)) ctx)
        \<and> loop_input exact_log10 LobbyState ctx (EvtRoomJoin (fmt_d k)) =
            Some (JoiningRoomState, ctx_SetDirty (ctx_SendNetMsg ''JOIN'' (big_bytes k) ctx))
        \<and> ReadBigInt (big_bytes k) = Some k)"
proof -
  let ?m = "[3 \<mapsto> \<lparr>room_ID = 3, room_Name = ''R'', CurrentPlayers = 1, MaxPlayers = 4\<rparr>]"
  let ?ctx = "set_state (\<lambda>s. s\<lparr>Rooms := Some ?m\<rparr>) (ctx_with Map.empty)"
  have "Rooms (State ?ctx) = Some ?m" "finite (dom ?m)" "\<forall>k r. ?m k = Some r \<longrightarrow> room_ID r = k \<and> big_ok k"
    by (auto simp: set_state_def big_ok_def)
  from room_buttons_join [OF this, of exact_log10] show ?thesis by blast
qed

text \<open>
  C24. Waiting cannot be cancelled: while the client waits for the list of rooms, the screen shows
  the "Cancel" button of the connecting screen and its press is queued, but the state drops
  every input but the end of the program; so do the states that send the player's data and that
  join a room, although the screens of connecting and of the rooms stay up.
\<close>

theorem cancel_is_ignored_while_waiting:
  "map fst (snd (frame_elements ScreenWaitingForRooms ctx)) = [Slot_MainMenu, Slot_Connecting]
   \<and> ''Connecting_CancelBtn'' \<in> set (widget_ids (component_of buildConnectingScreen))
   \<and> handleUIEvent flog ctx ''Connecting_CancelBtn'' = Some (send_input EvtCancelConnect ctx)
   \<and> Screen (State (Enter flog RequestingRoomsState ctx)) = ScreenWaitingForRooms
   \<and> list_all (\<lambda>s. loop_input flog s ctx e = Some (s, if e = EvtQuit then ctx\<lparr>ShouldClose := True\<rparr> else ctx))
       [SendingInfoState, RequestingRoomsState, JoiningRoomState]"
  by (simp add: frame_elements_def element_of_def connecting_ids handleUIEvent_def RequestingRooms_Enter_def
      loop_input_def SendingInfo_HandleInput_def RequestingRooms_HandleInput_def JoiningRoom_HandleInput_def
      handle_transition_def del: list.set_map)

end
