(* ===== verification/Runs.thy ===== *)
theory Runs
  imports MainLoop
begin

text \<open>
  Whole runs of the client: what a sequence of events does across the threads. A reconnect that
  takes the game up again, and a run in which a server ends the client's process.
\<close>

section \<open>Observations\<close>

definition events :: "ProgCtx \<Rightarrow> NetEvent list" where
  "events ctx = eventChan (net_handler ctx)"

text \<open>Between two passes: the inputs and the events that wait, and a client that runs.\<close>

definition waiting :: "UserInputEvent list \<Rightarrow> NetEvent list \<Rightarrow> ProgCtx \<Rightarrow> bool" where
  "waiting is es ctx \<longleftrightarrow> UserInputChan ctx = is \<and> events ctx = es \<and> \<not> ShouldClose ctx"

lemma waiting_simps [simp]:
  "waiting i es (AddPopup txt d ctx) = waiting i es ctx" "waiting i es (set_screen scr ctx) = waiting i es ctx"
  "waiting i es (ctx_SetDirty ctx) = waiting i es ctx" "waiting i es (set_state f ctx) = waiting i es ctx"
  "waiting i es (set_table g ctx) = waiting i es ctx" "waiting i es (ctx_SendCommand cmd ctx) = waiting i es ctx"
  "waiting i es (ctx_SendNetMsg c p ctx) = waiting i es ctx"
  by (simp_all add: waiting_def events_def ctx_defs SendCommand_def SendNetMsg_def)

definition pop_event :: "ProgCtx \<Rightarrow> ProgCtx" where
  "pop_event ctx = ctx\<lparr>net_handler := (net_handler ctx)\<lparr>eventChan := tl (events ctx)\<rparr>\<rparr>"

definition pop_input :: "ProgCtx \<Rightarrow> ProgCtx" where
  "pop_input ctx = ctx\<lparr>UserInputChan := tl (UserInputChan ctx)\<rparr>"

lemma waiting_pop [simp]:
  "waiting i (e # es) ctx \<Longrightarrow> waiting i es (pop_event ctx)"
  "waiting (j # i) es ctx \<Longrightarrow> waiting i es (pop_input ctx)"
  by (simp_all add: waiting_def events_def pop_event_def pop_input_def)

lemma pop_State [simp]: "State (pop_event ctx) = State ctx" "State (pop_input ctx) = State ctx"
  by (simp_all add: pop_event_def pop_input_def)

lemma event_step:
  "waiting i (e # es) ctx \<Longrightarrow> loop_event flog s (pop_event ctx) e = Some (s', ctx') \<Longrightarrow>
   thread_step flog wr (Looping s, ctx) (Looping s', ctx')"
  using thread_step.game_net [of ctx e es flog wr s]
  by (simp add: waiting_def events_def pop_event_def after_pass_def chan_recv_def)

lemma event_panic:
  "waiting i (e # es) ctx \<Longrightarrow> loop_event flog s (pop_event ctx) e = None \<Longrightarrow>
   thread_step flog wr (Looping s, ctx) (Panicked, ctx)"
  using thread_step.game_net [of ctx e es flog wr s]
  by (simp add: waiting_def events_def pop_event_def after_pass_def chan_recv_def)

lemma input_step:
  "waiting (e # i) es ctx \<Longrightarrow> loop_input flog s (pop_input ctx) e = Some (s', ctx') \<Longrightarrow>
   thread_step flog wr (Looping s, ctx) (Looping s', ctx')"
  using thread_step.game_input [of ctx e i flog wr s]
  by (simp add: waiting_def events_def pop_input_def after_pass_def chan_recv_def)

text \<open>Steps of the other threads while the main thread stays where it is.\<close>

lemma thread_run:
  "main_pc m \<noteq> Exited \<Longrightarrow> (thread_step flog wr)\<^sup>*\<^sup>* s s' \<Longrightarrow> (program_step flog wr)\<^sup>*\<^sup>* (m, s) (m, s')"
  by (erule rtranclp_induct, simp)
    (metis program_step.threads rtranclp.rtrancl_into_rtrancl surj_pair)

section \<open>A frame in which the user presses one button\<close>

lemma store_loaded [simp]:
  "State ctx' = State ctx \<Longrightarrow> store_strings (load_strings (State ctx)) ctx' = ctx'"
  by (simp add: store_strings_def edit_boxes_def load_strings_def set_state_def)

lemma slot_other: "sl' \<noteq> sl \<Longrightarrow> slot_element sl' (set_component sl c u) = slot_element sl' u"
  by (cases sl; cases sl'; simp)

lemma press_draws:
  assumes "elem_component (slot_element sl (UI ctx)) = Some c" and "filter (\<lambda>(i, s). s = txt) (button_labels c) = [(i, txt)]"
  shows "\<exists>c' p fr. draw_frame (press txt) b [(sl, True)] ctx = Some (ctx\<lparr>UI := set_component sl c' (UI ctx), Popup := p\<rparr>, fr)
    \<and> eventChannel fr = [\<lparr>event_SourceID = i, event_Type = EventClick\<rparr>]"
proof -
  obtain c' fr where d: "Draw (press txt) (Calculate b c) (frame0 ctx) = (c', fr)" by fastforce
  have "io fr = ([\<lparr>event_SourceID = i, event_Type = EventClick\<rparr>], load_strings (State ctx))"
    using Draw_widgets(1) [of "press txt" "Calculate b c" "frame0 ctx"]
    unfolding press_widgets Calculate_button_labels assms(2) d by (simp add: frame0_def)
  moreover have "draw_elements (press txt) b [(sl, True)] (UI ctx, frame0 ctx) = Some (set_component sl c' (UI ctx), fr)"
    using assms(1) d by (simp add: draw_elements_Cons)
  ultimately show ?thesis
    by (intro exI [of _ c'] exI [of _ "PopupManager_Update (clock ctx) (PopupManager_Calculate (press txt) b (Popup ctx))"])
      (simp add: draw_frame_def Let_def flip: frame0_def)
qed

lemma press_frame:
  assumes "t \<noteq> Panicked" and "main_pc m = LoopHead" and "\<not> ShouldClose ctx"
    and "frame_elements (Screen (State ctx)) ctx = (ctx, [(sl, True)])"
    and "elem_component (slot_element sl (UI ctx)) = Some c" and "filter (\<lambda>(i, s). s = txt) (button_labels c) = [(i, txt)]"
    and "\<And>u p. handleUIEvent flog (ctx\<lparr>UI := u, Popup := p\<rparr>) i = Some (h (ctx\<lparr>UI := u, Popup := p\<rparr>))"
  shows "\<exists>m' u p. main_pc m' = LoopHead \<and> (\<forall>sl'. sl' \<noteq> sl \<longrightarrow> slot_element sl' u = slot_element sl' (UI ctx))
    \<and> (program_step flog wr)\<^sup>*\<^sup>* (m, t, ctx) (m', t, h (ctx\<lparr>UI := u, Popup := p\<rparr>))"
proof -
  let ?step = "program_step flog wr" and ?b = "screenBounds m" and ?e = "\<lparr>event_SourceID = i, event_Type = EventClick\<rparr>"
  let ?m = "\<lambda>pc. \<lparr>main_pc = pc, screenBounds = ?b\<rparr>"
  obtain c' p fr where d: "draw_frame (press txt) ?b [(sl, True)] ctx = Some (ctx\<lparr>UI := set_component sl c' (UI ctx), Popup := p\<rparr>, fr)"
    "eventChannel fr = [?e]" using press_draws [OF assms(5,6)] by blast
  let ?ctx = "ctx\<lparr>UI := set_component sl c' (UI ctx), Popup := p\<rparr>"
  have s1: "?step (m, t, ctx) (?m (Choosing (Screen (State ctx))), t, ctx)"
    using program_step.frame_begin [OF assms(1-3), of screenHeight screenWidth ?b ctx] by (simp add: frame_size_def)
  have s2: "?step (?m (Choosing (Screen (State ctx))), t, ctx) (?m (Drawing [(sl, True)]), t, ctx)"
    using program_step.frame_choose [OF assms(1) _ assms(4), of "?m (Choosing (Screen (State ctx)))"] by simp
  have d1: "draw_frame (press txt) (screenBounds (?m (Drawing [(sl, True)]))) [(sl, True)] ctx = Some (?ctx, fr)"
    using d(1) by simp
  have s3: "?step (?m (Drawing [(sl, True)]), t, ctx) (?m (Handling [?e]), t, ?ctx)"
    using program_step.frame_draw [OF assms(1) _ d1, of flog wr] d(2)
    by (simp add: uiEventCap_def)
  have s4: "?step (?m (Handling [?e]), t, ?ctx) (?m (Handling []), t, h ?ctx)"
    using program_step.frame_event [OF assms(1), of "?m (Handling [?e])" ?e "[]" flog ?ctx "h ?ctx"] assms(7) by simp
  have s5: "?step (?m (Handling []), t, h ?ctx) (?m LoopHead, t, h ?ctx)"
    using program_step.frame_end [OF assms(1), of "?m (Handling [])"] by simp
  have "?step\<^sup>*\<^sup>* (m, t, ctx) (?m LoopHead, t, h ?ctx)"
    using s1 s2 s3 s4 s5 by (meson converse_rtranclp_into_rtranclp r_into_rtranclp)
  then show ?thesis
    by (intro exI [of _ "?m LoopHead"] exI [of _ "set_component sl c' (UI ctx)"] exI [of _ p]) (simp add: slot_other)
qed

section \<open>A server ends the client's process\<close>

definition empty_state :: bytes where
  "empty_state = state_bytes 0 0 False 0 0 [] []"

lemma empty_state_read:
  "deserializeRoomState exact_log10 ctx empty_state =
    Some (set_table (\<lambda>t. t\<lparr>CommunityCards := [], Pot := 0, HighBet := 0,
        Players := Some (case ctx_players ctx of None \<Rightarrow> Map.empty | Some m \<Rightarrow> m)\<rparr>) ctx, None)"
  using deserializeRoomState_wire [of exact_log10 0 0 False 0 0 "[]" "[]" ctx "[]"]
  by (simp add: empty_state_def state_fields_def log10_exact_var_ok in64_def small_ok_def flag_def seat_def)

lemma empty_state_length: "length empty_state \<le> 9999"
  by (simp add: empty_state_def state_bytes_def state_fields_def flag_def var_bytes_def small_bytes_def
      fmt_0d_def pad0_def fmt_d_def dec.simps)

definition crash_messages :: "NetMsg list" where
  "crash_messages = [net_msg ''RCON'' [], net_msg ''RMST'' empty_state, net_msg ''SDWN'' []]"

text \<open>The game thread's part, up to the question whether to reconnect.\<close>

definition asks_reconnect :: "ProgCtx \<Rightarrow> bool" where
  "asks_reconnect ctx \<longleftrightarrow>
     (\<exists>c. elem_component (ui_Reconnecting (UI ctx)) = Some c \<and> elem_dirty (ui_Reconnecting (UI ctx))
        \<and> button_labels c = [(''Reconnect_Accept'', ''Accept''), (''Reconnect_Decline'', ''Decline'')])"

lemma asks_SetDirty [simp]: "asks_reconnect (ctx_SetDirty ctx) = asks_reconnect ctx" if "elem_dirty (ui_Reconnecting (UI ctx))"
  using that by (simp add: asks_reconnect_def ctx_SetDirty_def SetDirty_def)

lemma asks_grows: "ui_grows (UI ctx) (UI ctx') \<Longrightarrow> asks_reconnect ctx \<Longrightarrow> asks_reconnect ctx'"
  unfolding ui_grows_def asks_reconnect_def by (metis slot_element.simps(3))

lemma pop_event_UI [simp]: "UI (pop_event ctx) = UI ctx"
  by (simp add: pop_event_def)

lemma waiting_Connecting_Enter [simp]: "waiting i es (Connecting_Enter c) = waiting i es c"
  by (simp add: Connecting_Enter_def split: option.split)

lemma crash_question:
  assumes w: "waiting [] (NetConnecting # NetConnected # map NetMessage crash_messages) ctx" and "asks_reconnect ctx"
  shows "\<exists>ctx'. (thread_step exact_log10 wr)\<^sup>*\<^sup>* (Looping MainMenuState, ctx) (Looping (ConnectingState False), ctx')
    \<and> waiting [] (map NetMessage (tl crash_messages)) ctx' \<and> Screen (State ctx') = ScreenReconnecting \<and> asks_reconnect ctx'"
proof -
  let ?step = "thread_step exact_log10 wr" and ?rest = "map NetMessage crash_messages"
  define c1 where "c1 = ctx_SetDirty (Connecting_Enter (set_screen ScreenConnecting (pop_event ctx)))"
  define c2 where "c2 = ctx_SetDirty (Connecting_Enter (pop_event c1))"
  define c3 where "c3 = set_screen ScreenReconnecting (pop_event c2)"
  have w1: "waiting [] (NetConnected # ?rest) c1" using w by (simp add: c1_def)
  then have w2: "waiting [] ?rest c2" by (simp add: c2_def)
  have e1: "loop_event exact_log10 MainMenuState (pop_event ctx) NetConnecting = Some (ConnectingState False, c1)"
    by (simp add: loop_event_def MainMenu_HandleNetwork_def handle_transition_def c1_def)
  have e2: "loop_event exact_log10 (ConnectingState False) (pop_event c1) NetConnected = Some (ConnectingState False, c2)"
    by (simp add: loop_event_def Connecting_HandleNetwork_def handle_transition_def c2_def)
  have e3: "loop_event exact_log10 (ConnectingState False) (pop_event c2) (NetMessage (net_msg ''RCON'' [])) =
      Some (ConnectingState False, c3)"
    by (simp add: loop_event_def Connecting_HandleNetwork_def handle_transition_def c3_def)
  have w2': "waiting [] (NetMessage (net_msg ''RCON'' []) # map NetMessage (tl crash_messages)) c2"
    using w2 by (simp add: crash_messages_def)
  have "waiting [] (map NetMessage (tl crash_messages)) c3" using w2' by (simp add: c3_def)
  moreover have "?step\<^sup>*\<^sup>* (Looping MainMenuState, ctx) (Looping (ConnectingState False), c3)"
    using event_step [OF w e1] event_step [OF w1 e2] event_step [OF w2' e3]
    by (meson converse_rtranclp_into_rtranclp r_into_rtranclp)
  moreover have "asks_reconnect c3"
    using assms(2) by (elim asks_grows [rotated])
      (simp add: c3_def c2_def c1_def Connecting_Enter_def split: option.split)
  ultimately show ?thesis by (intro exI [of _ c3]) (simp add: c3_def)
qed

text \<open>The game thread's part, after the question has been accepted.\<close>

lemma crash_accepted:
  assumes w: "waiting [EvtAcceptReconnect] (map NetMessage (tl crash_messages)) ctx"
  shows "\<exists>ctx'. (thread_step exact_log10 wr)\<^sup>*\<^sup>* (Looping (ConnectingState False), ctx) (Panicked, ctx')"
proof -
  let ?step = "thread_step exact_log10 wr"
  define c1 where "c1 = ctx_SetDirty (ctx_SendNetMsg ''RCON'' [] (pop_input ctx))"
  define c2 where "c2 = ctx_SetDirty (InGame_Enter (ctx_SendNetMsg ''STOK'' []
    (set_table (\<lambda>t. t\<lparr>CommunityCards := [], Pot := 0, HighBet := 0,
        Players := Some (case ctx_players (pop_event c1) of None \<Rightarrow> Map.empty | Some m \<Rightarrow> m)\<rparr>) (pop_event c1))))"
  have w1: "waiting [] (NetMessage (net_msg ''RMST'' empty_state) # [NetMessage (net_msg ''SDWN'' [])]) c1"
    using w by (simp add: c1_def crash_messages_def)
  then have w2: "waiting [] [NetMessage (net_msg ''SDWN'' [])] c2" by (simp add: c2_def InGame_Enter_def)
  have e0: "loop_input exact_log10 (ConnectingState False) (pop_input ctx) EvtAcceptReconnect = Some (JoiningRoomState, c1)"
    by (simp add: loop_input_def Connecting_HandleInput_def handle_transition_def c1_def)
  have e1: "loop_event exact_log10 JoiningRoomState (pop_event c1) (NetMessage (net_msg ''RMST'' empty_state)) =
      Some (InGameState None, c2)"
    by (simp add: loop_event_def JoiningRoom_HandleNetwork_def empty_state_read handle_transition_def c2_def)
  have e2: "loop_event exact_log10 (InGameState None) (pop_event c2) (NetMessage (net_msg ''SDWN'' [])) = None"
    by (simp add: loop_event_def InGame_HandleNetwork_def InGame_message_def handleShowdown_short)
  have "?step\<^sup>*\<^sup>* (Looping (ConnectingState False), ctx) (Panicked, c2)"
    using input_step [OF w e0] event_step [OF w1 e1] event_panic [OF w2 e2]
    by (meson converse_rtranclp_into_rtranclp r_into_rtranclp)
  then show ?thesis by blast
qed

text \<open>The network's part: the connection comes up and its reader gets the server's bytes.\<close>

lemma network_delivers:
  assumes "handleCommand True Net_Init (NetConnect host port) = nh" and "list_all frame_ok ms"
    and "list_all (\<lambda>m. msg_Code m \<noteq> ''PING'' \<and> msg_Code m \<noteq> ''ALV!'') ms"
  shows "\<exists>nh'. net_step wr nh nh' \<and> eventChan nh' = NetConnecting # NetConnected # map NetMessage ms"
proof -
  have nh: "eventChan nh = [NetConnecting, NetConnected]" "\<not> shutdown nh" "readers nh = [(0, Parser_Init)]"
    using assms(1) by (auto simp: handleCommand_def handleConnect_def connect_first_def retry_enter_def
        retry_iter_def dial_success_def net_ops Net_Init_def Let_def)
  let ?bs = "concat (map ToString ms)"
  have r: "processBuffer wr nh ?bs 0 Parser_Init = (foldl (deliver wr) nh ms, Parser_Init)"
    using readerLoop_stream [OF assms(2), of "[]" Parser_Init "[?bs]" wr nh] by (simp add: readerLoop_def)
  have ping: "list_all (\<lambda>m. msg_Code m \<noteq> ''PING'') ms" and alv: "filter (\<lambda>m. msg_Code m \<noteq> ''ALV!'') ms = ms"
    using assms(3) by (auto simp: list_all_iff filter_id_conv)
  have "net_step wr nh ((foldl (deliver wr) nh ms)\<lparr>readers := (readers nh)[0 := (0, Parser_Init)]\<rparr>)"
    using nh r by (intro net_step.reader_data [of nh 0 0 Parser_Init]) simp_all
  moreover have "eventChan (foldl (deliver wr) nh ms) = NetConnecting # NetConnected # map NetMessage ms"
    using deliver_events [OF ping, of wr nh] alv nh(1) by simp
  ultimately show ?thesis
    by (intro exI [of _ "(foldl (deliver wr) nh ms)\<lparr>readers := (readers nh)[0 := (0, Parser_Init)]\<rparr>"]) simp
qed

text \<open>The user's part: connecting from the main menu with the data the client starts with.\<close>

lemma start_connects:
  "\<exists>m. \<forall>u p. handleUIEvent exact_log10 ((initProgCtx r c now)\<lparr>UI := u, Popup := p\<rparr>) ''MainMenu_ConnectBtn'' =
     Some (send_input (EvtConnect ''127.0.0.1'' ''8080'')
       (set_table (\<lambda>t. t\<lparr>Players := Some m\<rparr>) ((initProgCtx r c now)\<lparr>UI := u, Popup := p\<rparr>)))"
proof -
  let ?ctx = "initProgCtx r c now" and ?n = "c mod 1000000000" and ?nick = "''Client'' @ fmt_d (int (r mod 100))"
  have s: "Nickname (State ?ctx) = ?nick" "ChipsStr (State ?ctx) = fmt_d (int ?n)" "ServerIP (State ?ctx) = ''127.0.0.1''"
    "ServerPort (State ?ctx) = ''8080''" "Players (Table (State ?ctx)) = Some Map.empty"
    by (simp_all add: initProgCtx_def make_map_def)
  have len: "length (fmt_d (int (r mod 100))) \<le> 2" "length (fmt_d (int ?n)) \<le> 9" "fmt_d (int ?n) \<noteq> []"
    using dec_length_le [of 2 "r mod 100"] dec_length_le [of 9 ?n] by (simp_all add: fmt_d_def)
  have n64: "in64 (int ?n)" by (simp add: in64_def)
  then have "Atoi (TrimSpace (fmt_d (int ?n))) = (int ?n, None)"
    by (simp add: TrimSpace_digits fmt_d_digits Atoi_fmt_d)
  moreover have "WriteVarInt exact_log10 (int ?n) = Some (var_bytes (int ?n))"
    by (rule WriteVarInt_var [OF log10_exact_var_ok [OF exact_log10_exact n64]])
  ultimately show ?thesis
    using s len
    by (intro exI [of _ "[?nick \<mapsto> zero_player\<lparr>ChipCount := int ?n\<rparr>]"] allI)
      (simp add: handleUIEvent_def connect_pressed_def put_player_def map_put_def ctx_players_def)
qed

lemma start_waiting:
  "waiting [] [] (initProgCtx r c now) \<and> net_handler (initProgCtx r c now) = Net_Init \<and> asks_reconnect (initProgCtx r c now)
   \<and> frame_elements (Screen (State (initProgCtx r c now))) (initProgCtx r c now) = (initProgCtx r c now, [(Slot_MainMenu, True)])
   \<and> elem_component (slot_element Slot_MainMenu (UI (initProgCtx r c now))) = Some (component_of buildMainMenu)"
  by (simp add: initProgCtx_def waiting_def events_def Net_Init_def asks_reconnect_def buildUI_def reconnecting_labels
      frame_elements_def element_of_def)

lemma program_start_menu:
  obtains m where "program_start exact_log10 r c now = Some (m, Looping MainMenuState, initProgCtx r c now)" "main_pc m = LoopHead"
proof -
  have "set_screen ScreenMainMenu (initProgCtx r c now) = initProgCtx r c now"
    by (simp add: initProgCtx_def buildUI_def set_screen_def set_state_def)
  then have "client_start exact_log10 r c now = (Looping MainMenuState, initProgCtx r c now)"
    by (simp add: client_start_def gameThread_start_def MainMenu_Enter_def)
  with self_test_ok show thesis by (intro that) (auto simp: program_start_def)
qed

lemma user_connects:
  assumes "main_pc m = LoopHead"
  obtains m' ctx' where "(program_step exact_log10 wr)\<^sup>*\<^sup>* (m, Looping MainMenuState, initProgCtx r c now) (m', Looping MainMenuState, ctx')"
    and "main_pc m' = LoopHead" and "waiting [EvtConnect ''127.0.0.1'' ''8080''] [] ctx'"
    and "net_handler ctx' = Net_Init" and "asks_reconnect ctx'"
proof -
  let ?c = "initProgCtx r c now"
  note st = start_waiting [of r c now]
  obtain mp where h: "handleUIEvent exact_log10 (?c\<lparr>UI := u, Popup := p\<rparr>) ''MainMenu_ConnectBtn'' =
      Some (send_input (EvtConnect ''127.0.0.1'' ''8080'') (set_table (\<lambda>t. t\<lparr>Players := Some mp\<rparr>) (?c\<lparr>UI := u, Popup := p\<rparr>)))" for u p
    using start_connects by blast
  let ?h = "\<lambda>ctx. send_input (EvtConnect ''127.0.0.1'' ''8080'') (set_table (\<lambda>t. t\<lparr>Players := Some mp\<rparr>) ctx)"
  have "\<exists>m' u p. main_pc m' = LoopHead \<and> (\<forall>sl. sl \<noteq> Slot_MainMenu \<longrightarrow> slot_element sl u = slot_element sl (UI ?c))
    \<and> (program_step exact_log10 wr)\<^sup>*\<^sup>* (m, Looping MainMenuState, ?c) (m', Looping MainMenuState, ?h (?c\<lparr>UI := u, Popup := p\<rparr>))"
    using st by (intro press_frame [where h = ?h, OF _ assms _ _ _ main_menu_connect h]) (simp_all add: waiting_def)
  then obtain m' u p where r: "main_pc m' = LoopHead" "slot_element Slot_Reconnecting u = slot_element Slot_Reconnecting (UI ?c)"
    "(program_step exact_log10 wr)\<^sup>*\<^sup>* (m, Looping MainMenuState, ?c) (m', Looping MainMenuState, ?h (?c\<lparr>UI := u, Popup := p\<rparr>))"
    by blast
  have empty: "eventChan Net_Init = []" by (simp add: Net_Init_def)
  from that [OF r(3,1)] show thesis
    using st r(2) empty by (simp add: waiting_def events_def send_input_def chan_send_def set_table_def set_state_def asks_reconnect_def)
qed

text \<open>The user's answer to the question.\<close>

lemma user_accepts:
  assumes "main_pc m = LoopHead" and "waiting [] es ctx" and "Screen (State ctx) = ScreenReconnecting" and "asks_reconnect ctx"
  obtains m' ctx' where "(program_step exact_log10 wr)\<^sup>*\<^sup>* (m, Looping s, ctx) (m', Looping s, ctx')"
    and "main_pc m' = LoopHead" and "waiting [EvtAcceptReconnect] es ctx'"
proof -
  obtain c where c: "elem_component (slot_element Slot_Reconnecting (UI ctx)) = Some c" "elem_dirty (ui_Reconnecting (UI ctx))"
    "filter (\<lambda>(i, s). s = ''Accept'') (button_labels c) = [(''Reconnect_Accept'', ''Accept'')]"
    using assms(4) by (auto simp: asks_reconnect_def)
  have accept: "handleUIEvent exact_log10 (ctx\<lparr>UI := u, Popup := p\<rparr>) ''Reconnect_Accept'' =
      Some (send_input EvtAcceptReconnect (ctx\<lparr>UI := u, Popup := p\<rparr>))" for u p by (simp add: handleUIEvent_def)
  have "\<exists>m' u p. main_pc m' = LoopHead \<and> (\<forall>sl. sl \<noteq> Slot_Reconnecting \<longrightarrow> slot_element sl u = slot_element sl (UI ctx))
    \<and> (program_step exact_log10 wr)\<^sup>*\<^sup>* (m, Looping s, ctx) (m', Looping s, send_input EvtAcceptReconnect (ctx\<lparr>UI := u, Popup := p\<rparr>))"
    using assms(2,3) c(2) by (intro press_frame [where h = "send_input EvtAcceptReconnect", OF _ assms(1) _ _ c(1,3) accept])
      (simp_all add: waiting_def frame_elements_def element_of_def)
  then obtain m' u p where r: "main_pc m' = LoopHead"
    "(program_step exact_log10 wr)\<^sup>*\<^sup>* (m, Looping s, ctx) (m', Looping s, send_input EvtAcceptReconnect (ctx\<lparr>UI := u, Popup := p\<rparr>))"
    by blast
  from that [OF r(2,1)] show thesis using assms(2) by (simp add: waiting_def events_def send_input_def chan_send_def)
qed

text \<open>The network's part after the user's: the command is taken and the server's messages arrive.\<close>

lemma crash_connection:
  assumes "waiting [EvtConnect host port] [] ctx" and "net_handler ctx = Net_Init"
  shows "\<exists>ctx'. (thread_step exact_log10 wr)\<^sup>*\<^sup>* (Looping MainMenuState, ctx) (Looping MainMenuState, ctx')
    \<and> waiting [] (NetConnecting # NetConnected # map NetMessage crash_messages) ctx' \<and> ui_grows (UI ctx) (UI ctx')"
proof -
  let ?step = "thread_step exact_log10 wr"
  define c2 where "c2 = ctx_SendCommand (NetConnect host port) (pop_input ctx)"
  define nh where "nh = handleCommand True Net_Init (NetConnect host port)"
  have s1: "?step (Looping MainMenuState, ctx) (Looping MainMenuState, c2)"
    using assms(1) by (rule input_step) (simp add: loop_input_def MainMenu_HandleInput_def handle_transition_def c2_def)
  have w2: "waiting [] [] c2" using assms(1) by (simp add: c2_def)
  have "net_handler c2 = Net_Init\<lparr>commandChan := [NetConnect host port]\<rparr>"
    using assms(2) by (simp add: c2_def pop_input_def ctx_SendCommand_def SendCommand_def chan_try_send_def chanBufSize_def Net_Init_def)
  then have "net_step wr (net_handler c2) nh"
    using net_step.run_command [of "net_handler c2" "NetConnect host port" "[]" wr True]
    by (simp add: chan_recv_def nh_def Net_Init_def)
  then have s2: "?step (Looping MainMenuState, c2) (Looping MainMenuState, c2\<lparr>net_handler := nh\<rparr>)"
    by (intro thread_step.net_goroutine) simp_all
  have "list_all frame_ok crash_messages" "list_all (\<lambda>m. msg_Code m \<noteq> ''PING'' \<and> msg_Code m \<noteq> ''ALV!'') crash_messages"
    by (simp_all add: crash_messages_def frame_ok_def MSG_CODE_SIZE_def empty_state_length)
  then obtain nh' where nh': "net_step wr nh nh'" "eventChan nh' = NetConnecting # NetConnected # map NetMessage crash_messages"
    using network_delivers [of host port nh] by (auto simp: nh_def)
  let ?c = "c2\<lparr>net_handler := nh'\<rparr>"
  have s3: "?step (Looping MainMenuState, c2\<lparr>net_handler := nh\<rparr>) (Looping MainMenuState, ?c)"
    using thread_step.net_goroutine [of "Looping MainMenuState" wr "c2\<lparr>net_handler := nh\<rparr>" nh'] nh'(1) by simp
  have "?step\<^sup>*\<^sup>* (Looping MainMenuState, ctx) (Looping MainMenuState, ?c)"
    using s1 s2 s3 by (meson converse_rtranclp_into_rtranclp r_into_rtranclp)
  then show ?thesis
    using w2 nh'(2) by (intro exI [of _ ?c]) (simp add: waiting_def events_def c2_def pop_input_def)
qed

section \<open>Properties\<close>


lemma InGame_Exit_run:
  "\<exists>c. InGame_Exit ctx = Some c \<and> lookup_player c k = (if k = nickname ctx then Some (read_player ctx (nickname ctx)) else None)
    \<and> outgoing c = outgoing ctx \<and> ShouldClose c = ShouldClose ctx \<and> nickname c = nickname ctx"
  by (auto simp: InGame_Exit_def Let_def put_player_def map_put_def make_map_def lookup_player_def map_get_def)

text \<open>The connection is back during a game: the game is left and the nickname sent again.\<close>

lemma reconnected_in_game:
  assumes "\<not> ShouldClose ctx" and "outgoing ctx = []" and "str_ok (nickname ctx)"
  obtains d where "loop_event flog (InGameState a) ctx NetReconnected = Some (ConnectingState True, d)"
    and "outgoing d = [net_msg ''CONN'' (str_bytes (nickname ctx))]" and "\<not> ShouldClose d"
    and "nickname d = nickname ctx" and "\<And>k. k \<noteq> nickname ctx \<Longrightarrow> lookup_player d k = None"
proof -
  obtain e where e: "InGame_Exit (ctx_SetDirty ctx) = Some e" using InGame_Exit_run by blast
  have ef: "outgoing e = []" "\<not> ShouldClose e" "nickname e = nickname ctx"
    "\<And>k. k \<noteq> nickname ctx \<Longrightarrow> lookup_player e k = None"
    using InGame_Exit_run [of "ctx_SetDirty ctx"] e assms(1,2) by auto
  let ?d = "ctx_SetDirty (ctx_SendNetMsg ''CONN'' (str_bytes (nickname ctx)) e)"
  show thesis
  proof (rule that [of ?d])
    show "loop_event flog (InGameState a) ctx NetReconnected = Some (ConnectingState True, ?d)"
      using e ef(3) assms(3) by (simp add: loop_event_def InGame_HandleNetwork_def handle_transition_def
          Connecting_Enter_def WriteString_str)
    show "outgoing ?d = [net_msg ''CONN'' (str_bytes (nickname ctx))]" "\<not> ShouldClose ?d" "nickname ?d = nickname ctx"
      using ef(1-3) by simp_all
    show "lookup_player ?d k = None" if "k \<noteq> nickname ctx" for k
      using ef(4) [OF that] by (simp add: lookup_player_def ctx_players_def)
  qed
qed

text \<open>A well-formed room state takes the client from joining into the game.\<close>

lemma room_state_enters_the_game:
  assumes "list_all (field_ok flog) (state_fields pot high dealt c1 c2 comm (length ws))"
    and "list_all small_ok comm" and "length ws \<le> 99" and "list_all (wire_ok flog) ws" and "distinct (map w_nick ws)"
    and out: "outgoing d = [m1, m2]" and new: "\<And>k. k \<noteq> nickname d \<Longrightarrow> lookup_player d k = None"
  obtains d' where "loop_event flog JoiningRoomState d (NetMessage (net_msg ''RMST'' (state_bytes pot high dealt c1 c2 comm ws)))
      = Some (InGameState None, d')"
    and "Screen (State d') = ScreenInGame" and "outgoing d' = [m1, m2, net_msg ''STOK'' []]"
    and "Pot (Table (State d')) = pot" and "HighBet (Table (State d')) = high"
    and "CommunityCards (Table (State d')) = map shown_card comm"
    and "\<forall>w \<in> set ws. lookup_player d' (w_nick w) = Some (reveal_own (nickname d) dealt c1 c2 w)"
    and "\<forall>k. k \<notin> w_nick ` set ws \<and> k \<noteq> nickname d \<longrightarrow> lookup_player d' k = None"
proof -
  let ?m = "case ctx_players d of None \<Rightarrow> Map.empty | Some m \<Rightarrow> m"
  define t where "t = set_table (\<lambda>t. t\<lparr>CommunityCards := map shown_card comm, Pot := pot, HighBet := high,
        Players := Some (seat (reveal_own (nickname d) dealt c1 c2) ?m ws)\<rparr>) d"
  define d' where "d' = ctx_SetDirty (InGame_Enter (ctx_SendNetMsg ''STOK'' [] t))"
  have read: "deserializeRoomState flog d (state_bytes pot high dealt c1 c2 comm ws) = Some (t, None)"
    using deserializeRoomState_wire [OF assms(1-4), of d "[]"] by (simp add: t_def)
  have l: "lookup_player d' k = seat (reveal_own (nickname d) dealt c1 c2) ?m ws k" for k
    by (simp add: d'_def InGame_Enter_def t_def lookup_player_def map_get_def)
  have m: "?m k = lookup_player d k" for k by (simp add: lookup_player_def map_get_def split: option.splits)
  show thesis
  proof (rule that [of d'])
    show "loop_event flog JoiningRoomState d (NetMessage (net_msg ''RMST'' (state_bytes pot high dealt c1 c2 comm ws)))
      = Some (InGameState None, d')"
      using read by (simp add: loop_event_def JoiningRoom_HandleNetwork_def handle_transition_def d'_def)
    show "\<forall>w \<in> set ws. lookup_player d' (w_nick w) = Some (reveal_own (nickname d) dealt c1 c2 w)"
      using seat_lookup [OF assms(5)] l by simp
    show "\<forall>k. k \<notin> w_nick ` set ws \<and> k \<noteq> nickname d \<longrightarrow> lookup_player d' k = None"
      using seat_lookup [OF assms(5), of _ ?m] l m new by simp
  qed (simp_all add: d'_def InGame_Enter_def t_def out)
qed

text \<open>
  C11. A reconnect takes the game up again: when the connection returns during a game, the server
  recognises the nickname (\<open>RCON\<close>) and sends the room's state, the client ends in the game, on its
  screen, with the table and the players of that state; every player who is not in it is gone,
  the client itself apart; it has sent its nickname, the confirmation of the reconnect and that of
  the state; and no action from before the interruption is remembered.
\<close>

theorem reconnect_resumes_the_game:
  assumes "\<not> ShouldClose ctx" and "outgoing ctx = []" and "str_ok (nickname ctx)"
    and "list_all (field_ok flog) (state_fields pot high dealt c1 c2 comm (length ws))"
    and "list_all small_ok comm" and "length ws \<le> 99" and "list_all (wire_ok flog) ws"
    and "distinct (map w_nick ws)"
  shows "\<exists>ctx'. gameThread_loop flog (InGameState a, ctx)
      [PickEvent NetReconnected, server_says ''RCON'' [],
       server_says ''RMST'' (state_bytes pot high dealt c1 c2 comm ws)] = Some (InGameState None, ctx')
    \<and> Screen (State ctx') = ScreenInGame
    \<and> outgoing ctx' = [net_msg ''CONN'' (str_bytes (nickname ctx)), net_msg ''RCON'' [], net_msg ''STOK'' []]
    \<and> Pot (Table (State ctx')) = pot \<and> HighBet (Table (State ctx')) = high
    \<and> CommunityCards (Table (State ctx')) = map shown_card comm
    \<and> (\<forall>w \<in> set ws. lookup_player ctx' (w_nick w) = Some (reveal_own (nickname ctx) dealt c1 c2 w))
    \<and> (\<forall>k. k \<notin> w_nick ` set ws \<and> k \<noteq> nickname ctx \<longrightarrow> lookup_player ctx' k = None)"
proof -
  obtain d1 where d1: "loop_event flog (InGameState a) ctx NetReconnected = Some (ConnectingState True, d1)"
    "outgoing d1 = [net_msg ''CONN'' (str_bytes (nickname ctx))]" "\<not> ShouldClose d1" "nickname d1 = nickname ctx"
    "\<And>k. k \<noteq> nickname ctx \<Longrightarrow> lookup_player d1 k = None"
    by (rule reconnected_in_game [OF assms(1-3), where flog = flog and a = a]) blast
  define d2 where "d2 = ctx_SetDirty (set_state (\<lambda>s. s\<lparr>Reconnected := True\<rparr>) (ctx_SendNetMsg ''RCON'' [] d1))"
  have d2: "outgoing d2 = [net_msg ''CONN'' (str_bytes (nickname ctx)), net_msg ''RCON'' []]" "\<not> ShouldClose d2" "nickname d2 = nickname ctx"
    "\<And>k. lookup_player d2 k = lookup_player d1 k"
    using d1(2-4) by (simp_all add: d2_def) (simp add: lookup_player_def ctx_players_def)
  have s2: "loop_event flog (ConnectingState True) d1 (NetMessage (net_msg ''RCON'' [])) = Some (JoiningRoomState, d2)"
    by (simp add: loop_event_def Connecting_HandleNetwork_def handle_transition_def d2_def)
  have new: "lookup_player d2 k = None" if "k \<noteq> nickname d2" for k using that d1(5) d2(3,4) by simp
  show ?thesis
  proof (rule room_state_enters_the_game [OF assms(4-8) d2(1) new])
    fix d'
    assume "loop_event flog JoiningRoomState d2 (NetMessage (net_msg ''RMST'' (state_bytes pot high dealt c1 c2 comm ws)))
        = Some (InGameState None, d')"
    moreover assume "Screen (State d') = ScreenInGame" "outgoing d' = [net_msg ''CONN'' (str_bytes (nickname ctx)), net_msg ''RCON'' [], net_msg ''STOK'' []]"
      "Pot (Table (State d')) = pot" "HighBet (Table (State d')) = high" "CommunityCards (Table (State d')) = map shown_card comm"
      "\<forall>w \<in> set ws. lookup_player d' (w_nick w) = Some (reveal_own (nickname d2) dealt c1 c2 w)"
      "\<forall>k. k \<notin> w_nick ` set ws \<and> k \<noteq> nickname d2 \<longrightarrow> lookup_player d' k = None"
    ultimately show ?thesis
      using assms(1) d1 d2 s2 by (intro exI [of _ d']) simp
  qed
qed

lemma reconnect_resumes_the_game_witness:
  "\<exists>ctx'. gameThread_loop exact_log10 (InGameState (Some FoldAction), ctx_with Map.empty)
      [PickEvent NetReconnected, server_says ''RCON'' [],
       server_says ''RMST'' (state_bytes 10 5 True 12 25 [1, 2, 3] [sample_player])] = Some (InGameState None, ctx')
    \<and> Screen (State ctx') = ScreenInGame
    \<and> outgoing ctx' = [net_msg ''CONN'' (str_bytes (nickname (ctx_with Map.empty))), net_msg ''RCON'' [], net_msg ''STOK'' []]
    \<and> Pot (Table (State ctx')) = 10 \<and> HighBet (Table (State ctx')) = 5
    \<and> CommunityCards (Table (State ctx')) = map shown_card [1, 2, 3]
    \<and> (\<forall>w \<in> set [sample_player]. lookup_player ctx' (w_nick w)
         = Some (reveal_own (nickname (ctx_with Map.empty)) True 12 25 w))
    \<and> (\<forall>k. k \<notin> w_nick ` set [sample_player] \<and> k \<noteq> nickname (ctx_with Map.empty) \<longrightarrow> lookup_player ctx' k = None)"
proof (rule reconnect_resumes_the_game)
  show "\<not> ShouldClose (ctx_with Map.empty)" "outgoing (ctx_with Map.empty) = []"
    by (simp_all add: ctx_with_def initProgCtx_def outgoing_def Net_Init_def set_table_def set_state_def)
qed (simp_all add: str_ok_def state_fields_def sample_player_ok log10_exact_var_ok in64_def small_ok_def flag_def)

end
